(* ===== verification/Prelude.thy ===== *)
theory Prelude
  imports Complex_Main "HOL-Library.Word" "HOL-Library.Char_ord" "HOL-Library.List_Lexorder"
begin

text \<open>
  Vocabulary shared by every component: machine integers, floating point values, the ordered
  associative container \<open>std::map\<close>, the heap of audio buffers, and the collections of rewrite
  rules the component proofs use.
\<close>

section \<open>Machine integers\<close>

type_synonym u8 = "8 word"
type_synonym u16 = "16 word"
type_synonym u32 = "32 word"
type_synonym u64 = "64 word"
type_synonym i64 = "64 word"

text \<open>
  A time point of \<open>std::chrono::steady_clock\<close> and a duration are counts of nanoseconds; a
  reading of \<open>Time::getMillisecondCounterHiRes\<close> is a real number of milliseconds.
\<close>

type_synonym timepoint = int

definition milliseconds :: "int \<Rightarrow> int" where
  "milliseconds n = n * 1000000"

definition seconds :: "int \<Rightarrow> int" where
  "seconds n = n * 1000000000"

section \<open>Collections of rules\<close>

named_theorems step_simps \<open>characteristic equations of the operations of a component\<close>
named_theorems inv_intros \<open>preservation of a component's invariant by its operations\<close>

section \<open>Words\<close>

lemma word_succ_le_of_less: "a < b \<Longrightarrow> a + 1 \<le> b" for a b :: "'a::len word"
  by (metis inc_le)

lemma word_less_succ: "a < b \<Longrightarrow> a < a + 1" for a b :: "'a::len word"
  by uint_arith

lemma word_pred_less: "a < b \<Longrightarrow> b - 1 < b" for a b :: "'a::len word"
  by uint_arith

lemma word_le_pred: "a < b \<Longrightarrow> a \<le> b - 1" for a b :: "'a::len word"
  by uint_arith

lemma word_gap: "a < b \<Longrightarrow> a + 1 \<noteq> b \<Longrightarrow> a + 1 < b" for a b :: "'a::len word"
  by (metis order_le_less word_succ_le_of_less)

section \<open>Floating point values that the code tests for finiteness\<close>

text \<open>
  Tempo values arrive from the network and the code compares them with \<open>isfinite\<close> and
  \<open>isnan\<close>, so they keep the non-finite values of IEEE 754. Comparison with a NaN is false, as in
  C++. Signed zeros are not distinguished (no operation of the code tells them apart).
\<close>

datatype fl = FFin real | FPosInf | FNegInf | FNaN

fun fl_less :: "fl \<Rightarrow> fl \<Rightarrow> bool" where
  "fl_less FNaN y = False"
| "fl_less x FNaN = False"
| "fl_less (FFin a) (FFin b) = (a < b)"
| "fl_less FNegInf y = (y \<noteq> FNegInf)"
| "fl_less x FPosInf = (x \<noteq> FPosInf)"
| "fl_less x y = False"

text \<open>\<open>std::max(a, b)\<close> returns \<open>b\<close> exactly when \<open>a < b\<close>; with a NaN it returns \<open>a\<close>.\<close>

definition fl_max :: "fl \<Rightarrow> fl \<Rightarrow> fl" where
  "fl_max a b = (if fl_less a b then b else a)"

fun fl_isfinite :: "fl \<Rightarrow> bool" where
  "fl_isfinite (FFin a) = True"
| "fl_isfinite x = False"

fun fl_isnan :: "fl \<Rightarrow> bool" where
  "fl_isnan FNaN = True"
| "fl_isnan x = False"

text \<open>Division of finite values, with the results of IEEE 754 for a zero divisor; square root.\<close>

definition fl_divide :: "real \<Rightarrow> real \<Rightarrow> fl" where
  "fl_divide a b =
     (if b \<noteq> 0 then FFin (a / b) else if a = 0 then FNaN else if 0 < a then FPosInf else FNegInf)"

fun fl_sqrt :: "fl \<Rightarrow> fl" where
  "fl_sqrt (FFin a) = (if a < 0 then FNaN else FFin (sqrt a))"
| "fl_sqrt FPosInf = FPosInf"
| "fl_sqrt FNegInf = FNaN"
| "fl_sqrt FNaN = FNaN"

lemma fl_divide_nonzero [simp]: "b \<noteq> 0 \<Longrightarrow> fl_divide a b = FFin (a / b)"
  by (simp add: fl_divide_def)

lemma fl_less_irrefl [simp]: "\<not> fl_less x x"
  by (cases x) auto

lemma fl_less_trans: "fl_less x y \<Longrightarrow> fl_less y z \<Longrightarrow> fl_less x z"
  by (cases x; cases y; cases z) auto

lemma fl_isnan_iff [simp]: "fl_isnan x \<longleftrightarrow> x = FNaN"
  by (cases x) auto

lemma fl_max_not_nan: "a \<noteq> FNaN \<Longrightarrow> fl_max a b \<noteq> FNaN"
  by (cases a; cases b) (auto simp: fl_max_def)

lemma fl_max_not_less_left: "\<not> fl_less (fl_max a b) a"
  by (auto simp: fl_max_def dest: fl_less_trans)

lemma fl_max_not_less_right: "\<not> fl_less (fl_max a b) b"
  by (auto simp: fl_max_def)

section \<open>Ordered maps\<close>

text \<open>
  A \<open>std::map\<close> is the list of its entries in iteration order. \<open>emplace\<close> leaves an existing
  entry alone; \<open>find\<close> is \<open>map_of\<close>.
\<close>

fun smap_emplace :: "'k::linorder \<Rightarrow> 'v \<Rightarrow> ('k \<times> 'v) list \<Rightarrow> ('k \<times> 'v) list" where
  "smap_emplace k v [] = [(k, v)]"
| "smap_emplace k v ((k', v') # m) =
     (if k < k' then (k, v) # (k', v') # m
      else if k = k' then (k', v') # m
      else (k', v') # smap_emplace k v m)"

fun smap_update :: "'k \<Rightarrow> 'v \<Rightarrow> ('k \<times> 'v) list \<Rightarrow> ('k \<times> 'v) list" where
  "smap_update k v [] = []"
| "smap_update k v ((k', v') # m) = (if k = k' then (k', v) # m else (k', v') # smap_update k v m)"

definition smap_wf :: "('k::linorder \<times> 'v) list \<Rightarrow> bool" where
  "smap_wf m \<longleftrightarrow> sorted_wrt (<) (map fst m)"

lemma smap_wf_Nil [simp]: "smap_wf []"
  by (simp add: smap_wf_def)

lemma smap_wf_distinct: "smap_wf m \<Longrightarrow> distinct (map fst m)"
  by (auto simp: smap_wf_def strict_sorted_iff)

lemma smap_emplace_keys [simp]:
  "fst ` set (smap_emplace k v m) = insert k (fst ` set m)"
  by (induction k v m rule: smap_emplace.induct) auto

lemma smap_emplace_wf [simp, inv_intros]: "smap_wf m \<Longrightarrow> smap_wf (smap_emplace k v m)"
proof (induction k v m rule: smap_emplace.induct)
  case (2 k v k' v' m)
  then show ?case
    using smap_emplace_keys [of k v m] by (auto simp: smap_wf_def simp del: smap_emplace_keys)
qed (simp add: smap_wf_def)

lemma smap_emplace_lookup:
  "smap_wf m \<Longrightarrow> map_of (smap_emplace k v m) j
     = (if j = k \<and> map_of m k = None then Some v else map_of m j)"
proof (induction k v m rule: smap_emplace.induct)
  case (2 k v k' v' m)
  have "map_of m k = None" if "k < k'"
    using that "2.prems" by (force simp: smap_wf_def map_of_eq_None_iff)
  with 2 show ?case by (auto simp: smap_wf_def)
qed simp

lemma smap_emplace_fresh_set:
  "k \<notin> fst ` set m \<Longrightarrow> set (smap_emplace k v m) = insert (k, v) (set m)"
  by (induction k v m rule: smap_emplace.induct) auto

lemma smap_update_keys [simp]: "map fst (smap_update k v m) = map fst m"
  by (induction k v m rule: smap_update.induct) auto

lemma smap_update_lookup:
  "map_of (smap_update k v m) j = (if j = k \<and> map_of m k \<noteq> None then Some v else map_of m j)"
  by (induction k v m rule: smap_update.induct) auto

section \<open>Audio buffers and their heap\<close>

text \<open>
  A \<open>juce::AudioBuffer<float>\<close> has a number of samples and one row of samples per channel.
  Packets hold their buffer by \<open>std::shared_ptr\<close>, and one place of the code clears a buffer
  through such a pointer, so buffers live in a heap and a pointer is an address. An address that
  is not in the heap is a null pointer.
\<close>

record audio_buffer =
  buf_numSamples :: nat
  buf_channels :: "real list list"

definition buffer_wf :: "audio_buffer \<Rightarrow> bool" where
  "buffer_wf b \<longleftrightarrow> (\<forall>ch \<in> set (buf_channels b). length ch = buf_numSamples b)"

definition buf_numChannels :: "audio_buffer \<Rightarrow> nat" where
  "buf_numChannels b = length (buf_channels b)"

text \<open>\<open>AudioBuffer::clear()\<close>: every sample becomes zero, the shape stays.\<close>

definition buf_clear :: "audio_buffer \<Rightarrow> audio_buffer" where
  "buf_clear b = b\<lparr>buf_channels := map (\<lambda>ch. replicate (length ch) 0) (buf_channels b)\<rparr>"

text \<open>A new buffer of \<open>c\<close> channels and \<open>n\<close> samples after \<open>clear()\<close>.\<close>

definition buf_silent :: "nat \<Rightarrow> nat \<Rightarrow> audio_buffer" where
  "buf_silent c n = \<lparr>buf_numSamples = n, buf_channels = replicate c (replicate n 0)\<rparr>"

definition buf_is_silent :: "audio_buffer \<Rightarrow> bool" where
  "buf_is_silent b \<longleftrightarrow> list_all (list_all (\<lambda>s. s = 0)) (buf_channels b)"

record heap =
  mem :: "nat \<Rightarrow> audio_buffer option"
  next_addr :: nat

definition heap_alloc :: "audio_buffer \<Rightarrow> heap \<Rightarrow> nat \<times> heap" where
  "heap_alloc b h = (next_addr h, h\<lparr>mem := (mem h)(next_addr h \<mapsto> b), next_addr := Suc (next_addr h)\<rparr>)"

definition heap_write :: "nat \<Rightarrow> audio_buffer \<Rightarrow> heap \<Rightarrow> heap" where
  "heap_write a b h = h\<lparr>mem := (mem h)(a \<mapsto> b)\<rparr>"

definition empty_heap :: heap where
  "empty_heap = \<lparr>mem = Map.empty, next_addr = 0\<rparr>"

definition heap_wf :: "heap \<Rightarrow> bool" where
  "heap_wf h \<longleftrightarrow> (\<forall>a. mem h a \<noteq> None \<longrightarrow> a < next_addr h)"

lemma buf_clear_silent [simp]: "buf_is_silent (buf_clear b)"
  by (auto simp: buf_is_silent_def buf_clear_def list_all_iff)

lemma buf_silent_silent [simp]: "buf_is_silent (buf_silent c n)"
  by (auto simp: buf_is_silent_def buf_silent_def list_all_iff)

lemma buf_silent_wf [simp]: "buffer_wf (buf_silent c n)"
  by (auto simp: buffer_wf_def buf_silent_def)

lemma buf_silent_simps [simp]:
  "buf_numSamples (buf_silent c n) = n" "buf_numChannels (buf_silent c n) = c"
  "buf_channels (buf_silent c n) = replicate c (replicate n 0)"
  by (auto simp: buf_silent_def buf_numChannels_def)

lemma buf_clear_shape [simp]:
  "buf_numSamples (buf_clear b) = buf_numSamples b"
  "buf_numChannels (buf_clear b) = buf_numChannels b"
  by (auto simp: buf_clear_def buf_numChannels_def)

lemma heap_write_simps [simp]:
  "mem (heap_write a b h) = (mem h)(a \<mapsto> b)" "next_addr (heap_write a b h) = next_addr h"
  by (auto simp: heap_write_def)

lemma heap_alloc_simps [simp]:
  "fst (heap_alloc b h) = next_addr h"
  "mem (snd (heap_alloc b h)) = (mem h)(next_addr h \<mapsto> b)"
  "next_addr (snd (heap_alloc b h)) = Suc (next_addr h)"
  by (auto simp: heap_alloc_def)

lemma heap_wf_empty [simp]: "heap_wf empty_heap"
  by (simp add: heap_wf_def empty_heap_def)

lemma heap_wf_alloc [simp, inv_intros]: "heap_wf h \<Longrightarrow> heap_wf (snd (heap_alloc b h))"
  by (auto simp: heap_wf_def less_Suc_eq)

lemma heap_wf_fresh: "heap_wf h \<Longrightarrow> mem h (next_addr h) = None"
  by (metis heap_wf_def less_irrefl)

end
