(* ===== verification/Packet.thy ===== *)
theory Packet
  imports Prelude
begin

text \<open>
  The data of \<open>common/JammerNetzPackage.h\<close> and the operations of \<open>JammerNetzPackage.cpp\<close> that
  build one packet from another: channel setups and their tolerant comparison, audio blocks, the
  audio message with its forward-error-correction block, the fill-in packet created for a gap, and
  the silent packet that pads a new stream.
\<close>

section \<open>Protocol versions\<close>

definition JammerNetzProtocol_Legacy :: u16 where
  "JammerNetzProtocol_Legacy = 0"

definition JammerNetzProtocol_SplitSessionInfo :: u16 where
  "JammerNetzProtocol_SplitSessionInfo = 1"

definition JammerNetzProtocol_Current :: u16 where
  "JammerNetzProtocol_Current = JammerNetzProtocol_SplitSessionInfo"

definition supportsSplitSessionInfo :: "u16 \<Rightarrow> bool" where
  "supportsSplitSessionInfo v \<longleftrightarrow> JammerNetzProtocol_SplitSessionInfo \<le> v"

lemma current_supports_split [simp]: "supportsSplitSessionInfo JammerNetzProtocol_Current"
  by (simp add: supportsSplitSessionInfo_def JammerNetzProtocol_Current_def)

lemma legacy_lacks_split [simp]: "\<not> supportsSplitSessionInfo JammerNetzProtocol_Legacy"
  by (simp add: supportsSplitSessionInfo_def JammerNetzProtocol_Legacy_def
      JammerNetzProtocol_SplitSessionInfo_def)

section \<open>Channel setups\<close>

text \<open>The routing target of a channel travels as a byte; the enumeration names the known values.\<close>

datatype channel_target = Mute | Left | Right | Mono | SendMono | SendLeft | SendRight

fun channel_target_code :: "channel_target \<Rightarrow> u8" where
  "channel_target_code Mute = 0"
| "channel_target_code Left = 1"
| "channel_target_code Right = 2"
| "channel_target_code Mono = 3"
| "channel_target_code SendMono = 4"
| "channel_target_code SendLeft = 5"
| "channel_target_code SendRight = 6"

definition target_of_u8 :: "u8 \<Rightarrow> channel_target option" where
  "target_of_u8 b =
     (if b = 0 then Some Mute else if b = 1 then Some Left else if b = 2 then Some Right
      else if b = 3 then Some Mono else if b = 4 then Some SendMono else if b = 5 then Some SendLeft
      else if b = 6 then Some SendRight else None)"

lemma target_of_code [simp]: "target_of_u8 (channel_target_code t) = Some t"
  by (cases t) (auto simp: target_of_u8_def)

lemma target_of_u8_code: "target_of_u8 b = Some t \<Longrightarrow> b = channel_target_code t"
  by (auto simp: target_of_u8_def split: if_splits)

record single_channel_setup =
  sc_target :: u8
  sc_volume :: real
  sc_mag :: real
  sc_rms :: real
  sc_pitch :: real
  sc_name :: string

definition single_channel :: "u8 \<Rightarrow> single_channel_setup" where
  "single_channel t = \<lparr>sc_target = t, sc_volume = 1, sc_mag = 0, sc_rms = 0, sc_pitch = 0, sc_name = []\<rparr>"

definition default_channel :: single_channel_setup where
  "default_channel = single_channel (channel_target_code Mono)"

text \<open>The value of the \<open>float\<close> literal \<open>1e-6f\<close>.\<close>

definition volume_tolerance :: real where
  "volume_tolerance = 8796093 / 8796093022208"

definition sc_isEqualEnough :: "single_channel_setup \<Rightarrow> single_channel_setup \<Rightarrow> bool" where
  "sc_isEqualEnough a b \<longleftrightarrow>
     sc_target a = sc_target b \<and> \<bar>sc_volume a - sc_volume b\<bar> < volume_tolerance \<and> sc_name a = sc_name b"

record channel_setup =
  cs_dontSendEcho :: bool
  cs_channels :: "single_channel_setup list"

definition new_channel_setup :: "bool \<Rightarrow> channel_setup" where
  "new_channel_setup localMonitoring = \<lparr>cs_dontSendEcho = localMonitoring, cs_channels = []\<rparr>"

definition channel_setup_of :: "bool \<Rightarrow> single_channel_setup list \<Rightarrow> channel_setup" where
  "channel_setup_of localMonitoring info = \<lparr>cs_dontSendEcho = localMonitoring, cs_channels = info\<rparr>"

text \<open>The loop over the channels stops at the first pair that differs.\<close>

fun channels_equal_enough :: "single_channel_setup list \<Rightarrow> single_channel_setup list \<Rightarrow> bool" where
  "channels_equal_enough (a # as) (b # bs) =
     (if \<not> sc_isEqualEnough a b then False else channels_equal_enough as bs)"
| "channels_equal_enough _ _ = True"

definition cs_isEqualEnough :: "channel_setup \<Rightarrow> channel_setup \<Rightarrow> bool" where
  "cs_isEqualEnough a b =
     (if cs_dontSendEcho a \<noteq> cs_dontSendEcho b then False
      else if length (cs_channels a) \<noteq> length (cs_channels b) then False
      else channels_equal_enough (cs_channels a) (cs_channels b))"

lemma volume_tolerance_pos [simp]: "0 < volume_tolerance"
  by (simp add: volume_tolerance_def)

lemma sc_isEqualEnough_refl [simp]: "sc_isEqualEnough a a"
  by (simp add: sc_isEqualEnough_def)

lemma sc_isEqualEnough_sym: "sc_isEqualEnough a b \<longleftrightarrow> sc_isEqualEnough b a"
  by (auto simp: sc_isEqualEnough_def abs_minus_commute)

lemma channels_equal_enough_all2:
  "length as = length bs \<Longrightarrow> channels_equal_enough as bs \<longleftrightarrow> list_all2 sc_isEqualEnough as bs"
  by (induction as bs rule: channels_equal_enough.induct) auto

lemma cs_isEqualEnough_iff:
  "cs_isEqualEnough a b \<longleftrightarrow> cs_dontSendEcho a = cs_dontSendEcho b
     \<and> list_all2 sc_isEqualEnough (cs_channels a) (cs_channels b)"
  by (auto simp: cs_isEqualEnough_def channels_equal_enough_all2 dest: list_all2_lengthD)

lemma cs_isEqualEnough_refl [simp]: "cs_isEqualEnough a a"
  by (simp add: cs_isEqualEnough_iff list_all2_refl)

lemma cs_isEqualEnough_sym: "cs_isEqualEnough a b \<longleftrightarrow> cs_isEqualEnough b a"
  by (auto simp: cs_isEqualEnough_iff list_all2_conv_all_nth sc_isEqualEnough_sym)

section \<open>Audio blocks and audio messages\<close>

text \<open>
  The MIDI transport signal is the byte enumeration of the schema
  \<open>JammerNetzAudioData.fbs\<close> (\<open>None = 1, Start, Stop\<close>); a received block may carry any byte.
\<close>

abbreviation (input) MidiSignal_None :: u8 where "MidiSignal_None \<equiv> 1"
abbreviation (input) MidiSignal_Start :: u8 where "MidiSignal_Start \<equiv> 2"
abbreviation (input) MidiSignal_Stop :: u8 where "MidiSignal_Stop \<equiv> 3"

record audio_block =
  ab_timestamp :: real
  ab_messageCounter :: u64
  ab_serverTime :: u64
  ab_bpm :: fl
  ab_midiSignal :: u8
  ab_sampleRate :: u16
  ab_channelSetup :: channel_setup
  ab_audioBuffer :: "nat option"

text \<open>
  \<open>JammerNetzAudioData\<close>. \<open>activeBlock_\<close> always points to \<open>audioBlock_\<close>, so the read accessors
  (\<open>messageCounter()\<close>, \<open>audioBuffer()\<close>, \<dots>) read the fields of that block.
\<close>

record audio_data =
  ad_audioBlock :: audio_block
  ad_fecBlock :: "audio_block option"
  ad_protocolVersion :: u16
  ad_legacySessionSetup :: "channel_setup option"

definition messageCounter :: "audio_data \<Rightarrow> u64" where
  "messageCounter p = ab_messageCounter (ad_audioBlock p)"

definition audioBuffer :: "audio_data \<Rightarrow> nat option" where
  "audioBuffer p = ab_audioBuffer (ad_audioBlock p)"

definition ad_timestamp :: "audio_data \<Rightarrow> real" where
  "ad_timestamp p = ab_timestamp (ad_audioBlock p)"

definition ad_serverTime :: "audio_data \<Rightarrow> u64" where
  "ad_serverTime p = ab_serverTime (ad_audioBlock p)"

definition ad_bpm :: "audio_data \<Rightarrow> fl" where
  "ad_bpm p = ab_bpm (ad_audioBlock p)"

definition ad_midiSignal :: "audio_data \<Rightarrow> u8" where
  "ad_midiSignal p = ab_midiSignal (ad_audioBlock p)"

definition ad_channelSetup :: "audio_data \<Rightarrow> channel_setup" where
  "ad_channelSetup p = ab_channelSetup (ad_audioBlock p)"

definition setLegacySessionSetup :: "channel_setup \<Rightarrow> audio_data \<Rightarrow> audio_data" where
  "setLegacySessionSetup s p = p\<lparr>ad_legacySessionSetup := Some s\<rparr>"

text \<open>The constructor from the parts of a captured block, and the one from a whole block.\<close>

definition make_audio_data ::
  "u64 \<Rightarrow> real \<Rightarrow> channel_setup \<Rightarrow> int \<Rightarrow> fl option \<Rightarrow> u8 \<Rightarrow> nat option \<Rightarrow> audio_block option \<Rightarrow> audio_data" where
  "make_audio_data counter timestamp setup sampleRate bpm midi buffer fec =
     \<lparr>ad_audioBlock =
        \<lparr>ab_timestamp = timestamp, ab_messageCounter = counter, ab_serverTime = 0,
         ab_bpm = (case bpm of None \<Rightarrow> FFin 0 | Some b \<Rightarrow> b), ab_midiSignal = midi,
         ab_sampleRate = word_of_int sampleRate, ab_channelSetup = setup, ab_audioBuffer = buffer\<rparr>,
      ad_fecBlock = fec, ad_protocolVersion = JammerNetzProtocol_Current, ad_legacySessionSetup = None\<rparr>"

definition audio_data_of_block :: "audio_block \<Rightarrow> audio_block option \<Rightarrow> audio_data" where
  "audio_data_of_block blk fec =
     \<lparr>ad_audioBlock = blk, ad_fecBlock = fec, ad_protocolVersion = JammerNetzProtocol_Current,
      ad_legacySessionSetup = None\<rparr>"

text \<open>The comparator of the packet queue: the smallest message counter has the highest priority.\<close>

definition JammerNetzAudioOrder :: "audio_data \<Rightarrow> audio_data \<Rightarrow> bool" where
  "JammerNetzAudioOrder data1 data2 \<longleftrightarrow> messageCounter data2 < messageCounter data1"

section \<open>Fill-in packets\<close>

definition buffer_samples :: "heap \<Rightarrow> nat option \<Rightarrow> u64" where
  "buffer_samples h p =
     (case p of None \<Rightarrow> 0
      | Some a \<Rightarrow> (case mem h a of None \<Rightarrow> 0 | Some b \<Rightarrow> word_of_nat (buf_numSamples b)))"

text \<open>
  \<open>createFillInPackage\<close>: the FEC block when it is the packet asked for, else a repetition of this
  packet with the server time moved back by the missing frames (saturating at the largest and the
  smallest value of 64 bits) and without its MIDI signal. Copying the block copies the
  \<open>shared_ptr\<close>, so the result shares the audio buffer of the block it came from.
\<close>

definition missing_frames :: "u64 \<Rightarrow> u64 \<Rightarrow> u64" where
  "missing_frames source requested = (if requested < source then source - requested else 1)"

definition missing_samples :: "u64 \<Rightarrow> u64 \<Rightarrow> u64" where
  "missing_samples samples frames =
     (if samples \<le> (-1) div frames then samples * frames else -1)"

definition repeated_block :: "heap \<Rightarrow> audio_block \<Rightarrow> u64 \<Rightarrow> audio_block" where
  "repeated_block h blk messageNumber =
     (let missing = missing_samples (buffer_samples h (ab_audioBuffer blk))
                      (missing_frames (ab_messageCounter blk) messageNumber)
      in blk\<lparr>ab_messageCounter := messageNumber,
             ab_serverTime := (if missing \<le> ab_serverTime blk then ab_serverTime blk - missing else 0),
             ab_midiSignal := MidiSignal_None\<rparr>)"

definition fill_in_of :: "audio_data \<Rightarrow> audio_block \<Rightarrow> audio_data" where
  "fill_in_of p blk =
     \<lparr>ad_audioBlock = blk, ad_fecBlock = None, ad_protocolVersion = ad_protocolVersion p,
      ad_legacySessionSetup = ad_legacySessionSetup p\<rparr>"

definition createFillInPackage :: "heap \<Rightarrow> audio_data \<Rightarrow> u64 \<Rightarrow> audio_data \<times> bool" where
  "createFillInPackage h p messageNumber =
     (case ad_fecBlock p of
        Some fec \<Rightarrow>
          if ab_messageCounter fec = messageNumber
          then (fill_in_of p (fec\<lparr>ab_messageCounter := messageNumber\<rparr>), True)
          else (fill_in_of p (repeated_block h (ad_audioBlock p) messageNumber), False)
      | None \<Rightarrow> (fill_in_of p (repeated_block h (ad_audioBlock p) messageNumber), False))"

text \<open>
  \<open>createPrePaddingPackage\<close> copies the buffer and clears the copy; the sample rate argument is the
  constant \<open>SAMPLE_RATE\<close>. Dereferencing a null buffer is \<open>None\<close>.
\<close>

definition createPrePaddingPackage :: "heap \<Rightarrow> audio_data \<Rightarrow> (audio_data \<times> heap) option" where
  "createPrePaddingPackage h p =
     (case audioBuffer p of
        None \<Rightarrow> None
      | Some a \<Rightarrow>
          (case mem h a of
             None \<Rightarrow> None
           | Some b \<Rightarrow>
               (let (silence, h') = heap_alloc (buf_clear b) h
                in Some ((make_audio_data (messageCounter p - 1) (ad_timestamp p) (ad_channelSetup p) 48000
                           None MidiSignal_None (Some silence) None)
                         \<lparr>ad_protocolVersion := ad_protocolVersion p,
                          ad_legacySessionSetup := ad_legacySessionSetup p\<rparr>, h'))))"

section \<open>Facts about fill-in packets\<close>

lemma createFillIn_counter [simp]:
  "messageCounter (fst (createFillInPackage h p n)) = n"
  by (auto simp: createFillInPackage_def fill_in_of_def repeated_block_def messageCounter_def Let_def split: option.splits)

lemma createFillIn_hadFEC:
  "snd (createFillInPackage h p n) \<longleftrightarrow> (\<exists>fec. ad_fecBlock p = Some fec \<and> ab_messageCounter fec = n)"
  by (auto simp: createFillInPackage_def fill_in_of_def repeated_block_def Let_def split: option.splits)

lemma createFillIn_shares_buffer:
  "\<not> snd (createFillInPackage h p n) \<Longrightarrow> audioBuffer (fst (createFillInPackage h p n)) = audioBuffer p"
  by (auto simp: createFillInPackage_def fill_in_of_def repeated_block_def audioBuffer_def Let_def split: option.splits if_splits)

lemma createFillIn_no_midi:
  "\<not> snd (createFillInPackage h p n) \<Longrightarrow> ad_midiSignal (fst (createFillInPackage h p n)) = MidiSignal_None"
  by (auto simp: createFillInPackage_def fill_in_of_def repeated_block_def ad_midiSignal_def Let_def split: option.splits if_splits)

lemma createFillIn_fec_block:
  assumes "ad_fecBlock p = Some fec" and "ab_messageCounter fec = n"
  shows "ad_audioBlock (fst (createFillInPackage h p n)) = fec"
  using assms by (auto simp: createFillInPackage_def fill_in_of_def)

lemma createFillIn_protocol [simp]:
  "ad_protocolVersion (fst (createFillInPackage h p n)) = ad_protocolVersion p"
  "ad_legacySessionSetup (fst (createFillInPackage h p n)) = ad_legacySessionSetup p"
  "ad_fecBlock (fst (createFillInPackage h p n)) = None"
  by (auto simp: createFillInPackage_def fill_in_of_def split: option.splits)

lemma createFillIn_serverTime:
  "\<not> snd (createFillInPackage h p n) \<Longrightarrow>
   ad_serverTime (fst (createFillInPackage h p n)) =
     (let missing = missing_samples (buffer_samples h (audioBuffer p)) (missing_frames (messageCounter p) n)
      in if missing \<le> ad_serverTime p then ad_serverTime p - missing else 0)"
  by (auto simp: createFillInPackage_def fill_in_of_def repeated_block_def ad_serverTime_def audioBuffer_def messageCounter_def Let_def
      split: option.splits if_splits)

lemma unat_missing_frames:
  "unat (missing_frames c n) = (if n < c then unat c - unat n else 1)"
  by (auto simp: missing_frames_def unat_sub word_less_nat_alt word_le_nat_alt)

lemma missing_frames_pos: "0 < unat (missing_frames c n)"
  by (auto simp: unat_missing_frames word_less_nat_alt)

text \<open>The guard with the division is exactly the test that the product does not overflow.\<close>

lemma unat_missing_samples:
  assumes "0 < unat f"
  shows "unat (missing_samples s f) = min (unat s * unat f) (2 ^ 64 - 1)"
proof -
  have top: "unat (-1 :: u64) = 2 ^ 64 - 1"
    by (simp add: unsigned_minus_1_eq_mask mask_eq_exp_minus_1)
  have guard: "s \<le> (-1) div f \<longleftrightarrow> unat s * unat f \<le> 2 ^ 64 - 1"
    using assms by (simp add: word_le_nat_alt unat_div top less_eq_div_iff_mult_less_eq)
  show ?thesis
  proof (cases "unat s * unat f \<le> 2 ^ 64 - 1")
    case True
    then have "unat (s * f) = unat s * unat f"
      by (intro unat_mult_lem [THEN iffD1]) simp
    with True guard show ?thesis by (simp add: missing_samples_def)
  next
    case False
    with guard show ?thesis by (simp add: missing_samples_def top)
  qed
qed

lemma unat_fill_in_serverTime:
  assumes "\<not> snd (createFillInPackage h p n)"
  shows "unat (ad_serverTime (fst (createFillInPackage h p n))) =
     unat (ad_serverTime p)
       - unat (buffer_samples h (audioBuffer p)) * (if n < messageCounter p then unat (messageCounter p) - unat n else 1)"
proof -
  define m where "m = missing_samples (buffer_samples h (audioBuffer p)) (missing_frames (messageCounter p) n)"
  have m: "unat m = min (unat (buffer_samples h (audioBuffer p)) * unat (missing_frames (messageCounter p) n)) (2 ^ 64 - 1)"
    unfolding m_def by (rule unat_missing_samples) (rule missing_frames_pos)
  have "unat (ad_serverTime p) < 2 ^ 64"
    using unsigned_less [of "ad_serverTime p"] by simp
  moreover have "unat (ad_serverTime (fst (createFillInPackage h p n))) = unat (ad_serverTime p) - unat m"
    using createFillIn_serverTime [OF assms]
    by (auto simp: m_def [symmetric] Let_def unat_sub word_le_nat_alt)
  ultimately show ?thesis
    using m by (simp add: unat_missing_frames min_def split: if_splits)
qed

section \<open>Facts about padding packets\<close>

lemma createPrePadding_counter:
  "createPrePaddingPackage h p = Some (q, h') \<Longrightarrow> messageCounter q = messageCounter p - 1"
  by (auto simp: createPrePaddingPackage_def Let_def make_audio_data_def messageCounter_def heap_alloc_def
      split: option.splits)

lemma createPrePadding_Some:
  assumes "audioBuffer p = Some a" and "mem h a = Some b"
  shows "\<exists>q h'. createPrePaddingPackage h p = Some (q, h') \<and> audioBuffer q = Some (next_addr h)
    \<and> mem h' = (mem h)(next_addr h \<mapsto> buf_clear b) \<and> next_addr h' = Suc (next_addr h)"
  using assms by (auto simp: createPrePaddingPackage_def Let_def make_audio_data_def audioBuffer_def heap_alloc_def)

end
