(* ===== verification/Running_Stats.thy ===== *)
theory Running_Stats
  imports Prelude
begin

text \<open>
  The streaming statistics of \<open>common/RunningStats.cpp\<close> over exact arithmetic: one push updates the
  first four central moments in place, and two statistics combine into one. The lemmas relate the
  state to the list of values pushed: the moments are those of the textbook definition.
\<close>

section \<open>The code\<close>

record running_stats =
  rs_n :: nat
  rs_M1 :: real
  rs_M2 :: real
  rs_M3 :: real
  rs_M4 :: real

definition rs_Clear :: "running_stats \<Rightarrow> running_stats" where
  "rs_Clear s = \<lparr>rs_n = 0, rs_M1 = 0, rs_M2 = 0, rs_M3 = 0, rs_M4 = 0\<rparr>"

definition rs_new :: running_stats where
  "rs_new = \<lparr>rs_n = 0, rs_M1 = 0, rs_M2 = 0, rs_M3 = 0, rs_M4 = 0\<rparr>"

definition rs_Push :: "real \<Rightarrow> running_stats \<Rightarrow> running_stats" where
  "rs_Push x s =
     (let previousCount = real (rs_n s);
          n' = rs_n s + 1;
          count = real n';
          delta = x - rs_M1 s;
          delta_n = delta / count;
          delta_n2 = delta_n * delta_n;
          term1 = delta * delta_n * previousCount
      in \<lparr>rs_n = n',
          rs_M1 = rs_M1 s + delta_n,
          rs_M2 = rs_M2 s + term1,
          rs_M3 = rs_M3 s + (term1 * delta_n * (count - 2) - 3 * delta_n * rs_M2 s),
          rs_M4 = rs_M4 s + (term1 * delta_n2 * (count * count - 3 * count + 3)
                    + 6 * delta_n2 * rs_M2 s - 4 * delta_n * rs_M3 s)\<rparr>)"

definition rs_NumDataValues :: "running_stats \<Rightarrow> nat" where
  "rs_NumDataValues s = rs_n s"

definition rs_Mean :: "running_stats \<Rightarrow> real" where
  "rs_Mean s = rs_M1 s"

definition rs_Variance :: "running_stats \<Rightarrow> fl" where
  "rs_Variance s = fl_divide (rs_M2 s) (real (rs_n s) - 1)"

definition rs_StandardDeviation :: "running_stats \<Rightarrow> fl" where
  "rs_StandardDeviation s = fl_sqrt (rs_Variance s)"

definition rs_Skewness :: "running_stats \<Rightarrow> fl" where
  "rs_Skewness s = fl_divide (sqrt (real (rs_n s)) * rs_M3 s) (rs_M2 s powr (3/2))"

definition rs_Kurtosis :: "running_stats \<Rightarrow> fl" where
  "rs_Kurtosis s =
     (case fl_divide (real (rs_n s) * rs_M4 s) (rs_M2 s * rs_M2 s) of FFin k \<Rightarrow> FFin (k - 3) | r \<Rightarrow> r)"

text \<open>
  \<open>operator+\<close> divides by the combined count. For two empty statistics that is a division of zero by
  zero, whose moments are not numbers: \<open>None\<close>.
\<close>

definition rs_plus :: "running_stats \<Rightarrow> running_stats \<Rightarrow> running_stats option" where
  "rs_plus a b =
     (let n' = rs_n a + rs_n b;
          aCount = real (rs_n a);
          bCount = real (rs_n b);
          combinedCount = real n';
          delta = rs_M1 b - rs_M1 a;
          delta2 = delta * delta;
          delta3 = delta * delta2;
          delta4 = delta2 * delta2;
          m1 = (aCount * rs_M1 a + bCount * rs_M1 b) / combinedCount;
          m2 = rs_M2 a + rs_M2 b + delta2 * aCount * bCount / combinedCount;
          m3 = rs_M3 a + rs_M3 b
                 + delta3 * aCount * bCount * (aCount - bCount) / (combinedCount * combinedCount);
          m3' = m3 + 3 * delta * (aCount * rs_M2 b - bCount * rs_M2 a) / combinedCount;
          m4 = rs_M4 a + rs_M4 b
                 + delta4 * aCount * bCount * (aCount * aCount - aCount * bCount + bCount * bCount)
                   / (combinedCount * combinedCount * combinedCount);
          m4' = m4 + (6 * delta2 * (aCount * aCount * rs_M2 b + bCount * bCount * rs_M2 a)
                        / (combinedCount * combinedCount)
                      + 4 * delta * (aCount * rs_M3 b - bCount * rs_M3 a) / combinedCount)
      in if n' = 0 then None
         else Some \<lparr>rs_n = n', rs_M1 = m1, rs_M2 = m2, rs_M3 = m3', rs_M4 = m4'\<rparr>)"

definition rs_push_all :: "real list \<Rightarrow> running_stats \<Rightarrow> running_stats" where
  "rs_push_all xs s = fold rs_Push xs s"

section \<open>The moments of a list\<close>

definition mean_of :: "real list \<Rightarrow> real" where
  "mean_of xs = sum_list xs / real (length xs)"

definition deviations :: "nat \<Rightarrow> real list \<Rightarrow> real \<Rightarrow> real" where
  "deviations k xs a = (\<Sum>x\<leftarrow>xs. (x - a) ^ k)"

definition describes :: "running_stats \<Rightarrow> real list \<Rightarrow> bool" where
  "describes s xs \<longleftrightarrow>
     rs_n s = length xs \<and> rs_M1 s = mean_of xs
     \<and> rs_M2 s = deviations 2 xs (mean_of xs)
     \<and> rs_M3 s = deviations 3 xs (mean_of xs)
     \<and> rs_M4 s = deviations 4 xs (mean_of xs)"

lemma deviations_Nil [simp]: "deviations k [] a = 0"
  by (simp add: deviations_def)

lemma deviations_append [simp]: "deviations k (xs @ ys) a = deviations k xs a + deviations k ys a"
  by (simp add: deviations_def)

lemma deviations_single [simp]: "deviations k [x] a = (x - a) ^ k"
  by (simp add: deviations_def)

lemma deviations_Suc_0: "deviations (Suc 0) xs a = sum_list xs - real (length xs) * a"
  by (induction xs) (auto simp: deviations_def algebra_simps)

lemma deviations_mean [simp]: "deviations (Suc 0) xs (mean_of xs) = 0"
  by (cases xs) (simp_all add: deviations_Suc_0 mean_of_def)

text \<open>Moving the centre: binomial expansions, summed over the list.\<close>

lemma deviations_shift2:
  "deviations 2 xs (a + t) = deviations 2 xs a - 2 * t * deviations (Suc 0) xs a + real (length xs) * t^2"
  by (induction xs) (auto simp: deviations_def algebra_simps power2_eq_square)

lemma deviations_shift3:
  "deviations 3 xs (a + t) = deviations 3 xs a - 3 * t * deviations 2 xs a
     + 3 * t^2 * deviations (Suc 0) xs a - real (length xs) * t^3"
  by (induction xs) (auto simp: deviations_def algebra_simps power2_eq_square power3_eq_cube)

lemma deviations_shift4:
  "deviations 4 xs (a + t) = deviations 4 xs a - 4 * t * deviations 3 xs a
     + 6 * t^2 * deviations 2 xs a - 4 * t^3 * deviations (Suc 0) xs a + real (length xs) * t^4"
  by (induction xs) (auto simp: deviations_def algebra_simps power2_eq_square power3_eq_cube power4_eq_xxxx)

lemmas powers = power2_eq_square power3_eq_cube power4_eq_xxxx

lemmas deviations_shift = deviations_shift2 deviations_shift3 deviations_shift4

section \<open>One push\<close>

lemma mean_of_snoc:
  "mean_of (xs @ [x]) = mean_of xs + (x - mean_of xs) / real (length xs + 1)"
proof (cases xs)
  case (Cons y ys)
  then have "real (length xs) \<noteq> 0" by simp
  then have "mean_of xs * real (length xs) = sum_list xs" by (simp add: mean_of_def)
  then show ?thesis
    by (simp add: mean_of_def [of "xs @ [x]"] field_simps)
qed (simp add: mean_of_def)

lemma describes_new [simp]: "describes rs_new []"
  by (simp add: describes_def rs_new_def mean_of_def)

lemma describes_Clear [simp]: "describes (rs_Clear s) []"
  by (simp add: describes_def rs_Clear_def mean_of_def)

lemma describes_Push:
  assumes "describes s xs"
  shows "describes (rs_Push x s) (xs @ [x])"
proof -
  define n where "n = real (length xs)"
  define t where "t = (x - mean_of xs) / (n + 1)"
  have n1: "n + 1 \<noteq> 0" by (simp add: n_def add_nonneg_eq_0_iff)
  have d: "x - mean_of xs = (n + 1) * t" using n1 by (simp add: t_def)
  have m: "mean_of (xs @ [x]) = mean_of xs + t"
    by (simp add: mean_of_snoc t_def n_def add.commute)
  have last: "x - (mean_of xs + t) = n * t" using d by (simp add: algebra_simps)
  have dev: "deviations 2 (xs @ [x]) (mean_of xs + t) = rs_M2 s + n * (n + 1) * t^2"
    "deviations 3 (xs @ [x]) (mean_of xs + t) = rs_M3 s - 3 * t * rs_M2 s + n * (n^2 - 1) * t^3"
    "deviations 4 (xs @ [x]) (mean_of xs + t)
       = rs_M4 s - 4 * t * rs_M3 s + 6 * t^2 * rs_M2 s + (n^4 + n) * t^4"
    using assms unfolding deviations_append deviations_single last deviations_shift
    by (auto simp: describes_def n_def power_mult_distrib algebra_simps power2_eq_square
        power3_eq_cube power4_eq_xxxx)
  have s: "rs_n s = length xs" "rs_M1 s = mean_of xs" "real (rs_n s) = n" "real (rs_n s + 1) = n + 1"
    using assms by (auto simp: describes_def n_def)
  have dn: "(x - rs_M1 s) / real (rs_n s + 1) = t"
    unfolding s(2,4) t_def ..
  have push: "rs_Push x s = \<lparr>rs_n = rs_n s + 1, rs_M1 = mean_of xs + t,
      rs_M2 = rs_M2 s + (n + 1) * t * t * n,
      rs_M3 = rs_M3 s + ((n + 1) * t * t * n * t * (n + 1 - 2) - 3 * t * rs_M2 s),
      rs_M4 = rs_M4 s + ((n + 1) * t * t * n * (t * t) * ((n + 1) * (n + 1) - 3 * (n + 1) + 3)
                + 6 * (t * t) * rs_M2 s - 4 * t * rs_M3 s)\<rparr>"
    unfolding rs_Push_def Let_def dn unfolding s(2,3,4) d ..
  show ?thesis
    unfolding describes_def m dev push
    by (simp add: s(1)) (simp add: algebra_simps powers)
qed

lemma describes_push_all: "describes (rs_push_all xs rs_new) xs"
proof (induction xs rule: rev_induct)
  case (snoc x xs)
  then show ?case using describes_Push by (simp add: rs_push_all_def)
qed (simp add: rs_push_all_def)

section \<open>Combining two statistics\<close>

lemma mean_of_append:
  assumes "xs @ ys \<noteq> []"
  shows "mean_of (xs @ ys) = (real (length xs) * mean_of xs + real (length ys) * mean_of ys)
                               / real (length xs + length ys)"
proof -
  have "real (length zs) * mean_of zs = sum_list zs" for zs
    by (cases zs) (simp_all add: mean_of_def)
  then show ?thesis by (simp add: mean_of_def [of "xs @ ys"])
qed

lemma describes_plus:
  assumes a: "describes a xs" and b: "describes b ys" and ne: "xs @ ys \<noteq> []"
  shows "\<exists>c. rs_plus a b = Some c \<and> describes c (xs @ ys)"
proof -
  define p where "p = real (length xs)"
  define q where "q = real (length ys)"
  define u where "u = (mean_of ys - mean_of xs) / (p + q)"
  have len: "length xs + length ys \<noteq> 0" using ne by simp
  have pq: "p + q \<noteq> 0" using len by (simp add: p_def q_def flip: of_nat_add)
  have d: "mean_of ys - mean_of xs = (p + q) * u" using pq by (simp add: u_def)
  have m: "mean_of (xs @ ys) = (p * mean_of xs + q * mean_of ys) / (p + q)"
    using mean_of_append [OF ne] by (simp add: p_def q_def)
  have mx: "mean_of (xs @ ys) = mean_of xs + q * u"
    and my: "mean_of (xs @ ys) = mean_of ys + (- p * u)"
    unfolding m using pq d by (simp_all add: field_simps)
  have dev: "deviations k (xs @ ys) (mean_of (xs @ ys))
      = deviations k xs (mean_of xs + q * u) + deviations k ys (mean_of ys + (- p * u))" for k
    using mx my by simp
  have parts: "rs_n a = length xs" "rs_M1 a = mean_of xs" "rs_M2 a = deviations 2 xs (mean_of xs)"
    "rs_M3 a = deviations 3 xs (mean_of xs)" "rs_M4 a = deviations 4 xs (mean_of xs)"
    "rs_n b = length ys" "rs_M1 b = mean_of ys" "rs_M2 b = deviations 2 ys (mean_of ys)"
    "rs_M3 b = deviations 3 ys (mean_of ys)" "rs_M4 b = deviations 4 ys (mean_of ys)"
    using a b by (auto simp: describes_def)
  have len2: "rs_n a + rs_n b \<noteq> 0" using len parts by simp
  show ?thesis
    unfolding rs_plus_def Let_def if_not_P [OF len2] describes_def dev deviations_shift deviations_mean
    using len pq
    by (auto simp: parts m d p_def [symmetric] q_def [symmetric] power_mult_distrib divide_simps)
      (simp_all add: algebra_simps powers)
qed

section \<open>Variance\<close>

lemma describes_variance:
  assumes "describes s xs" and "length xs \<noteq> 1"
  shows "rs_Variance s = FFin (deviations 2 xs (mean_of xs) / (real (length xs) - 1))"
  using assms by (auto simp: rs_Variance_def describes_def fl_divide_def)

lemma describes_variance_single:
  assumes "describes s [x]"
  shows "rs_Variance s = FNaN"
  using assms by (auto simp: rs_Variance_def describes_def fl_divide_def mean_of_def)

lemma deviations_even_nonneg: "even k \<Longrightarrow> 0 \<le> deviations k xs a"
  by (auto simp: deviations_def zero_le_even_power intro!: sum_list_nonneg)

lemma describes_StandardDeviation:
  assumes "describes s xs" and "2 \<le> length xs"
  shows "rs_StandardDeviation s = FFin (sqrt (deviations 2 xs (mean_of xs) / (real (length xs) - 1)))"
proof -
  have "0 \<le> deviations 2 xs (mean_of xs) / (real (length xs) - 1)"
    using assms(2) deviations_even_nonneg [of 2 xs "mean_of xs"] by simp
  then show ?thesis
    using describes_variance [OF assms(1)] assms(2) by (simp add: rs_StandardDeviation_def)
qed

section \<open>The properties\<close>

text \<open>
  C6: the one-pass statistics agree with the textbook definitions: after pushing any list of at least
  two values the mean is the average and the standard deviation is the square root of the sum of
  squared deviations over \<open>n - 1\<close>.
\<close>

theorem running_stats_one_pass:
  assumes "2 \<le> length xs"
  shows "rs_Mean (rs_push_all xs rs_new) = sum_list xs / real (length xs)
    \<and> rs_StandardDeviation (rs_push_all xs rs_new)
        = FFin (sqrt ((\<Sum>x\<leftarrow>xs. (x - sum_list xs / real (length xs))\<^sup>2) / (real (length xs) - 1)))"
  using describes_StandardDeviation [OF describes_push_all assms] describes_push_all [of xs]
  by (simp add: describes_def rs_Mean_def mean_of_def deviations_def)

theorem running_stats_one_pass_witness:
  "rs_Mean (rs_push_all [1, 3] rs_new) = 2
    \<and> rs_StandardDeviation (rs_push_all [1, 3] rs_new) = FFin (sqrt 2)"
  using running_stats_one_pass [of "[1, 3]"] by simp

text \<open>
  adding two statistics gives the statistics of the concatenated samples, in all four moments, so
  measurements of two streams can be merged without keeping the samples.
\<close>

lemma running_stats_merge:
  assumes "xs @ ys \<noteq> []"
  shows "\<exists>c. rs_plus (rs_push_all xs rs_new) (rs_push_all ys rs_new) = Some c
    \<and> c = rs_push_all (xs @ ys) rs_new"
proof -
  obtain c where c: "rs_plus (rs_push_all xs rs_new) (rs_push_all ys rs_new) = Some c" "describes c (xs @ ys)"
    using describes_plus [OF describes_push_all describes_push_all assms] by blast
  moreover have "c = rs_push_all (xs @ ys) rs_new"
    using c(2) describes_push_all [of "xs @ ys"] by (auto simp: describes_def intro: running_stats.equality)
  ultimately show ?thesis by blast
qed

lemma running_stats_merge_witness:
  "\<exists>c. rs_plus (rs_push_all [1] rs_new) (rs_push_all [2, 5] rs_new) = Some c
    \<and> c = rs_push_all ([1] @ [2, 5]) rs_new"
  by (rule running_stats_merge) simp

end
