(* ===== verification/Packet_Stream_Queue.thy ===== *)
theory Packet_Stream_Queue
  imports Packet Running_Stats
begin

text \<open>
  \<open>common/PacketStreamQueue.cpp\<close>: the jitter queue that puts the packets of one stream back in
  order, drops duplicates, conceals gaps with fill-in packets, and counts what it did. The
  operations are translated statement by statement; popping passes the heap of audio buffers,
  because the second fill-in packet of a gap is cleared through its buffer pointer.
\<close>

section \<open>State\<close>

record quality_data =
  qd_tooLateOrDuplicate :: u64
  qd_droppedPacketCounter :: i64
  qd_outOfOrderPacketCounter :: i64
  qd_duplicatePacketCounter :: i64
  qd_dropsHealed :: u64
  qd_packagesPushed :: u64
  qd_packagesPopped :: u64
  qd_maxLengthOfGap :: u64
  qd_maxWrongOrderSpan :: u64
  qd_jitterMeanMillis :: real
  qd_jitterSDMillis :: fl
  qd_streamName :: string

definition new_quality_data :: quality_data where
  "new_quality_data =
     \<lparr>qd_tooLateOrDuplicate = 0, qd_droppedPacketCounter = 0, qd_outOfOrderPacketCounter = 0,
      qd_duplicatePacketCounter = 0, qd_dropsHealed = 0, qd_packagesPushed = 0, qd_packagesPopped = 0,
      qd_maxLengthOfGap = 0, qd_maxWrongOrderSpan = 0, qd_jitterMeanMillis = 0,
      qd_jitterSDMillis = FFin 0, qd_streamName = []\<rparr>"

text \<open>
  The priority queue is the list of its packets in the order \<open>top\<close> would deliver them; among equal
  counters, which the queue never holds, the standard library leaves the order open.
\<close>

record packet_stream_queue =
  psq_packetQueue :: "audio_data list"
  psq_lastPushedMessage :: u64
  psq_lastPoppedMessage :: u64
  psq_currentGap :: u64
  psq_lastPoppedMessageData :: "audio_data option"
  psq_runningMeanClockDelta :: running_stats
  psq_runningMeanJitter :: running_stats
  psq_qualityData :: quality_data
  psq_currentlyInQueue :: "u64 set"

definition psq_new :: "string \<Rightarrow> packet_stream_queue" where
  "psq_new streamName =
     \<lparr>psq_packetQueue = [], psq_lastPushedMessage = 0, psq_lastPoppedMessage = 0, psq_currentGap = 0,
      psq_lastPoppedMessageData = None, psq_runningMeanClockDelta = rs_new,
      psq_runningMeanJitter = rs_new,
      psq_qualityData = new_quality_data\<lparr>qd_streamName := streamName\<rparr>,
      psq_currentlyInQueue = {}\<rparr>"

definition pq_push :: "audio_data \<Rightarrow> audio_data list \<Rightarrow> audio_data list" where
  "pq_push p q = insort_key messageCounter p q"

definition psq_size :: "packet_stream_queue \<Rightarrow> nat" where
  "psq_size s = length (psq_packetQueue s)"

abbreviation psq_qd :: "(quality_data \<Rightarrow> quality_data) \<Rightarrow> packet_stream_queue \<Rightarrow> packet_stream_queue" where
  "psq_qd f s \<equiv> s\<lparr>psq_qualityData := f (psq_qualityData s)\<rparr>"

section \<open>push\<close>

definition hasBeenPushedBefore :: "audio_data \<Rightarrow> packet_stream_queue \<Rightarrow> bool \<times> packet_stream_queue" where
  "hasBeenPushedBefore packet s =
     (if messageCounter packet \<le> psq_lastPoppedMessage s
      then (True, psq_qd (\<lambda>q. q\<lparr>qd_tooLateOrDuplicate := qd_tooLateOrDuplicate q + 1\<rparr>) s)
      else if messageCounter packet \<in> psq_currentlyInQueue s
      then (True, psq_qd (\<lambda>q. q\<lparr>qd_duplicatePacketCounter := qd_duplicatePacketCounter q + 1\<rparr>) s)
      else (False, s))"

text \<open>The part of \<open>push\<close> that notes a packet arriving behind a newer one.\<close>

definition note_out_of_order :: "audio_data \<Rightarrow> packet_stream_queue \<Rightarrow> packet_stream_queue" where
  "note_out_of_order packet s =
     (if messageCounter packet < psq_lastPushedMessage s
      then psq_qd (\<lambda>q. q\<lparr>qd_outOfOrderPacketCounter := qd_outOfOrderPacketCounter q + 1,
                          qd_maxWrongOrderSpan := max (qd_maxWrongOrderSpan q)
                            (psq_lastPushedMessage s - messageCounter packet)\<rparr>) s
      else s)"

text \<open>The part that measures jitter; \<open>now\<close> is the reading of the millisecond counter.\<close>

definition measure_jitter :: "real \<Rightarrow> audio_data \<Rightarrow> packet_stream_queue \<Rightarrow> packet_stream_queue" where
  "measure_jitter now packet s =
     (let clockDelta = now - ad_timestamp packet;
          s1 = (if 0 < rs_NumDataValues (psq_runningMeanClockDelta s) then
                  (let jitter = \<bar>clockDelta - rs_Mean (psq_runningMeanClockDelta s)\<bar>;
                       rj = rs_Push jitter (psq_runningMeanJitter s)
                   in psq_qd (\<lambda>q. q\<lparr>qd_jitterMeanMillis := rs_Mean rj,
                                     qd_jitterSDMillis := rs_StandardDeviation rj\<rparr>)
                        (s\<lparr>psq_runningMeanJitter := rj\<rparr>))
                else s);
          s2 = s1\<lparr>psq_runningMeanClockDelta := rs_Push clockDelta (psq_runningMeanClockDelta s1)\<rparr>
      in if 1875 * 6 < rs_NumDataValues (psq_runningMeanClockDelta s2)
         then s2\<lparr>psq_runningMeanClockDelta := rs_Clear (psq_runningMeanClockDelta s2),
                 psq_runningMeanJitter := rs_Clear (psq_runningMeanJitter s2)\<rparr>
         else s2)"

definition psq_push :: "real \<Rightarrow> audio_data \<Rightarrow> packet_stream_queue \<Rightarrow> bool \<times> packet_stream_queue" where
  "psq_push now packet s =
     (let (before, s1) = hasBeenPushedBefore packet s
      in if before then (False, s1)
         else
           (let s2 = s1\<lparr>psq_currentlyInQueue := insert (messageCounter packet) (psq_currentlyInQueue s1)\<rparr>;
                s3 = psq_qd (\<lambda>q. q\<lparr>qd_packagesPushed := qd_packagesPushed q + 1\<rparr>) s2;
                s4 = s3\<lparr>psq_packetQueue := pq_push packet (psq_packetQueue s3)\<rparr>;
                s5 = note_out_of_order packet s4;
                s6 = s5\<lparr>psq_lastPushedMessage := messageCounter packet\<rparr>
            in (True, measure_jitter now packet s6)))"

section \<open>try\_pop\<close>

text \<open>
  \<open>element->audioBuffer()->clear()\<close>. Every packet of the program carries a buffer; for a null
  pointer the code's behaviour is undefined and the model leaves the heap alone.
\<close>

definition clear_audio :: "nat option \<Rightarrow> heap \<Rightarrow> heap" where
  "clear_audio p h =
     (case p of None \<Rightarrow> h
      | Some a \<Rightarrow> (case mem h a of None \<Rightarrow> h | Some b \<Rightarrow> heap_write a (buf_clear b) h))"

definition psq_pop_in_order ::
  "audio_data \<Rightarrow> audio_data list \<Rightarrow> packet_stream_queue \<Rightarrow> packet_stream_queue" where
  "psq_pop_in_order packet rest s =
     psq_qd (\<lambda>q. q\<lparr>qd_packagesPopped := qd_packagesPopped q + 1\<rparr>)
       (s\<lparr>psq_packetQueue := rest, psq_lastPoppedMessage := messageCounter packet,
          psq_lastPoppedMessageData := Some packet,
          psq_currentlyInQueue := psq_currentlyInQueue s - {messageCounter packet},
          psq_currentGap := 0\<rparr>)"

definition psq_after_fill_in :: "audio_data \<Rightarrow> packet_stream_queue \<Rightarrow> packet_stream_queue" where
  "psq_after_fill_in element s =
     psq_qd (\<lambda>q. q\<lparr>qd_maxLengthOfGap := max (qd_maxLengthOfGap q) (psq_currentGap s + 1)\<rparr>)
       (s\<lparr>psq_lastPoppedMessage := messageCounter element, psq_currentGap := psq_currentGap s + 1\<rparr>)"

definition count_healed :: "bool \<Rightarrow> packet_stream_queue \<Rightarrow> packet_stream_queue" where
  "count_healed hadFEC s =
     (if hadFEC then psq_qd (\<lambda>q. q\<lparr>qd_dropsHealed := qd_dropsHealed q + 1\<rparr>) s
      else psq_qd (\<lambda>q. q\<lparr>qd_droppedPacketCounter := qd_droppedPacketCounter q + 1\<rparr>) s)"

text \<open>
  The result is \<open>None\<close> for an empty queue, else the element and whether it is a fill-in. The
  packet taken from the top goes back when it is not the next one, so the queue keeps it.
\<close>

definition psq_try_pop ::
  "heap \<Rightarrow> packet_stream_queue \<Rightarrow> (audio_data \<times> bool) option \<times> heap \<times> packet_stream_queue" where
  "psq_try_pop h s =
     (case psq_packetQueue s of
        [] \<Rightarrow> (None, h, s)
      | packet # rest \<Rightarrow>
          if psq_lastPoppedMessage s + 1 = messageCounter packet \<or> psq_lastPoppedMessageData s = None
          then (Some (packet, False), h, psq_pop_in_order packet rest s)
          else if psq_currentGap s < 1
          then (let (element, hadFEC) = createFillInPackage h packet (psq_lastPoppedMessage s + 1)
                in (Some (element, True), h, psq_after_fill_in element (count_healed hadFEC s)))
          else (let (element, hadFEC) = createFillInPackage h packet (messageCounter packet - 1)
                in (Some (element, True), clear_audio (audioBuffer element) h,
                    psq_after_fill_in element
                      (psq_qd (\<lambda>q. q\<lparr>qd_droppedPacketCounter := qd_droppedPacketCounter q + 1\<rparr>) s))))"

section \<open>fastForwardToSize and reset\<close>

record fast_forward_result =
  ff_discardedPackets :: nat
  ff_oldestRetainedCounter :: "u64 option"

text \<open>The discarding loop: the queue, the set of queued counters, the newest discarded counter, the count.\<close>

fun ff_discard ::
  "nat \<Rightarrow> audio_data list \<Rightarrow> u64 set \<Rightarrow> u64 option \<Rightarrow> nat \<Rightarrow> audio_data list \<times> u64 set \<times> u64 option \<times> nat" where
  "ff_discard retained [] inQueue newest n = ([], inQueue, newest, n)"
| "ff_discard retained (discarded # q) inQueue newest n =
     (if retained < length (discarded # q)
      then ff_discard retained q (inQueue - {messageCounter discarded}) (Some (messageCounter discarded)) (n + 1)
      else (discarded # q, inQueue, newest, n))"

definition psq_fastForwardToSize :: "nat \<Rightarrow> packet_stream_queue \<Rightarrow> fast_forward_result \<times> packet_stream_queue" where
  "psq_fastForwardToSize retained s =
     (let (q, inQueue, newest, n) = ff_discard retained (psq_packetQueue s) (psq_currentlyInQueue s) None 0;
          s1 = s\<lparr>psq_packetQueue := q, psq_currentlyInQueue := inQueue\<rparr>
      in if n = 0 then (\<lparr>ff_discardedPackets = 0, ff_oldestRetainedCounter = None\<rparr>, s1)
         else
           (let s2 = s1\<lparr>psq_lastPoppedMessageData := None, psq_currentGap := 0\<rparr>;
                oldest = (case q of [] \<Rightarrow> None | p # _ \<Rightarrow> Some (messageCounter p));
                s3 = s2\<lparr>psq_lastPoppedMessage :=
                       (case oldest of
                          Some c \<Rightarrow> (if c = 0 then 0 else c - 1)
                        | None \<Rightarrow> (case newest of Some c \<Rightarrow> c | None \<Rightarrow> psq_lastPoppedMessage s2))\<rparr>
            in (\<lparr>ff_discardedPackets = n, ff_oldestRetainedCounter = oldest\<rparr>,
                psq_qd (\<lambda>d. d\<lparr>qd_droppedPacketCounter := qd_droppedPacketCounter d + word_of_nat n,
                               qd_packagesPopped := qd_packagesPopped d + word_of_nat n\<rparr>) s3)))"

definition psq_reset :: "packet_stream_queue \<Rightarrow> packet_stream_queue" where
  "psq_reset s =
     s\<lparr>psq_packetQueue := [], psq_currentlyInQueue := {}, psq_lastPushedMessage := 0,
       psq_lastPoppedMessage := 0, psq_lastPoppedMessageData := None, psq_currentGap := 0,
       psq_runningMeanClockDelta := rs_Clear (psq_runningMeanClockDelta s),
       psq_runningMeanJitter := rs_Clear (psq_runningMeanJitter s),
       psq_qualityData := new_quality_data\<lparr>qd_streamName := qd_streamName (psq_qualityData s)\<rparr>\<rparr>"

text \<open>The share of dropped packets that \<open>qualityStatement\<close> prints, signed over unsigned.\<close>

definition psq_droppedPercentage :: "quality_data \<Rightarrow> real" where
  "psq_droppedPercentage q =
     (if qd_packagesPopped q = 0 then 0
      else of_int (sint (qd_droppedPacketCounter q)) / of_int (uint (qd_packagesPopped q)) * 100)"

end
