(* ===== verification/Packet_Stream_Queue_Props.thy ===== *)
theory Packet_Stream_Queue_Props
  imports Packet_Stream_Queue
begin

text \<open>
  What makes the jitter queue correct: its representation invariant and the proof that every
  operation keeps it, the order of the packets it delivers, the bounds on the concealment of a gap,
  and the contract its two owners use (locale \<open>jitter_buffer\<close>).
\<close>

section \<open>The invariant\<close>

definition counters :: "packet_stream_queue \<Rightarrow> u64 list" where
  "counters s = map messageCounter (psq_packetQueue s)"

text \<open>
  The queue is strictly sorted and mirrored by the set of queued counters; nothing at or below the
  last popped counter is queued; the bookkeeping of pushes and pops agrees with the length; the gap
  counter never exceeds two, and a pending gap has a packet behind it, the very next one when two
  fill-ins were handed out.
\<close>

definition psq_inv :: "packet_stream_queue \<Rightarrow> bool" where
  "psq_inv s \<longleftrightarrow>
     sorted_wrt (<) (counters s)
     \<and> psq_currentlyInQueue s = set (counters s)
     \<and> (\<forall>c \<in> set (counters s). psq_lastPoppedMessage s < c)
     \<and> qd_packagesPushed (psq_qualityData s)
         = qd_packagesPopped (psq_qualityData s) + word_of_nat (psq_size s)
     \<and> psq_currentGap s \<le> 2
     \<and> qd_maxLengthOfGap (psq_qualityData s) \<le> 2
     \<and> (psq_currentGap s \<noteq> 0 \<longrightarrow> psq_packetQueue s \<noteq> [] \<and> psq_lastPoppedMessageData s \<noteq> None)
     \<and> (psq_currentGap s = 2 \<longrightarrow> hd (counters s) = psq_lastPoppedMessage s + 1)"

lemma psq_new_inv [simp, inv_intros]: "psq_inv (psq_new name)"
  by (simp add: psq_inv_def psq_new_def counters_def psq_size_def new_quality_data_def)

lemma psq_reset_inv [simp, inv_intros]: "psq_inv (psq_reset s)"
  by (simp add: psq_inv_def psq_reset_def counters_def psq_size_def new_quality_data_def)

lemma psq_size_new [simp]: "psq_size (psq_new name) = 0"
  by (simp add: psq_size_def psq_new_def)

section \<open>Frames: what the helpers of push leave alone\<close>

lemma measure_jitter_frame [simp]:
  "psq_packetQueue (measure_jitter now p s) = psq_packetQueue s"
  "psq_lastPushedMessage (measure_jitter now p s) = psq_lastPushedMessage s"
  "psq_lastPoppedMessage (measure_jitter now p s) = psq_lastPoppedMessage s"
  "psq_currentGap (measure_jitter now p s) = psq_currentGap s"
  "psq_lastPoppedMessageData (measure_jitter now p s) = psq_lastPoppedMessageData s"
  "psq_currentlyInQueue (measure_jitter now p s) = psq_currentlyInQueue s"
  "qd_packagesPushed (psq_qualityData (measure_jitter now p s)) = qd_packagesPushed (psq_qualityData s)"
  "qd_packagesPopped (psq_qualityData (measure_jitter now p s)) = qd_packagesPopped (psq_qualityData s)"
  "qd_maxLengthOfGap (psq_qualityData (measure_jitter now p s)) = qd_maxLengthOfGap (psq_qualityData s)"
  "qd_droppedPacketCounter (psq_qualityData (measure_jitter now p s)) = qd_droppedPacketCounter (psq_qualityData s)"
  "qd_dropsHealed (psq_qualityData (measure_jitter now p s)) = qd_dropsHealed (psq_qualityData s)"
  by (simp_all add: measure_jitter_def Let_def)

lemma note_out_of_order_frame [simp]:
  "psq_packetQueue (note_out_of_order p s) = psq_packetQueue s"
  "psq_lastPushedMessage (note_out_of_order p s) = psq_lastPushedMessage s"
  "psq_lastPoppedMessage (note_out_of_order p s) = psq_lastPoppedMessage s"
  "psq_currentGap (note_out_of_order p s) = psq_currentGap s"
  "psq_lastPoppedMessageData (note_out_of_order p s) = psq_lastPoppedMessageData s"
  "psq_currentlyInQueue (note_out_of_order p s) = psq_currentlyInQueue s"
  "qd_packagesPushed (psq_qualityData (note_out_of_order p s)) = qd_packagesPushed (psq_qualityData s)"
  "qd_packagesPopped (psq_qualityData (note_out_of_order p s)) = qd_packagesPopped (psq_qualityData s)"
  "qd_maxLengthOfGap (psq_qualityData (note_out_of_order p s)) = qd_maxLengthOfGap (psq_qualityData s)"
  "qd_droppedPacketCounter (psq_qualityData (note_out_of_order p s)) = qd_droppedPacketCounter (psq_qualityData s)"
  "qd_dropsHealed (psq_qualityData (note_out_of_order p s)) = qd_dropsHealed (psq_qualityData s)"
  by (simp_all add: note_out_of_order_def)

section \<open>push\<close>

definition acceptable :: "audio_data \<Rightarrow> packet_stream_queue \<Rightarrow> bool" where
  "acceptable p s \<longleftrightarrow> psq_lastPoppedMessage s < messageCounter p
     \<and> messageCounter p \<notin> psq_currentlyInQueue s"

lemma psq_push_result: "fst (psq_push now p s) \<longleftrightarrow> acceptable p s"
  by (auto simp: psq_push_def hasBeenPushedBefore_def acceptable_def Let_def linorder_not_le)

lemma psq_push_rejected:
  assumes "\<not> acceptable p s"
  shows "psq_packetQueue (snd (psq_push now p s)) = psq_packetQueue s"
    and "psq_currentlyInQueue (snd (psq_push now p s)) = psq_currentlyInQueue s"
    and "psq_lastPoppedMessage (snd (psq_push now p s)) = psq_lastPoppedMessage s"
    and "psq_lastPoppedMessageData (snd (psq_push now p s)) = psq_lastPoppedMessageData s"
    and "psq_currentGap (snd (psq_push now p s)) = psq_currentGap s"
    and "qd_packagesPushed (psq_qualityData (snd (psq_push now p s))) = qd_packagesPushed (psq_qualityData s)"
    and "qd_packagesPopped (psq_qualityData (snd (psq_push now p s))) = qd_packagesPopped (psq_qualityData s)"
    and "qd_maxLengthOfGap (psq_qualityData (snd (psq_push now p s))) = qd_maxLengthOfGap (psq_qualityData s)"
  using assms by (auto simp: psq_push_def hasBeenPushedBefore_def acceptable_def Let_def)

lemma psq_push_accepted:
  assumes "acceptable p s"
  shows "psq_packetQueue (snd (psq_push now p s)) = pq_push p (psq_packetQueue s)"
    and "psq_currentlyInQueue (snd (psq_push now p s)) = insert (messageCounter p) (psq_currentlyInQueue s)"
    and "psq_lastPoppedMessage (snd (psq_push now p s)) = psq_lastPoppedMessage s"
    and "psq_lastPoppedMessageData (snd (psq_push now p s)) = psq_lastPoppedMessageData s"
    and "psq_currentGap (snd (psq_push now p s)) = psq_currentGap s"
    and "qd_packagesPushed (psq_qualityData (snd (psq_push now p s))) = qd_packagesPushed (psq_qualityData s) + 1"
    and "qd_packagesPopped (psq_qualityData (snd (psq_push now p s))) = qd_packagesPopped (psq_qualityData s)"
    and "qd_maxLengthOfGap (psq_qualityData (snd (psq_push now p s))) = qd_maxLengthOfGap (psq_qualityData s)"
  using assms by (auto simp: psq_push_def hasBeenPushedBefore_def acceptable_def Let_def linorder_not_le)

lemma psq_push_lastPopped [simp]:
  "psq_lastPoppedMessage (snd (psq_push now p s)) = psq_lastPoppedMessage s"
  by (cases "acceptable p s") (simp_all add: psq_push_rejected psq_push_accepted)

lemma counters_pq_push:
  "map messageCounter (pq_push p q) = insort (messageCounter p) (map messageCounter q)"
  by (induction q) (auto simp: pq_push_def)

lemma pq_push_length [simp]: "length (pq_push p q) = Suc (length q)"
  by (simp add: pq_push_def length_insort)

lemma psq_size_push:
  "psq_size (snd (psq_push now p s)) = (if acceptable p s then Suc (psq_size s) else psq_size s)"
  by (simp add: psq_size_def psq_push_rejected psq_push_accepted)

lemma sorted_insort_strict:
  "sorted_wrt (<) xs \<Longrightarrow> x \<notin> set xs \<Longrightarrow> sorted_wrt (<) (insort x xs)" for x :: "'a::linorder"
  by (metis distinct_insort sorted_insort strict_sorted_iff)

lemma hd_insort_above: "xs \<noteq> [] \<Longrightarrow> hd xs < x \<Longrightarrow> hd (insort x xs) = hd xs" for x :: "'a::linorder"
  by (cases xs) auto

lemma psq_push_inv [inv_intros]:
  assumes inv: "psq_inv s"
  shows "psq_inv (snd (psq_push now p s))"
proof (cases "acceptable p s")
  case False
  then show ?thesis
    using inv by (simp add: psq_inv_def counters_def psq_size_def psq_push_rejected)
next
  case True
  have new: "messageCounter p \<notin> set (counters s)" "psq_lastPoppedMessage s < messageCounter p"
    using True inv by (auto simp: acceptable_def psq_inv_def)
  have gap: "hd (counters s) < messageCounter p" if "psq_currentGap s = 2"
  proof -
    have "hd (counters s) = psq_lastPoppedMessage s + 1" "counters s \<noteq> []"
      using that inv by (auto simp: psq_inv_def counters_def)
    moreover from this have "messageCounter p \<noteq> psq_lastPoppedMessage s + 1"
      using new(1) hd_in_set by metis
    ultimately show ?thesis
      using new(2) word_gap by metis
  qed
  have c: "counters (snd (psq_push now p s)) = insort (messageCounter p) (counters s)"
    by (simp add: counters_def psq_push_accepted [OF True] counters_pq_push)
  have ne: "psq_packetQueue s \<noteq> [] \<longleftrightarrow> counters s \<noteq> []" by (simp add: counters_def)
  show ?thesis
    using inv new gap unfolding psq_inv_def c psq_push_accepted [OF True] psq_size_push
    by (auto simp: True ne sorted_insort_strict set_insort_key hd_insort_above pq_push_def insort_not_Nil
        simp flip: counters_def)
qed

section \<open>try\_pop\<close>

text \<open>The three ways a pop can go, as conditions on the state.\<close>

definition pop_in_order :: "packet_stream_queue \<Rightarrow> bool" where
  "pop_in_order s \<longleftrightarrow> psq_packetQueue s \<noteq> []
     \<and> (psq_lastPoppedMessage s + 1 = hd (counters s) \<or> psq_lastPoppedMessageData s = None)"

definition pop_conceals :: "packet_stream_queue \<Rightarrow> bool" where
  "pop_conceals s \<longleftrightarrow> psq_packetQueue s \<noteq> [] \<and> \<not> pop_in_order s"

definition popped :: "heap \<Rightarrow> packet_stream_queue \<Rightarrow> (audio_data \<times> bool) option" where
  "popped h s = fst (psq_try_pop h s)"

definition heap_after_pop :: "heap \<Rightarrow> packet_stream_queue \<Rightarrow> heap" where
  "heap_after_pop h s = fst (snd (psq_try_pop h s))"

definition after_pop :: "heap \<Rightarrow> packet_stream_queue \<Rightarrow> packet_stream_queue" where
  "after_pop h s = snd (snd (psq_try_pop h s))"

lemmas pop_parts = popped_def heap_after_pop_def after_pop_def

lemma psq_pop_empty:
  assumes "psq_packetQueue s = []"
  shows "popped h s = None" and "heap_after_pop h s = h" and "after_pop h s = s"
  using assms by (simp_all add: pop_parts psq_try_pop_def)

lemma psq_pop_in_order_step:
  assumes "pop_in_order s"
  shows "popped h s = Some (hd (psq_packetQueue s), False)"
    and "heap_after_pop h s = h"
    and "after_pop h s = psq_pop_in_order (hd (psq_packetQueue s)) (tl (psq_packetQueue s)) s"
  using assms
  by (cases "psq_packetQueue s"; simp add: pop_parts psq_try_pop_def pop_in_order_def counters_def)+

lemma pop_conceals_Cons:
  assumes "pop_conceals s"
  obtains packet rest d where "psq_packetQueue s = packet # rest" "hd (counters s) = messageCounter packet"
    "psq_lastPoppedMessage s + 1 \<noteq> messageCounter packet" "psq_lastPoppedMessageData s = Some d"
  using assms
  by (cases "psq_packetQueue s") (auto simp: pop_conceals_def pop_in_order_def counters_def)

lemma psq_try_pop_conceals:
  assumes "psq_packetQueue s = packet # rest" "psq_lastPoppedMessage s + 1 \<noteq> messageCounter packet"
    "psq_lastPoppedMessageData s = Some d"
  shows "psq_currentGap s = 0 \<Longrightarrow> psq_try_pop h s =
      (let r = createFillInPackage h packet (psq_lastPoppedMessage s + 1)
       in (Some (fst r, True), h, psq_after_fill_in (fst r) (count_healed (snd r) s)))"
    and "psq_currentGap s \<noteq> 0 \<Longrightarrow> psq_try_pop h s =
      (let r = createFillInPackage h packet (messageCounter packet - 1)
       in (Some (fst r, True), clear_audio (audioBuffer (fst r)) h,
           psq_after_fill_in (fst r)
             (psq_qd (\<lambda>q. q\<lparr>qd_droppedPacketCounter := qd_droppedPacketCounter q + 1\<rparr>) s)))"
  unfolding psq_try_pop_def assms(1) list.case Let_def split_beta
  using assms(2,3) by (simp_all add: word_less_1)

lemma psq_pop_first_fill_in:
  assumes "pop_conceals s" and "psq_currentGap s = 0"
  shows "popped h s = Some (fst (createFillInPackage h (hd (psq_packetQueue s)) (psq_lastPoppedMessage s + 1)), True)"
    and "heap_after_pop h s = h"
    and "after_pop h s =
      (let r = createFillInPackage h (hd (psq_packetQueue s)) (psq_lastPoppedMessage s + 1)
       in psq_after_fill_in (fst r) (count_healed (snd r) s))"
proof -
  from assms(1) obtain packet rest d where "psq_packetQueue s = packet # rest"
    "psq_lastPoppedMessage s + 1 \<noteq> messageCounter packet" "psq_lastPoppedMessageData s = Some d"
    by (rule pop_conceals_Cons)
  note q = this(1) and t = psq_try_pop_conceals(1) [OF this assms(2), of h]
  show "popped h s = Some (fst (createFillInPackage h (hd (psq_packetQueue s)) (psq_lastPoppedMessage s + 1)), True)"
    and "heap_after_pop h s = h"
    and "after_pop h s =
      (let r = createFillInPackage h (hd (psq_packetQueue s)) (psq_lastPoppedMessage s + 1)
       in psq_after_fill_in (fst r) (count_healed (snd r) s))"
    unfolding pop_parts t q by (simp_all add: Let_def)
qed

lemma psq_pop_second_fill_in:
  assumes "pop_conceals s" and "psq_currentGap s \<noteq> 0"
  shows "popped h s = Some (fst (createFillInPackage h (hd (psq_packetQueue s)) (hd (counters s) - 1)), True)"
    and "heap_after_pop h s =
      clear_audio (audioBuffer (fst (createFillInPackage h (hd (psq_packetQueue s)) (hd (counters s) - 1)))) h"
    and "after_pop h s =
      psq_after_fill_in (fst (createFillInPackage h (hd (psq_packetQueue s)) (hd (counters s) - 1)))
        (psq_qd (\<lambda>q. q\<lparr>qd_droppedPacketCounter := qd_droppedPacketCounter q + 1\<rparr>) s)"
proof -
  from assms(1) obtain packet rest d where "psq_packetQueue s = packet # rest"
    and hd: "hd (counters s) = messageCounter packet"
    and "psq_lastPoppedMessage s + 1 \<noteq> messageCounter packet" "psq_lastPoppedMessageData s = Some d"
    by (rule pop_conceals_Cons)
  note q = this(1) and t = psq_try_pop_conceals(2) [OF this(1,3,4) assms(2), of h]
  show "popped h s = Some (fst (createFillInPackage h (hd (psq_packetQueue s)) (hd (counters s) - 1)), True)"
    and "heap_after_pop h s =
      clear_audio (audioBuffer (fst (createFillInPackage h (hd (psq_packetQueue s)) (hd (counters s) - 1)))) h"
    and "after_pop h s =
      psq_after_fill_in (fst (createFillInPackage h (hd (psq_packetQueue s)) (hd (counters s) - 1)))
        (psq_qd (\<lambda>q. q\<lparr>qd_droppedPacketCounter := qd_droppedPacketCounter q + 1\<rparr>) s)"
    unfolding pop_parts t q hd by (simp_all add: Let_def)
qed

lemma pop_cases [case_names empty in_order first second]:
  obtains "psq_packetQueue s = []" | "pop_in_order s"
  | "pop_conceals s" "psq_currentGap s = 0" | "pop_conceals s" "psq_currentGap s \<noteq> 0"
  by (auto simp: pop_conceals_def)

lemma popped_None [simp]: "popped h s = None \<longleftrightarrow> psq_packetQueue s = []"
  by (cases s rule: pop_cases)
    (auto simp: psq_pop_empty psq_pop_in_order_step psq_pop_first_fill_in psq_pop_second_fill_in
      pop_in_order_def pop_conceals_def)

text \<open>The counter a pop delivers, and what it leaves queued.\<close>

definition next_counter :: "packet_stream_queue \<Rightarrow> u64" where
  "next_counter s =
     (if pop_in_order s then hd (counters s)
      else if psq_currentGap s = 0 then psq_lastPoppedMessage s + 1
      else hd (counters s) - 1)"

lemma popped_counter:
  "popped h s = Some (p, f) \<Longrightarrow> messageCounter p = next_counter s \<and> f = (\<not> pop_in_order s)"
  by (cases s rule: pop_cases)
    (auto simp: psq_pop_empty psq_pop_in_order_step psq_pop_first_fill_in psq_pop_second_fill_in
      pop_in_order_def pop_conceals_def next_counter_def counters_def hd_map)

lemma after_pop_last:
  "psq_packetQueue s \<noteq> [] \<Longrightarrow> psq_lastPoppedMessage (after_pop h s) = next_counter s"
  by (cases s rule: pop_cases)
    (auto simp: psq_pop_empty psq_pop_in_order_step psq_pop_first_fill_in psq_pop_second_fill_in
      psq_pop_in_order_def psq_after_fill_in_def count_healed_def
      pop_conceals_def next_counter_def counters_def hd_map Let_def)

lemma after_pop_queue:
  "psq_packetQueue (after_pop h s) = (if pop_in_order s then tl (psq_packetQueue s) else psq_packetQueue s)"
  by (cases s rule: pop_cases)
    (auto simp: psq_pop_empty psq_pop_in_order_step psq_pop_first_fill_in psq_pop_second_fill_in
      psq_pop_in_order_def psq_after_fill_in_def count_healed_def
      pop_conceals_def Let_def)

lemma after_pop_gap:
  "psq_packetQueue s \<noteq> [] \<Longrightarrow>
   psq_currentGap (after_pop h s) = (if pop_in_order s then 0 else psq_currentGap s + 1)"
  by (cases s rule: pop_cases)
    (auto simp: psq_pop_empty psq_pop_in_order_step psq_pop_first_fill_in psq_pop_second_fill_in
      psq_pop_in_order_def psq_after_fill_in_def count_healed_def
      pop_conceals_def Let_def)

lemma after_pop_data:
  "psq_packetQueue s \<noteq> [] \<Longrightarrow>
   psq_lastPoppedMessageData (after_pop h s)
     = (if pop_in_order s then Some (hd (psq_packetQueue s)) else psq_lastPoppedMessageData s)"
  by (cases s rule: pop_cases)
    (auto simp: psq_pop_empty psq_pop_in_order_step psq_pop_first_fill_in psq_pop_second_fill_in
      psq_pop_in_order_def psq_after_fill_in_def count_healed_def
      pop_conceals_def Let_def)

lemma after_pop_set:
  "psq_packetQueue s \<noteq> [] \<Longrightarrow>
   psq_currentlyInQueue (after_pop h s)
     = (if pop_in_order s then psq_currentlyInQueue s - {hd (counters s)} else psq_currentlyInQueue s)"
  by (cases s rule: pop_cases)
    (auto simp: psq_pop_empty psq_pop_in_order_step psq_pop_first_fill_in psq_pop_second_fill_in
      psq_pop_in_order_def psq_after_fill_in_def count_healed_def counters_def hd_map
      pop_conceals_def Let_def)

lemma after_pop_counts:
  "psq_packetQueue s \<noteq> [] \<Longrightarrow>
   qd_packagesPushed (psq_qualityData (after_pop h s)) = qd_packagesPushed (psq_qualityData s)
   \<and> qd_packagesPopped (psq_qualityData (after_pop h s))
     = qd_packagesPopped (psq_qualityData s) + (if pop_in_order s then 1 else 0)
   \<and> qd_maxLengthOfGap (psq_qualityData (after_pop h s))
     = (if pop_in_order s then qd_maxLengthOfGap (psq_qualityData s)
        else max (qd_maxLengthOfGap (psq_qualityData s)) (psq_currentGap s + 1))"
  by (cases s rule: pop_cases)
    (auto simp: psq_pop_empty psq_pop_in_order_step psq_pop_first_fill_in psq_pop_second_fill_in
      psq_pop_in_order_def psq_after_fill_in_def count_healed_def
      pop_conceals_def Let_def)

lemmas after_pop_simps = after_pop_last after_pop_gap after_pop_data after_pop_set after_pop_counts

subsection \<open>Under the invariant\<close>

lemma inv_head_above:
  assumes "psq_inv s" and "psq_packetQueue s \<noteq> []"
  shows "psq_lastPoppedMessage s < hd (counters s)"
proof -
  have "hd (counters s) \<in> set (counters s)" using assms(2) by (intro hd_in_set) (simp add: counters_def)
  then show ?thesis using assms(1) by (auto simp: psq_inv_def)
qed

lemma inv_gap_room:
  assumes "psq_inv s" and "pop_conceals s"
  shows "psq_lastPoppedMessage s + 1 < hd (counters s)" and "psq_currentGap s = 0 \<or> psq_currentGap s = 1"
proof -
  have ne: "psq_packetQueue s \<noteq> []" and no: "psq_lastPoppedMessage s + 1 \<noteq> hd (counters s)"
    using assms(2) by (auto simp: pop_conceals_def pop_in_order_def)
  show "psq_lastPoppedMessage s + 1 < hd (counters s)"
    using word_gap [OF inv_head_above [OF assms(1) ne] no] .
  have "psq_currentGap s \<noteq> 2" "psq_currentGap s \<le> 2"
    using assms(1) no by (auto simp: psq_inv_def)
  then show "psq_currentGap s = 0 \<or> psq_currentGap s = 1"
    by uint_arith
qed

lemma next_counter_above:
  assumes "psq_inv s" and "psq_packetQueue s \<noteq> []"
  shows "psq_lastPoppedMessage s < next_counter s"
proof (cases "pop_in_order s")
  case True
  then show ?thesis using inv_head_above [OF assms] by (simp add: next_counter_def)
next
  case False
  then have room: "psq_lastPoppedMessage s + 1 < hd (counters s)"
    using inv_gap_room assms by (simp add: pop_conceals_def)
  moreover have above: "psq_lastPoppedMessage s < hd (counters s)" by (rule inv_head_above [OF assms])
  moreover have "psq_lastPoppedMessage s < psq_lastPoppedMessage s + 1"
    by (rule word_less_succ [OF above])
  moreover from this have "psq_lastPoppedMessage s < hd (counters s) - 1"
    using word_le_pred [OF room] by (rule less_le_trans)
  ultimately show ?thesis using False by (simp add: next_counter_def)
qed

lemma next_counter_le_head:
  assumes "psq_inv s" and "psq_packetQueue s \<noteq> []"
  shows "next_counter s \<le> hd (counters s)" and "\<not> pop_in_order s \<Longrightarrow> next_counter s < hd (counters s)"
proof -
  show less: "next_counter s < hd (counters s)" if "\<not> pop_in_order s"
  proof -
    have "psq_lastPoppedMessage s + 1 < hd (counters s)"
      using inv_gap_room assms that by (simp add: pop_conceals_def)
    then show ?thesis
      using that word_pred_less [OF inv_head_above [OF assms]] by (simp add: next_counter_def)
  qed
  then show "next_counter s \<le> hd (counters s)"
    by (cases "pop_in_order s") (auto simp: next_counter_def intro: less_imp_le)
qed

lemma sorted_wrt_hd_less: "sorted_wrt (<) xs \<Longrightarrow> x \<in> set (tl xs) \<Longrightarrow> hd xs < x" for x :: "'a::linorder"
  by (cases xs) auto

lemma counters_after_pop:
  "counters (after_pop h s) = (if pop_in_order s then tl (counters s) else counters s)"
  by (simp add: counters_def after_pop_queue map_tl)

lemma psq_pop_inv [inv_intros]:
  assumes inv: "psq_inv s"
  shows "psq_inv (after_pop h s)"
proof (cases "psq_packetQueue s = []")
  case True
  with inv show ?thesis by (simp add: psq_pop_empty)
next
  case ne: False
  note eqs = after_pop_simps [OF ne] counters_after_pop after_pop_queue
  have cs: "counters s \<noteq> []" using ne by (simp add: counters_def)
  show ?thesis
  proof (cases "pop_in_order s")
    case True
    have "set (counters s) - {hd (counters s)} = set (tl (counters s))"
      using inv cs by (cases "counters s") (auto simp: psq_inv_def)
    moreover have "sorted_wrt (<) (tl (counters s))"
      using inv cs by (cases "counters s") (auto simp: psq_inv_def)
    moreover have "word_of_nat (psq_size s) = (1 :: u64) + word_of_nat (psq_size (after_pop h s))"
      using ne by (cases "psq_packetQueue s") (simp_all add: psq_size_def after_pop_queue True)
    ultimately show ?thesis
      using inv True by (auto simp: psq_inv_def eqs next_counter_def sorted_wrt_hd_less)
  next
    case False
    then have conceals: "pop_conceals s" using ne by (simp add: pop_conceals_def)
    have below: "psq_lastPoppedMessage (after_pop h s) < c" if "c \<in> set (counters s)" for c
    proof -
      have "hd (counters s) \<le> c" using inv that by (cases "counters s") (auto simp: psq_inv_def)
      moreover have "next_counter s < hd (counters s)" by (rule next_counter_le_head(2) [OF inv ne False])
      ultimately show ?thesis by (simp add: eqs)
    qed
    have "psq_size (after_pop h s) = psq_size s" by (simp add: psq_size_def after_pop_queue False)
    moreover have "psq_currentGap s + 1 \<le> 2" "psq_currentGap s + 1 = 2 \<longleftrightarrow> psq_currentGap s = 1"
      using inv_gap_room(2) [OF inv conceals] by auto
    moreover have "psq_lastPoppedMessageData s \<noteq> None"
      using False ne by (simp add: pop_in_order_def)
    ultimately show ?thesis
      using inv False ne below inv_gap_room [OF inv conceals]
      by (auto simp: psq_inv_def eqs next_counter_def)
  qed
qed

section \<open>fastForwardToSize\<close>

lemma ff_discard_split:
  "ff_discard k q c m n = (drop (length q - k) q, c - set (map messageCounter (take (length q - k) q)),
     (if k < length q then Some (messageCounter (q ! (length q - k - 1))) else m), n + (length q - k))"
proof (induction k q c m n rule: ff_discard.induct)
  case (2 k p q c m n)
  show ?case
  proof (cases "k < length (p # q)")
    case True
    then have *: "length (p # q) - k = Suc (length q - k)" by simp
    show ?thesis
    proof (cases "k < length q")
      case less: True
      then have "length q - k = Suc (length q - Suc k)" by simp
      with 2 True less * show ?thesis by (auto simp: nth_Cons')
    next
      case False
      with True have "length q = k" by simp
      with 2 True * show ?thesis by auto
    qed
  qed simp
qed simp

lemma ff_frame:
  fixes s k
  defines "s' \<equiv> snd (psq_fastForwardToSize k s)" and "n \<equiv> psq_size s - k"
  shows "ff_discardedPackets (fst (psq_fastForwardToSize k s)) = n"
    and "psq_packetQueue s' = drop n (psq_packetQueue s)"
    and "psq_currentlyInQueue s' = psq_currentlyInQueue s - set (take n (counters s))"
    and "psq_currentGap s' = (if n = 0 then psq_currentGap s else 0)"
    and "psq_lastPoppedMessageData s' = (if n = 0 then psq_lastPoppedMessageData s else None)"
    and "qd_packagesPushed (psq_qualityData s') = qd_packagesPushed (psq_qualityData s)"
    and "qd_packagesPopped (psq_qualityData s') = qd_packagesPopped (psq_qualityData s) + word_of_nat n"
    and "qd_maxLengthOfGap (psq_qualityData s') = qd_maxLengthOfGap (psq_qualityData s)"
  by (auto simp: s'_def n_def psq_fastForwardToSize_def ff_discard_split psq_size_def counters_def
      take_map Let_def)

text \<open>After a fast forward the last popped counter lies below everything still queued.\<close>

lemma ff_lastPopped:
  fixes s k
  defines "s' \<equiv> snd (psq_fastForwardToSize k s)" and "n \<equiv> psq_size s - k"
  shows "psq_lastPoppedMessage s' =
     (if n = 0 then psq_lastPoppedMessage s
      else if k = 0 then last (counters s)
      else if counters s ! n = 0 then 0 else counters s ! n - 1)"
proof (cases "n = 0")
  case True
  then show ?thesis
    by (simp add: s'_def n_def psq_fastForwardToSize_def ff_discard_split psq_size_def Let_def)
next
  case False
  then have len: "k < length (psq_packetQueue s)" by (simp add: n_def psq_size_def)
  show ?thesis
  proof (cases "k = 0")
    case True
    with len show ?thesis
      by (simp add: s'_def n_def psq_fastForwardToSize_def ff_discard_split psq_size_def counters_def
          last_conv_nth last_map Let_def)
  next
    case k: False
    have "drop n (psq_packetQueue s) = psq_packetQueue s ! n # drop (Suc n) (psq_packetQueue s)"
      using len k by (intro Cons_nth_drop_Suc [symmetric]) (auto simp: n_def psq_size_def)
    with len k show ?thesis
      by (simp add: s'_def n_def psq_fastForwardToSize_def ff_discard_split psq_size_def counters_def Let_def)
  qed
qed

lemma counters_ff: "counters (snd (psq_fastForwardToSize k s)) = drop (psq_size s - k) (counters s)"
  by (simp add: counters_def ff_frame drop_map)

lemma strict_sorted_drop_above:
  fixes x :: "'a::linorder"
  assumes "sorted_wrt (<) xs" "n < length xs" "x \<in> set (drop n xs)"
  shows "xs ! n \<le> x"
  using assms by (metis Cons_nth_drop_Suc order_le_less set_ConsD sorted_wrt.simps(2) sorted_wrt_drop)

lemma psq_fastForward_inv [inv_intros]:
  assumes inv: "psq_inv s"
  shows "psq_inv (snd (psq_fastForwardToSize k s))"
proof (cases "psq_size s \<le> k")
  case True
  then have "snd (psq_fastForwardToSize k s) = s"
    by (simp add: psq_fastForwardToSize_def ff_discard_split psq_size_def Let_def)
  with inv show ?thesis by simp
next
  case False
  define n where "n = psq_size s - k"
  have n: "n \<noteq> 0" "n \<le> length (counters s)" using False by (auto simp: n_def psq_size_def counters_def)
  have srt: "sorted_wrt (<) (counters s)" using inv by (simp add: psq_inv_def)
  have sz: "word_of_nat (psq_size s)
      = (word_of_nat n + word_of_nat (psq_size (snd (psq_fastForwardToSize k s))) :: u64)"
    using False by (simp add: ff_frame psq_size_def n_def flip: of_nat_add)
  have disj: "set (counters s) - set (take n (counters s)) = set (drop n (counters s))"
  proof -
    have "distinct (take n (counters s) @ drop n (counters s))"
      using srt by (simp add: strict_sorted_iff)
    then have "set (take n (counters s)) \<inter> set (drop n (counters s)) = {}"
      by (simp only: distinct_append)
    moreover have "set (counters s) = set (take n (counters s)) \<union> set (drop n (counters s))"
      by (metis append_take_drop_id set_append)
    ultimately show ?thesis by auto
  qed
  have above: "psq_lastPoppedMessage (snd (psq_fastForwardToSize k s)) < c"
    if c: "c \<in> set (drop n (counters s))" for c
  proof -
    have len: "n < length (counters s)" using c by (cases "n < length (counters s)") auto
    then have k: "k \<noteq> 0" by (auto simp: n_def psq_size_def counters_def)
    have pos: "psq_lastPoppedMessage s < counters s ! n"
      using inv len nth_mem by (auto simp: psq_inv_def)
    then have "counters s ! n \<noteq> 0" by (metis word_not_simps(1))
    then have "psq_lastPoppedMessage (snd (psq_fastForwardToSize k s)) = counters s ! n - 1"
      using n k by (simp add: ff_lastPopped n_def)
    also have "\<dots> < counters s ! n" by (rule word_pred_less [OF pos])
    also have "\<dots> \<le> c" by (rule strict_sorted_drop_above [OF srt len c])
    finally show ?thesis .
  qed
  have "sorted_wrt (<) (drop n (counters s))" using srt by (rule sorted_wrt_drop)
  with inv n sz disj above show ?thesis
    unfolding psq_inv_def counters_ff n_def [symmetric] ff_frame
    by (simp add: algebra_simps)
qed

end
