(* ===== verification/Jitter_Buffer.thy ===== *)
theory Jitter_Buffer
  imports Packet_Stream_Queue_Props "HOL-Library.Multiset"
begin

text \<open>
  The contract of the jitter queue as its owners use it. The locale \<open>jitter_buffer\<close> states the laws
  of push and pop with a measure of the remaining work; the interpretation discharges them for the
  model of \<open>PacketStreamQueue\<close>. The step relation \<open>psq_step\<close> describes any interleaving of the
  operations, with an arbitrary heap at each pop, because other threads allocate and write buffers
  between two operations on the queue.
\<close>

section \<open>The interface\<close>

primrec pop_times :: "('q \<Rightarrow> ('p \<times> bool) option \<times> 'q) \<Rightarrow> nat \<Rightarrow> 'q \<Rightarrow> ('p \<times> bool) list \<times> 'q" where
  "pop_times pop 0 q = ([], q)"
| "pop_times pop (Suc n) q =
     (case pop q of
        (None, q') \<Rightarrow> ([], q')
      | (Some x, q') \<Rightarrow> (let (xs, q'') = pop_times pop n q' in (x # xs, q'')))"

lemma pop_times_None: "fst (pop q) = None \<Longrightarrow> pop_times pop (Suc n) q = ([], snd (pop q))"
  by (cases "pop q") auto

lemma pop_times_Some:
  "fst (pop q) = Some x \<Longrightarrow>
   pop_times pop (Suc n) q = (x # fst (pop_times pop n (snd (pop q))), snd (pop_times pop n (snd (pop q))))"
  by (cases "pop q") (auto simp: split_beta Let_def)

locale jitter_buffer =
  fixes qinv :: "'q \<Rightarrow> bool"
    and push :: "'p \<Rightarrow> 'q \<Rightarrow> bool \<times> 'q"
    and pop :: "'q \<Rightarrow> ('p \<times> bool) option \<times> 'q"
    and key :: "'p \<Rightarrow> 'k::linorder"
    and newest :: "'q \<Rightarrow> 'k"
    and count :: "'q \<Rightarrow> nat"
    and effort :: "'q \<Rightarrow> nat"
  assumes push_inv: "qinv q \<Longrightarrow> qinv (snd (push p q))"
    and push_newest: "newest (snd (push p q)) = newest q"
    and push_late: "key p \<le> newest q \<Longrightarrow> \<not> fst (push p q)"
    and push_count: "count (snd (push p q)) = (if fst (push p q) then Suc (count q) else count q)"
    and pop_inv: "qinv q \<Longrightarrow> qinv (snd (pop q))"
    and pop_None: "fst (pop q) = None \<longleftrightarrow> count q = 0"
    and pop_None_same: "fst (pop q) = None \<Longrightarrow> snd (pop q) = q"
    and pop_key: "qinv q \<Longrightarrow> fst (pop q) = Some (p, f) \<Longrightarrow> newest q < key p"
    and pop_newest: "fst (pop q) = Some (p, f) \<Longrightarrow> newest (snd (pop q)) = key p"
    and pop_effort: "qinv q \<Longrightarrow> fst (pop q) = Some (p, f) \<Longrightarrow> effort (snd (pop q)) < effort q"
begin

lemma pop_times_inv: "qinv q \<Longrightarrow> qinv (snd (pop_times pop n q))"
proof (induction n arbitrary: q)
  case (Suc n)
  then show ?case
    by (cases "fst (pop q)") (simp_all add: pop_times_None pop_times_Some pop_inv del: pop_times.simps)
qed simp

lemma pop_times_above:
  "qinv q \<Longrightarrow> x \<in> set (fst (pop_times pop n q)) \<Longrightarrow> newest q < key (fst x)"
proof (induction n arbitrary: q)
  case (Suc n)
  show ?case
  proof (cases "fst (pop q)")
    case None
    with Suc.prems show ?thesis by (simp add: pop_times_None del: pop_times.simps)
  next
    case (Some y)
    obtain p f where y: "y = (p, f)" by (cases y)
    note some = Some [unfolded y]
    have "x = y \<or> x \<in> set (fst (pop_times pop n (snd (pop q))))"
      using Suc.prems(2) Some by (simp add: pop_times_Some del: pop_times.simps)
    then show ?thesis
    proof
      assume "x \<in> set (fst (pop_times pop n (snd (pop q))))"
      from Suc.IH [OF pop_inv [OF Suc.prems(1)] this] show ?thesis
        using pop_key [OF Suc.prems(1) some] pop_newest [OF some] by simp
    qed (use pop_key [OF Suc.prems(1) some] in \<open>simp add: y\<close>)
  qed
qed simp

lemma pop_times_sorted:
  "qinv q \<Longrightarrow> sorted_wrt (<) (map (key \<circ> fst) (fst (pop_times pop n q)))"
proof (induction n arbitrary: q)
  case (Suc n)
  show ?case
  proof (cases "fst (pop q)")
    case None
    with Suc.prems show ?thesis by (simp add: pop_times_None del: pop_times.simps)
  next
    case (Some y)
    obtain p f where y: "y = (p, f)" by (cases y)
    note inv' = pop_inv [OF Suc.prems]
    show ?thesis
      using Some Suc.IH [OF inv'] pop_times_above [OF inv'] pop_newest [OF Some [unfolded y]]
      by (auto simp: pop_times_Some y simp del: pop_times.simps)
  qed
qed simp

lemma pop_times_drains:
  "qinv q \<Longrightarrow> effort q < n \<Longrightarrow> count (snd (pop_times pop n q)) = 0"
proof (induction n arbitrary: q)
  case (Suc n)
  show ?case
  proof (cases "fst (pop q)")
    case None
    then show ?thesis using pop_None [of q] pop_None_same [of q] by (simp add: pop_times_None del: pop_times.simps)
  next
    case (Some x)
    then have "effort (snd (pop q)) < n"
      using pop_effort [of q "fst x" "snd x"] Suc.prems by simp
    then show ?thesis
      using Suc.IH [of "snd (pop q)"] pop_inv [of q] Suc.prems Some
      by (simp add: pop_times_Some del: pop_times.simps)
  qed
qed simp

lemma late_after_pop: "qinv q \<Longrightarrow> fst (pop q) = Some (p, f) \<Longrightarrow> key p' \<le> key p \<Longrightarrow> \<not> fst (push p' (snd (pop q)))"
  by (simp add: push_late pop_newest)

end

section \<open>The jitter queue provides it\<close>

definition hq_pop :: "heap \<times> packet_stream_queue \<Rightarrow> (audio_data \<times> bool) option \<times> heap \<times> packet_stream_queue" where
  "hq_pop q = (let (h, s) = q in psq_try_pop h s)"

definition hq_push :: "real \<Rightarrow> audio_data \<Rightarrow> heap \<times> packet_stream_queue \<Rightarrow> bool \<times> heap \<times> packet_stream_queue" where
  "hq_push now p q = (let (h, s) = q; (ok, s') = psq_push now p s in (ok, h, s'))"

definition psq_effort :: "packet_stream_queue \<Rightarrow> nat" where
  "psq_effort s = 3 * psq_size s - unat (psq_currentGap s)"

lemma hq_pop_simps:
  "fst (hq_pop (h, s)) = popped h s"
  "snd (hq_pop (h, s)) = (heap_after_pop h s, after_pop h s)"
  "hq_pop (h, s) = (popped h s, heap_after_pop h s, after_pop h s)"
  by (simp_all add: hq_pop_def pop_parts)

lemma hq_push_simps:
  "fst (hq_push now p (h, s)) = fst (psq_push now p s)"
  "snd (hq_push now p (h, s)) = (h, snd (psq_push now p s))"
  by (simp_all add: hq_push_def split_beta Let_def)

lemma psq_pop_effort:
  assumes inv: "psq_inv s" and ne: "psq_packetQueue s \<noteq> []"
  shows "psq_effort (after_pop h s) < psq_effort s"
proof (cases "pop_in_order s")
  case True
  have "unat (psq_currentGap s) \<le> 2"
    using inv by (simp add: psq_inv_def word_le_nat_alt)
  with True ne show ?thesis
    by (cases "psq_packetQueue s") (simp_all add: psq_effort_def psq_size_def after_pop_queue after_pop_simps)
next
  case False
  then have "psq_currentGap s = 0 \<or> psq_currentGap s = 1"
    using inv_gap_room(2) inv ne by (simp add: pop_conceals_def)
  with False ne show ?thesis
    by (cases "psq_packetQueue s") (auto simp: psq_effort_def psq_size_def after_pop_queue after_pop_simps)
qed

interpretation jb: jitter_buffer "\<lambda>q. psq_inv (snd q)" "hq_push now" hq_pop messageCounter
  "\<lambda>q. psq_lastPoppedMessage (snd q)" "\<lambda>q. psq_size (snd q)" "\<lambda>q. psq_effort (snd q)"
  for now
proof
  fix q :: "heap \<times> packet_stream_queue" and p f
  obtain h s where q: "q = (h, s)" by (cases q)
  show "psq_inv (snd q) \<Longrightarrow> psq_inv (snd (snd (hq_push now p q)))"
    by (simp add: q hq_push_simps psq_push_inv)
  show "psq_lastPoppedMessage (snd (snd (hq_push now p q))) = psq_lastPoppedMessage (snd q)"
    by (simp add: q hq_push_simps)
  show "messageCounter p \<le> psq_lastPoppedMessage (snd q) \<Longrightarrow> \<not> fst (hq_push now p q)"
    by (simp add: q hq_push_simps psq_push_result acceptable_def linorder_not_less)
  show "psq_size (snd (snd (hq_push now p q)))
      = (if fst (hq_push now p q) then Suc (psq_size (snd q)) else psq_size (snd q))"
    by (simp add: q hq_push_simps psq_push_result psq_size_push)
  show "psq_inv (snd q) \<Longrightarrow> psq_inv (snd (snd (hq_pop q)))"
    by (simp add: q hq_pop_simps psq_pop_inv)
  show "(fst (hq_pop q) = None) = (psq_size (snd q) = 0)"
    by (simp add: q hq_pop_simps psq_size_def)
  show "fst (hq_pop q) = None \<Longrightarrow> snd (hq_pop q) = q"
    by (simp add: q hq_pop_simps psq_pop_empty)
  have ne: "psq_packetQueue s \<noteq> []" if "fst (hq_pop q) = Some (p, f)"
    using that popped_None [of h s] by (auto simp: q hq_pop_simps simp del: popped_None)
  show "psq_inv (snd q) \<Longrightarrow> fst (hq_pop q) = Some (p, f) \<Longrightarrow> psq_lastPoppedMessage (snd q) < messageCounter p"
    using ne popped_counter [of h s p f] next_counter_above [of s] by (simp add: q hq_pop_simps)
  show "fst (hq_pop q) = Some (p, f) \<Longrightarrow> psq_lastPoppedMessage (snd (snd (hq_pop q))) = messageCounter p"
    using ne popped_counter [of h s p f] by (simp add: q hq_pop_simps after_pop_last)
  show "psq_inv (snd q) \<Longrightarrow> fst (hq_pop q) = Some (p, f) \<Longrightarrow>
      psq_effort (snd (snd (hq_pop q))) < psq_effort (snd q)"
    using ne psq_pop_effort [of s h] by (simp add: q hq_pop_simps)
qed

section \<open>Interleavings of the operations\<close>

datatype psq_event =
    Accepted audio_data
  | Refused audio_data
  | Delivered audio_data bool
  | Starved
  | Skipped "audio_data list"
  | Cleared "audio_data list"

inductive psq_step :: "packet_stream_queue \<Rightarrow> psq_event \<Rightarrow> packet_stream_queue \<Rightarrow> bool" where
  step_accept: "psq_push now p s = (True, s') \<Longrightarrow> psq_step s (Accepted p) s'"
| step_refuse: "psq_push now p s = (False, s') \<Longrightarrow> psq_step s (Refused p) s'"
| step_deliver: "psq_try_pop h s = (Some (p, f), h', s') \<Longrightarrow> psq_step s (Delivered p f) s'"
| step_starve: "psq_try_pop h s = (None, h', s') \<Longrightarrow> psq_step s Starved s'"
| step_skip: "psq_fastForwardToSize k s = (r, s') \<Longrightarrow>
     psq_step s (Skipped (take (ff_discardedPackets r) (psq_packetQueue s))) s'"
| step_clear: "psq_step s (Cleared (psq_packetQueue s)) (psq_reset s)"

inductive psq_steps :: "packet_stream_queue \<Rightarrow> psq_event list \<Rightarrow> packet_stream_queue \<Rightarrow> bool" where
  steps_Nil: "psq_steps s [] s"
| steps_snoc: "psq_steps s es s' \<Longrightarrow> psq_step s' e s'' \<Longrightarrow> psq_steps s (es @ [e]) s''"

lemma psq_step_inv [inv_intros]: "psq_step s e s' \<Longrightarrow> psq_inv s \<Longrightarrow> psq_inv s'"
proof (induction rule: psq_step.induct)
  case (step_accept now p s s')
  then show ?case using psq_push_inv [of s now p] by simp
next
  case (step_refuse now p s s')
  then show ?case using psq_push_inv [of s now p] by simp
next
  case (step_deliver h s p f h' s')
  then show ?case using psq_pop_inv [of s h] by (simp add: after_pop_def)
next
  case (step_starve h s h' s')
  then show ?case using psq_pop_inv [of s h] by (simp add: after_pop_def)
next
  case (step_skip k s r s')
  then show ?case using psq_fastForward_inv [of s k] by simp
qed simp

lemma psq_steps_inv: "psq_steps s es s' \<Longrightarrow> psq_inv s \<Longrightarrow> psq_inv s'"
  by (induction rule: psq_steps.induct) (auto intro: psq_step_inv)

end
