(* ===== verification/Jitter_Theorems.thy ===== *)
theory Jitter_Theorems
  imports Jitter_Buffer
begin

text \<open>
  The properties of the jitter queue over any interleaving of its operations: order, conservation
  of packets, bounded concealment, the effect of a fast forward, and the buffer that the second
  fill-in packet of a gap shares with the packet still queued.
\<close>

section \<open>What a run delivers\<close>

fun delivered :: "psq_event list \<Rightarrow> (audio_data \<times> bool) list" where
  "delivered [] = []"
| "delivered (Delivered p f # es) = (p, f) # delivered es"
| "delivered (e # es) = delivered es"

fun accepted :: "psq_event list \<Rightarrow> audio_data list" where
  "accepted [] = []"
| "accepted (Accepted p # es) = p # accepted es"
| "accepted (e # es) = accepted es"

fun thrown_away :: "psq_event list \<Rightarrow> audio_data list" where
  "thrown_away [] = []"
| "thrown_away (Skipped ps # es) = ps @ thrown_away es"
| "thrown_away (Cleared ps # es) = ps @ thrown_away es"
| "thrown_away (e # es) = thrown_away es"

fun no_reset :: "psq_event list \<Rightarrow> bool" where
  "no_reset [] = True"
| "no_reset (Cleared ps # es) = False"
| "no_reset (e # es) = no_reset es"

definition real_packets :: "(audio_data \<times> bool) list \<Rightarrow> audio_data list" where
  "real_packets xs = map fst (filter (\<lambda>x. \<not> snd x) xs)"

lemma delivered_append [simp]: "delivered (es @ fs) = delivered es @ delivered fs"
  by (induction es rule: delivered.induct) auto

lemma accepted_append [simp]: "accepted (es @ fs) = accepted es @ accepted fs"
  by (induction es rule: accepted.induct) auto

lemma thrown_away_append [simp]: "thrown_away (es @ fs) = thrown_away es @ thrown_away fs"
  by (induction es rule: thrown_away.induct) auto

lemma no_reset_append [simp]: "no_reset (es @ fs) \<longleftrightarrow> no_reset es \<and> no_reset fs"
  by (induction es rule: no_reset.induct) auto

lemma real_packets_simps [simp]:
  "real_packets [] = []" "real_packets ((p, True) # xs) = real_packets xs"
  "real_packets ((p, False) # xs) = p # real_packets xs" "real_packets (xs @ ys) = real_packets xs @ real_packets ys"
  by (simp_all add: real_packets_def)

section \<open>One step\<close>

lemma ff_lastPopped_mono:
  assumes inv: "psq_inv s"
  shows "psq_lastPoppedMessage s \<le> psq_lastPoppedMessage (snd (psq_fastForwardToSize k s))"
proof (cases "psq_size s - k = 0")
  case False
  then have ne: "counters s \<noteq> []" and n: "psq_size s - k \<le> length (counters s)"
    by (auto simp: psq_size_def counters_def)
  have above: "psq_lastPoppedMessage s < c" if "c \<in> set (counters s)" for c
    using inv that by (simp add: psq_inv_def)
  show ?thesis
  proof (cases "k = 0")
    case True
    then show ?thesis
      using False above [OF last_in_set [OF ne]] ff_lastPopped [of k s] by (simp add: less_imp_le)
  next
    case k: False
    then have "psq_size s - k < length (counters s)" using False by (simp add: psq_size_def counters_def)
    then have a: "psq_lastPoppedMessage s < counters s ! (psq_size s - k)" by (intro above) simp
    then have "counters s ! (psq_size s - k) \<noteq> 0" by (metis word_not_simps(1))
    then show ?thesis
      using False k word_le_pred [OF a] ff_lastPopped [of k s] by simp
  qed
qed (simp add: ff_lastPopped)

lemma step_last_mono:
  "psq_step s e s' \<Longrightarrow> psq_inv s \<Longrightarrow> no_reset [e] \<Longrightarrow> psq_lastPoppedMessage s \<le> psq_lastPoppedMessage s'"
proof (induction rule: psq_step.induct)
  case (step_accept now p s s')
  then show ?case using psq_push_lastPopped [of now p s] by simp
next
  case (step_refuse now p s s')
  then show ?case using psq_push_lastPopped [of now p s] by simp
next
  case (step_deliver h s p f h' s')
  then have "psq_packetQueue s \<noteq> []" by (auto simp: psq_try_pop_def)
  then show ?case
    using step_deliver after_pop_last [of s h] next_counter_above [of s]
    by (simp add: after_pop_def less_imp_le)
next
  case (step_starve h s h' s')
  then have "psq_packetQueue s = []" using popped_None [of h s] by (simp add: popped_def)
  then show ?case using step_starve psq_pop_empty [of s h] by (simp add: after_pop_def)
next
  case (step_skip k s r s')
  then show ?case using ff_lastPopped_mono [of s k] by simp
qed simp

lemma step_delivered_above:
  assumes "psq_step s (Delivered p f) s'" and inv: "psq_inv s"
  shows "psq_lastPoppedMessage s < messageCounter p" and "psq_lastPoppedMessage s' = messageCounter p"
proof -
  from assms(1) obtain h h' where t: "psq_try_pop h s = (Some (p, f), h', s')"
    by (cases rule: psq_step.cases) auto
  then have ne: "psq_packetQueue s \<noteq> []" by (auto simp: psq_try_pop_def)
  have c: "messageCounter p = next_counter s"
    using t popped_counter [of h s p f] by (simp add: popped_def)
  show "psq_lastPoppedMessage s < messageCounter p"
    using next_counter_above [OF inv ne] c by simp
  show "psq_lastPoppedMessage s' = messageCounter p"
    using t after_pop_last [OF ne, of h] c by (simp add: after_pop_def)
qed

lemma mset_pq_push: "mset (pq_push p q) = add_mset p (mset q)"
  by (simp add: pq_push_def)

lemma step_conserves:
  "psq_step s e s' \<Longrightarrow>
   mset (accepted [e]) + mset (psq_packetQueue s)
     = mset (real_packets (delivered [e])) + mset (thrown_away [e]) + mset (psq_packetQueue s')"
proof (induction rule: psq_step.induct)
  case (step_accept now p s s')
  then have "acceptable p s" using psq_push_result [of now p s] by simp
  then show ?case using step_accept psq_push_accepted(1) [of p s now] by (simp add: mset_pq_push)
next
  case (step_refuse now p s s')
  then have "\<not> acceptable p s" using psq_push_result [of now p s] by simp
  then show ?case using step_refuse psq_push_rejected(1) [of p s now] by simp
next
  case (step_deliver h s p f h' s')
  then have ne: "psq_packetQueue s \<noteq> []" by (auto simp: psq_try_pop_def)
  have q: "psq_packetQueue s' = (if pop_in_order s then tl (psq_packetQueue s) else psq_packetQueue s)"
    using step_deliver after_pop_queue [of h s] by (simp add: after_pop_def)
  have pf: "popped h s = Some (p, f)" using step_deliver by (simp add: popped_def)
  show ?case
  proof (cases "pop_in_order s")
    case True
    then show ?thesis
      using ne pf q psq_pop_in_order_step(1) [of s h] by (cases "psq_packetQueue s") auto
  next
    case False
    then have "f = True" using popped_counter [OF pf] by simp
    then show ?thesis using False q by simp
  qed
next
  case (step_starve h s h' s')
  then have "psq_packetQueue s = []" using popped_None [of h s] by (simp add: popped_def)
  then show ?case using step_starve psq_pop_empty [of s h] by (simp add: after_pop_def)
next
  case (step_skip k s r s')
  then show ?case
    using ff_frame(1,2) [of k s] by (simp flip: mset_append)
next
  case (step_clear s)
  then show ?case by (simp add: psq_reset_def)
qed

section \<open>Runs\<close>

lemma steps_order:
  "psq_steps s es s' \<Longrightarrow> psq_inv s \<Longrightarrow> no_reset es \<Longrightarrow>
   sorted_wrt (<) (map (\<lambda>x. messageCounter (fst x)) (delivered es))
   \<and> (\<forall>x \<in> set (delivered es). psq_lastPoppedMessage s < messageCounter (fst x)
                               \<and> messageCounter (fst x) \<le> psq_lastPoppedMessage s')
   \<and> psq_lastPoppedMessage s \<le> psq_lastPoppedMessage s'"
proof (induction rule: psq_steps.induct)
  case (steps_snoc s es s' e s'')
  have inv': "psq_inv s'" using steps_snoc.hyps(1) steps_snoc.prems(1) by (rule psq_steps_inv)
  have mono: "psq_lastPoppedMessage s' \<le> psq_lastPoppedMessage s''"
    using steps_snoc.hyps(2) inv' steps_snoc.prems(2) by (intro step_last_mono) auto
  have ih: "sorted_wrt (<) (map (\<lambda>x. messageCounter (fst x)) (delivered es))"
    "\<forall>x \<in> set (delivered es). psq_lastPoppedMessage s < messageCounter (fst x)
                              \<and> messageCounter (fst x) \<le> psq_lastPoppedMessage s'"
    "psq_lastPoppedMessage s \<le> psq_lastPoppedMessage s'"
    using steps_snoc by auto
  show ?case
  proof (cases "\<exists>p f. e = Delivered p f")
    case True
    then obtain p f where e: "e = Delivered p f" by blast
    note above = step_delivered_above [OF steps_snoc.hyps(2) [unfolded e] inv']
    show ?thesis
      using ih above by (force simp: e sorted_wrt_append)
  next
    case False
    then have "delivered [e] = []" by (cases e) auto
    then show ?thesis using ih mono by (auto intro: order_trans)
  qed
qed simp

lemma steps_conserve:
  "psq_steps s es s' \<Longrightarrow>
   mset (accepted es) + mset (psq_packetQueue s)
     = mset (real_packets (delivered es)) + mset (thrown_away es) + mset (psq_packetQueue s')"
proof (induction rule: psq_steps.induct)
  case (steps_snoc s es s' e s'')
  have "mset (accepted (es @ [e])) + mset (psq_packetQueue s)
      = mset (accepted [e]) + (mset (accepted es) + mset (psq_packetQueue s))"
    by simp
  also have "\<dots> = mset (real_packets (delivered es)) + mset (thrown_away es)
      + (mset (accepted [e]) + mset (psq_packetQueue s'))"
    unfolding steps_snoc.IH by simp
  also have "\<dots> = mset (real_packets (delivered (es @ [e]))) + mset (thrown_away (es @ [e]))
      + mset (psq_packetQueue s'')"
    unfolding step_conserves [OF steps_snoc.hyps(2)] by simp
  finally show ?case .
qed simp

section \<open>A gap in the stream\<close>

text \<open>A packet was delivered, nothing of a gap is concealed yet, and the next queued packet is not the successor.\<close>

definition gap_ahead :: "packet_stream_queue \<Rightarrow> audio_data \<Rightarrow> bool" where
  "gap_ahead s p \<longleftrightarrow> psq_inv s \<and> psq_packetQueue s \<noteq> [] \<and> hd (psq_packetQueue s) = p
     \<and> psq_lastPoppedMessageData s \<noteq> None \<and> psq_currentGap s = 0
     \<and> psq_lastPoppedMessage s + 1 \<noteq> messageCounter p"

lemma hd_counters: "psq_packetQueue s \<noteq> [] \<Longrightarrow> hd (counters s) = messageCounter (hd (psq_packetQueue s))"
  by (simp add: counters_def hd_map)

lemma gap_first_pop:
  assumes "gap_ahead s p"
  shows "popped h s = Some (fst (createFillInPackage h p (psq_lastPoppedMessage s + 1)), True)"
    and "heap_after_pop h s = h"
    and "psq_packetQueue (after_pop h s) = psq_packetQueue s"
    and "psq_lastPoppedMessage (after_pop h s) = psq_lastPoppedMessage s + 1"
    and "psq_currentGap (after_pop h s) = 1"
    and "psq_lastPoppedMessageData (after_pop h s) = psq_lastPoppedMessageData s"
proof -
  have ne: "psq_packetQueue s \<noteq> []" and no: "\<not> pop_in_order s"
    using assms by (auto simp: gap_ahead_def pop_in_order_def hd_counters)
  then have c: "pop_conceals s" by (simp add: pop_conceals_def)
  have g: "psq_currentGap s = 0" using assms by (simp add: gap_ahead_def)
  show "popped h s = Some (fst (createFillInPackage h p (psq_lastPoppedMessage s + 1)), True)"
    "heap_after_pop h s = h"
    using psq_pop_first_fill_in [OF c g] assms by (simp_all add: gap_ahead_def)
  show "psq_packetQueue (after_pop h s) = psq_packetQueue s"
    "psq_lastPoppedMessage (after_pop h s) = psq_lastPoppedMessage s + 1"
    "psq_currentGap (after_pop h s) = 1"
    "psq_lastPoppedMessageData (after_pop h s) = psq_lastPoppedMessageData s"
    using ne no g by (simp_all add: after_pop_queue after_pop_simps next_counter_def)
qed

lemma gap_second_pop:
  assumes "psq_packetQueue t \<noteq> []" "hd (psq_packetQueue t) = p" "psq_lastPoppedMessageData t \<noteq> None"
    "psq_currentGap t \<noteq> 0" "psq_lastPoppedMessage t + 1 \<noteq> messageCounter p"
  shows "popped h t = Some (fst (createFillInPackage h p (messageCounter p - 1)), True)"
    and "heap_after_pop h t = clear_audio (audioBuffer (fst (createFillInPackage h p (messageCounter p - 1)))) h"
    and "psq_packetQueue (after_pop h t) = psq_packetQueue t"
    and "psq_lastPoppedMessage (after_pop h t) = messageCounter p - 1"
proof -
  have no: "\<not> pop_in_order t" using assms by (auto simp: pop_in_order_def hd_counters)
  then have c: "pop_conceals t" using assms by (simp add: pop_conceals_def)
  show "popped h t = Some (fst (createFillInPackage h p (messageCounter p - 1)), True)"
    "heap_after_pop h t = clear_audio (audioBuffer (fst (createFillInPackage h p (messageCounter p - 1)))) h"
    using psq_pop_second_fill_in [OF c assms(4)] assms by (simp_all add: hd_counters)
  show "psq_packetQueue (after_pop h t) = psq_packetQueue t"
    "psq_lastPoppedMessage (after_pop h t) = messageCounter p - 1"
    using no assms by (simp_all add: after_pop_queue after_pop_simps next_counter_def hd_counters)
qed

lemma gap_real_pop:
  assumes "psq_packetQueue t \<noteq> []" "hd (psq_packetQueue t) = p" "psq_lastPoppedMessage t + 1 = messageCounter p"
  shows "popped h t = Some (p, False)" and "heap_after_pop h t = h"
proof -
  have "pop_in_order t" using assms by (simp add: pop_in_order_def hd_counters)
  then show "popped h t = Some (p, False)" "heap_after_pop h t = h"
    using psq_pop_in_order_step assms by simp_all
qed

text \<open>Two consecutive pops of a gap of one packet, three of a longer one.\<close>

lemma gap_of_one:
  assumes "gap_ahead s p" and "psq_lastPoppedMessage s + 2 = messageCounter p"
  shows "fst (pop_times hq_pop 2 (h, s))
    = [(fst (createFillInPackage h p (messageCounter p - 1)), True), (p, False)]"
proof -
  note first = gap_first_pop [OF assms(1), of h]
  have c: "psq_lastPoppedMessage s + 1 = messageCounter p - 1"
    unfolding assms(2) [symmetric] by simp
  have "popped h (after_pop h s) = Some (p, False)"
    using gap_real_pop(1) [of "after_pop h s" p h] assms first(3,4)
    by (simp add: gap_ahead_def add.assoc)
  then show ?thesis
    unfolding c [symmetric] using first(1,2) by (simp add: numeral_2_eq_2 hq_pop_simps)
qed

lemma gap_of_many:
  fixes p h
  defines "f2 \<equiv> fst (createFillInPackage h p (messageCounter p - 1))"
  assumes "gap_ahead s p" and "psq_lastPoppedMessage s + 2 \<noteq> messageCounter p"
  shows "fst (pop_times hq_pop 3 (h, s))
      = [(fst (createFillInPackage h p (psq_lastPoppedMessage s + 1)), True), (f2, True), (p, False)]"
    and "fst (snd (pop_times hq_pop 3 (h, s))) = clear_audio (audioBuffer f2) h"
proof -
  note first = gap_first_pop [OF assms(2), of h]
  have no: "psq_lastPoppedMessage (after_pop h s) + 1 \<noteq> messageCounter p"
    using assms(3) first by (simp add: add.assoc)
  have qne: "psq_packetQueue s \<noteq> []" "hd (psq_packetQueue s) = p" "psq_lastPoppedMessageData s \<noteq> None"
    using assms(2) by (auto simp: gap_ahead_def)
  have second:
    "popped h (after_pop h s) = Some (f2, True)"
    "heap_after_pop h (after_pop h s) = clear_audio (audioBuffer f2) h"
    "psq_packetQueue (after_pop h (after_pop h s)) = psq_packetQueue s"
    "psq_lastPoppedMessage (after_pop h (after_pop h s)) = messageCounter p - 1"
    using gap_second_pop [of "after_pop h s" p h] first no qne by (simp_all add: f2_def)
  have third: "popped h' (after_pop h (after_pop h s)) = Some (p, False)"
    "heap_after_pop h' (after_pop h (after_pop h s)) = h'" for h'
    using gap_real_pop [of "after_pop h (after_pop h s)" p h'] second qne by simp_all
  show "fst (pop_times hq_pop 3 (h, s))
      = [(fst (createFillInPackage h p (psq_lastPoppedMessage s + 1)), True), (f2, True), (p, False)]"
    using first second third by (simp add: numeral_3_eq_3 hq_pop_simps)
  show "fst (snd (pop_times hq_pop 3 (h, s))) = clear_audio (audioBuffer f2) h"
    using first second third by (simp add: numeral_3_eq_3 hq_pop_simps)
qed

section \<open>The properties\<close>

text \<open>A packet without audio, for the concrete runs below.\<close>

definition sample_packet :: "u64 \<Rightarrow> audio_data" where
  "sample_packet n = make_audio_data n 0 (new_channel_setup False) 48000 None MidiSignal_None None None"

lemma sample_packet_simps [simp]:
  "messageCounter (sample_packet n) = n" "ad_fecBlock (sample_packet n) = None"
  by (simp_all add: sample_packet_def make_audio_data_def messageCounter_def)

definition sample_queue :: packet_stream_queue where
  "sample_queue = snd (psq_push 0 (sample_packet 7) (psq_new []))"

lemma sample_queue_simps [simp]:
  "psq_packetQueue sample_queue = [sample_packet 7]" "psq_lastPoppedMessage sample_queue = 0"
  "psq_lastPoppedMessageData sample_queue = None" "psq_currentGap sample_queue = 0"
  by (simp_all add: sample_queue_def psq_push_def hasBeenPushedBefore_def psq_new_def pq_push_def Let_def)

lemma sample_queue_inv: "psq_inv sample_queue"
  by (simp add: sample_queue_def psq_push_inv)

lemma sample_queue_accepts: "psq_step (psq_new []) (Accepted (sample_packet 7)) sample_queue"
  by (rule step_accept [of 0])
    (simp add: sample_queue_def prod_eq_iff psq_push_result acceptable_def psq_new_def)

lemma sample_run:
  "psq_steps (psq_new []) [Accepted (sample_packet 7), Delivered (sample_packet 7) False]
     (after_pop empty_heap sample_queue)"
proof -
  have "psq_steps (psq_new []) ([] @ [Accepted (sample_packet 7)]) sample_queue"
    by (rule steps_snoc [OF steps_Nil sample_queue_accepts])
  moreover have "psq_try_pop empty_heap sample_queue
      = (Some (sample_packet 7, False), empty_heap, after_pop empty_heap sample_queue)"
    by (simp add: psq_try_pop_def after_pop_def)
  then have "psq_step sample_queue (Delivered (sample_packet 7) False) (after_pop empty_heap sample_queue)"
    by (rule step_deliver)
  ultimately have "psq_steps (psq_new [])
      (([] @ [Accepted (sample_packet 7)]) @ [Delivered (sample_packet 7) False]) (after_pop empty_heap sample_queue)"
    by (rule steps_snoc)
  then show ?thesis by simp
qed

text \<open>
  C1: every state of a jitter queue that pushes, pops, fast forwards and resets can reach from a new
  queue, in any order and with any heap, satisfies the representation invariant: the queue is strictly
  sorted and mirrored by the duplicate set, everything queued lies above the last popped counter, the
  push and pop counters differ by the queue length, and no gap is concealed by more than two fill-ins.
\<close>

theorem jitter_invariant_reachable: "psq_steps (psq_new name) es s \<Longrightarrow> psq_inv s"
  by (erule psq_steps_inv) simp

theorem jitter_invariant_reachable_witness: "psq_inv (after_pop empty_heap sample_queue)"
  by (rule jitter_invariant_reachable [OF sample_run])

text \<open>
  C2: between two resets the counters handed out, of received packets and of fill-in packets alike,
  strictly increase whatever the network does, so no packet is played twice, none after a newer one,
  and none after its place was filled in.
\<close>

theorem jitter_delivers_in_order:
  assumes "psq_steps (psq_new name) es s" and "no_reset es"
  shows "sorted_wrt (<) (map (\<lambda>x. messageCounter (fst x)) (delivered es))"
  using steps_order [OF assms(1) psq_new_inv assms(2)] by blast

theorem jitter_delivers_in_order_witness:
  "sorted_wrt (<) (map (\<lambda>x. messageCounter (fst x))
     (delivered [Accepted (sample_packet 7), Delivered (sample_packet 7) False]))"
  by (rule jitter_delivers_in_order [OF sample_run]) simp





text \<open>A queue that delivered packet 7 and holds \<open>p\<close>, for the concrete gaps below.\<close>

definition sample_gap :: "audio_data \<Rightarrow> packet_stream_queue" where
  "sample_gap p = snd (psq_push 0 p (after_pop empty_heap sample_queue))"

lemma sample_after_pop:
  "psq_inv (after_pop empty_heap sample_queue)"
  "psq_packetQueue (after_pop empty_heap sample_queue) = []"
  "psq_lastPoppedMessage (after_pop empty_heap sample_queue) = 7"
  "psq_lastPoppedMessageData (after_pop empty_heap sample_queue) = Some (sample_packet 7)"
  "psq_currentGap (after_pop empty_heap sample_queue) = 0"
  by (simp_all add: psq_pop_inv sample_queue_inv after_pop_queue after_pop_simps next_counter_def
      pop_in_order_def counters_def)

lemma sample_gap_ahead:
  assumes "8 < messageCounter p"
  shows "gap_ahead (sample_gap p) p" and "psq_lastPoppedMessage (sample_gap p) = 7"
proof -
  have "psq_currentlyInQueue (after_pop empty_heap sample_queue) = {}"
    using sample_after_pop(1,2) by (simp add: psq_inv_def counters_def)
  moreover have "7 < messageCounter p" using assms by (rule less_trans [rotated]) simp
  ultimately have acc: "acceptable p (after_pop empty_heap sample_queue)"
    by (simp add: acceptable_def sample_after_pop)
  show "gap_ahead (sample_gap p) p" and "psq_lastPoppedMessage (sample_gap p) = 7"
    using assms by (auto simp: sample_gap_def gap_ahead_def psq_push_inv psq_push_accepted [OF acc] sample_after_pop pq_push_def)
qed

text \<open>
  when exactly one packet is missing, the queue hands out exactly one fill-in with the missing
  counter and then the packet itself; when the packet carries the missing packet as its redundant
  block, the fill-in is that block, bit for bit.
\<close>

lemma jitter_one_missing_packet:
  assumes "gap_ahead s p" and "psq_lastPoppedMessage s + 2 = messageCounter p"
    and "ad_fecBlock p = Some fec" and "ab_messageCounter fec = messageCounter p - 1"
  shows "\<exists>f. fst (pop_times hq_pop 2 (h, s)) = [(f, True), (p, False)] \<and> ad_audioBlock f = fec"
  using gap_of_one [OF assms(1,2)] createFillIn_fec_block [OF assms(3,4)] by blast

definition sample_block :: "u64 \<Rightarrow> nat option \<Rightarrow> audio_block" where
  "sample_block n a = ad_audioBlock (make_audio_data n 0 (new_channel_setup False) 48000 None MidiSignal_None a None)"

lemma sample_block_counter [simp]: "messageCounter (audio_data_of_block (sample_block n a) fec) = n"
  "ab_messageCounter (sample_block n a) = n" "ad_fecBlock (audio_data_of_block blk fec) = fec"
  "audioBuffer (audio_data_of_block (sample_block n a) fec) = a"
  by (simp_all add: sample_block_def make_audio_data_def messageCounter_def audio_data_of_block_def audioBuffer_def)

lemma jitter_one_missing_packet_witness:
  "\<exists>f. fst (pop_times hq_pop 2 (empty_heap,
        sample_gap (audio_data_of_block (sample_block 9 None) (Some (sample_block 8 None)))))
      = [(f, True), (audio_data_of_block (sample_block 9 None) (Some (sample_block 8 None)), False)]
    \<and> ad_audioBlock f = sample_block 8 None"
  by (rule jitter_one_missing_packet) (simp_all add: sample_gap_ahead)

text \<open>
  when more than one packet is missing, however many, concealment is bounded: one fill-in for the
  first missing counter, one for the counter just before the packet, then the packet itself.
\<close>

lemma jitter_many_missing_packets:
  assumes "gap_ahead s p" and "psq_lastPoppedMessage s + 2 \<noteq> messageCounter p"
  shows "\<exists>f1 f2. fst (pop_times hq_pop 3 (h, s)) = [(f1, True), (f2, True), (p, False)]
    \<and> messageCounter f1 = psq_lastPoppedMessage s + 1 \<and> messageCounter f2 = messageCounter p - 1"
  using gap_of_many(1) [OF assms, of h] by auto

lemma jitter_many_missing_packets_witness:
  "\<exists>f1 f2. fst (pop_times hq_pop 3 (empty_heap, sample_gap (sample_packet 12)))
      = [(f1, True), (f2, True), (sample_packet 12, False)]
    \<and> messageCounter f1 = 8 \<and> messageCounter f2 = 11"
  using jitter_many_missing_packets [of "sample_gap (sample_packet 12)" "sample_packet 12" empty_heap]
  by (simp add: sample_gap_ahead)

text \<open>
  C4: the second fill-in of a gap is made silent through the audio buffer it shares with the packet
  that went back into the queue, unless it came from a redundant block; so the packet delivered next,
  as a received one, plays silence instead of its audio.
\<close>

theorem jitter_second_fill_in_silences_next_packet:
  assumes gap: "gap_ahead s p" and many: "psq_lastPoppedMessage s + 2 \<noteq> messageCounter p"
    and no_fec: "\<And>fec. ad_fecBlock p = Some fec \<Longrightarrow> ab_messageCounter fec \<noteq> messageCounter p - 1"
    and audio: "audioBuffer p = Some a" "mem h a = Some b"
  shows "last (fst (pop_times hq_pop 3 (h, s))) = (p, False)
    \<and> mem (fst (snd (pop_times hq_pop 3 (h, s)))) a = Some (buf_clear b)"
proof
  have "\<not> snd (createFillInPackage h p (messageCounter p - 1))"
    using no_fec by (auto simp: createFillIn_hadFEC)
  then have "audioBuffer (fst (createFillInPackage h p (messageCounter p - 1))) = Some a"
    using audio by (simp add: createFillIn_shares_buffer)
  then show "mem (fst (snd (pop_times hq_pop 3 (h, s)))) a = Some (buf_clear b)"
    using gap_of_many(2) [OF gap many] audio by (simp add: clear_audio_def)
  show "last (fst (pop_times hq_pop 3 (h, s))) = (p, False)"
    using gap_of_many(1) [OF gap many] by simp
qed

theorem jitter_second_fill_in_silences_next_packet_witness:
  "mem (fst (snd (pop_times hq_pop 3
      (snd (heap_alloc \<lparr>buf_numSamples = 2, buf_channels = [[1, 1]]\<rparr> empty_heap),
       sample_gap (audio_data_of_block (sample_block 12 (Some 0)) None))))) 0
   = Some (buf_clear \<lparr>buf_numSamples = 2, buf_channels = [[1, 1]]\<rparr>)"
  by (rule jitter_second_fill_in_silences_next_packet
      [where p = "audio_data_of_block (sample_block 12 (Some 0)) None", THEN conjunct2])
    (simp_all add: sample_gap_ahead empty_heap_def)

text \<open>
  a packet that arrives after its place was played or filled in is refused and leaves the queue
  as it was, so a late packet never plays after its fill-in.
\<close>

lemma jitter_refuses_late_packets:
  assumes "popped h s = Some (p, f)" and "messageCounter late \<le> messageCounter p"
  shows "\<not> fst (psq_push now late (after_pop h s))
    \<and> psq_packetQueue (snd (psq_push now late (after_pop h s))) = psq_packetQueue (after_pop h s)"
proof
  have "\<not> fst (hq_push now late (snd (hq_pop (h, s))))"
    by (rule jb.push_late)
      (use assms jb.pop_newest [of "(h, s)" p f] in \<open>simp add: hq_pop_simps\<close>)
  then show *: "\<not> fst (psq_push now late (after_pop h s))"
    by (simp add: hq_pop_simps hq_push_simps)
  show "psq_packetQueue (snd (psq_push now late (after_pop h s))) = psq_packetQueue (after_pop h s)"
    using * by (simp add: psq_push_result psq_push_rejected(1))
qed

lemma jitter_refuses_late_packets_witness:
  "\<not> fst (psq_push 0 (sample_packet 7) (after_pop empty_heap sample_queue))"
  by (rule jitter_refuses_late_packets [where p = "sample_packet 7" and f = False, THEN conjunct1])
    (simp_all add: popped_def psq_try_pop_def)

text \<open>
  a fast forward keeps exactly the newest packets asked for, and the next pop delivers the oldest
  of them as a received packet: the skipped interval is never concealed by fill-ins.
\<close>

lemma jitter_fast_forward_rebases:
  assumes "0 < k" and "k < psq_size s"
  defines "s' \<equiv> snd (psq_fastForwardToSize k s)"
  shows "psq_packetQueue s' = drop (psq_size s - k) (psq_packetQueue s)
    \<and> psq_size s' = k
    \<and> popped h s' = Some (psq_packetQueue s ! (psq_size s - k), False)"
proof (intro conjI)
  show q: "psq_packetQueue s' = drop (psq_size s - k) (psq_packetQueue s)"
    by (simp add: s'_def ff_frame)
  then show "psq_size s' = k" using assms(2) by (simp add: psq_size_def)
  then have ne: "psq_packetQueue s' \<noteq> []" using assms(1) by (auto simp: psq_size_def)
  have "psq_lastPoppedMessageData s' = None" using assms(2) by (simp add: s'_def ff_frame)
  with ne have "pop_in_order s'" by (simp add: pop_in_order_def)
  moreover have "hd (psq_packetQueue s') = psq_packetQueue s ! (psq_size s - k)"
    using assms(1,2) by (simp add: q hd_drop_conv_nth psq_size_def)
  ultimately show "popped h s' = Some (psq_packetQueue s ! (psq_size s - k), False)"
    by (simp add: psq_pop_in_order_step)
qed

lemma jitter_fast_forward_rebases_witness:
  "popped empty_heap (snd (psq_fastForwardToSize 1 (snd (psq_push 0 (sample_packet 9) sample_queue))))
     = Some (sample_packet 9, False)"
proof -
  let ?s = "snd (psq_push 0 (sample_packet 9) sample_queue)"
  have "acceptable (sample_packet 9) sample_queue"
    using sample_queue_inv by (simp add: acceptable_def psq_inv_def counters_def)
  then have q: "psq_packetQueue ?s = [sample_packet 7, sample_packet 9]"
    by (simp add: psq_push_accepted pq_push_def)
  show ?thesis
    using jitter_fast_forward_rebases [of 1 ?s empty_heap] by (simp add: psq_size_def q)
qed

end
