(* ===== verification/Spsc_Queue.thy ===== *)
theory Spsc_Queue
  imports Prelude
begin

text \<open>
  The queue between a real-time thread and a worker, \<open>Client/Source/BoundedSpscQueue.h\<close>: slots that
  are filled in place, with the positions kept by \<open>juce::AbstractFifo\<close>, which is a parameter. The
  queue is refined to a list of at most \<open>capacity\<close> items, the form in which its users are modelled.
\<close>

section \<open>The queue over an AbstractFifo\<close>

text \<open>The operations of \<open>juce::AbstractFifo\<close>; the regions are start and size of two blocks.\<close>

record 'f fifo_api =
  ff_make :: "nat \<Rightarrow> 'f"
  ff_prepareToWrite :: "'f \<Rightarrow> nat \<Rightarrow> nat \<times> nat \<times> nat \<times> nat"
  ff_finishedWrite :: "'f \<Rightarrow> nat \<Rightarrow> 'f"
  ff_prepareToRead :: "'f \<Rightarrow> nat \<Rightarrow> nat \<times> nat \<times> nat \<times> nat"
  ff_finishedRead :: "'f \<Rightarrow> nat \<Rightarrow> 'f"
  ff_getNumReady :: "'f \<Rightarrow> nat"
  ff_getFreeSpace :: "'f \<Rightarrow> nat"
  ff_reset :: "'f \<Rightarrow> 'f"

record ('f, 'a) spsc_queue =
  sq_fifo :: 'f
  sq_slots :: "'a list"

definition spsc_new :: "'f fifo_api \<Rightarrow> 'a \<Rightarrow> nat \<Rightarrow> ('f, 'a) spsc_queue" where
  "spsc_new A fresh capacity = \<lparr>sq_fifo = ff_make A (capacity + 1), sq_slots = replicate (capacity + 1) fresh\<rparr>"

text \<open>The writer fills a slot that still holds an old item; the reader may leave a changed one behind.\<close>

definition spsc_tryWrite :: "'f fifo_api \<Rightarrow> ('a \<Rightarrow> 'a) \<Rightarrow> ('f, 'a) spsc_queue \<Rightarrow> bool \<times> ('f, 'a) spsc_queue" where
  "spsc_tryWrite A writer q =
     (let (start1, size1, start2, size2) = ff_prepareToWrite A (sq_fifo q) 1
      in if size1 = 0 then (False, q)
         else (True, \<lparr>sq_fifo = ff_finishedWrite A (sq_fifo q) 1,
                      sq_slots = (sq_slots q)[start1 := writer (sq_slots q ! start1)]\<rparr>))"

definition spsc_tryRead :: "'f fifo_api \<Rightarrow> ('a \<Rightarrow> 'b \<times> 'a) \<Rightarrow> ('f, 'a) spsc_queue \<Rightarrow> 'b option \<times> ('f, 'a) spsc_queue" where
  "spsc_tryRead A reader q =
     (let (start1, size1, start2, size2) = ff_prepareToRead A (sq_fifo q) 1
      in if size1 = 0 then (None, q)
         else (let (x, left) = reader (sq_slots q ! start1)
               in (Some x, \<lparr>sq_fifo = ff_finishedRead A (sq_fifo q) 1, sq_slots = (sq_slots q)[start1 := left]\<rparr>)))"

definition spsc_size :: "'f fifo_api \<Rightarrow> ('f, 'a) spsc_queue \<Rightarrow> nat" where
  "spsc_size A q = ff_getNumReady A (sq_fifo q)"

definition spsc_freeSpace :: "'f fifo_api \<Rightarrow> ('f, 'a) spsc_queue \<Rightarrow> nat" where
  "spsc_freeSpace A q = ff_getFreeSpace A (sq_fifo q)"

definition spsc_reset :: "'f fifo_api \<Rightarrow> 'a \<Rightarrow> ('f, 'a) spsc_queue \<Rightarrow> ('f, 'a) spsc_queue" where
  "spsc_reset A fresh q = \<lparr>sq_fifo = ff_reset A (sq_fifo q), sq_slots = replicate (length (sq_slots q)) fresh\<rparr>"

section \<open>The bounded queue as a list\<close>

definition queue_write :: "nat \<Rightarrow> 'a \<Rightarrow> 'a list \<Rightarrow> bool \<times> 'a list" where
  "queue_write capacity x q = (if length q < capacity then (True, q @ [x]) else (False, q))"

fun queue_read :: "'a list \<Rightarrow> 'a option \<times> 'a list" where
  "queue_read [] = (None, [])"
| "queue_read (x # q) = (Some x, q)"

lemma queue_write_length [simp]: "length q \<le> capacity \<Longrightarrow> length (snd (queue_write capacity x q)) \<le> capacity"
  by (simp add: queue_write_def)

section \<open>The interface of a bounded queue\<close>

datatype 'a queue_op = Write_Op 'a | Read_Op | Reset_Op

datatype 'a queue_result = Wrote bool | Got "'a option" | Was_Reset

fun queue_perform ::
  "('a \<Rightarrow> 'q \<Rightarrow> bool \<times> 'q) \<Rightarrow> ('q \<Rightarrow> 'a option \<times> 'q) \<Rightarrow> ('q \<Rightarrow> 'q) \<Rightarrow> 'a queue_op \<Rightarrow> 'q \<Rightarrow> 'a queue_result \<times> 'q" where
  "queue_perform enq deq clear (Write_Op x) q = (let (b, q') = enq x q in (Wrote b, q'))"
| "queue_perform enq deq clear Read_Op q = (let (r, q') = deq q in (Got r, q'))"
| "queue_perform enq deq clear Reset_Op q = (Was_Reset, clear q)"

fun queue_results ::
  "('a \<Rightarrow> 'q \<Rightarrow> bool \<times> 'q) \<Rightarrow> ('q \<Rightarrow> 'a option \<times> 'q) \<Rightarrow> ('q \<Rightarrow> 'q) \<Rightarrow> 'a queue_op list \<Rightarrow> 'q \<Rightarrow> 'a queue_result list" where
  "queue_results enq deq clear [] q = []"
| "queue_results enq deq clear (p # ps) q =
     (let (r, q') = queue_perform enq deq clear p q in r # queue_results enq deq clear ps q')"

locale bounded_fifo =
  fixes inv :: "'q \<Rightarrow> bool" and view :: "'q \<Rightarrow> 'a list" and capacity :: nat
    and enq :: "'a \<Rightarrow> 'q \<Rightarrow> bool \<times> 'q" and deq :: "'q \<Rightarrow> 'a option \<times> 'q" and clear :: "'q \<Rightarrow> 'q"
  assumes bounded: "inv q \<Longrightarrow> length (view q) \<le> capacity"
    and enq_inv: "inv q \<Longrightarrow> inv (snd (enq x q))"
    and enq_result: "inv q \<Longrightarrow> fst (enq x q) = (length (view q) < capacity)"
    and enq_view: "inv q \<Longrightarrow> view (snd (enq x q)) = view q @ (if length (view q) < capacity then [x] else [])"
    and deq_inv: "inv q \<Longrightarrow> inv (snd (deq q))"
    and deq_result: "inv q \<Longrightarrow> fst (deq q) = (case view q of [] \<Rightarrow> None | x # xs \<Rightarrow> Some x)"
    and deq_view: "inv q \<Longrightarrow> view (snd (deq q)) = tl (view q)"
    and clear_inv: "inv q \<Longrightarrow> inv (clear q)"
    and clear_view: "inv q \<Longrightarrow> view (clear q) = []"
begin

lemma perform_inv: "inv q \<Longrightarrow> inv (snd (queue_perform enq deq clear p q))"
  by (cases p) (auto simp: split_beta Let_def intro: enq_inv deq_inv clear_inv)

text \<open>The operations on the view are those of the list.\<close>

lemma perform_simulates:
  assumes "inv q"
  shows "fst (queue_perform enq deq clear p q) = fst (queue_perform (queue_write capacity) queue_read (\<lambda>q. []) p (view q))"
    and "view (snd (queue_perform enq deq clear p q)) = snd (queue_perform (queue_write capacity) queue_read (\<lambda>q. []) p (view q))"
  using assms
  by (cases p; cases "view q";
      auto simp: split_beta Let_def enq_result enq_view deq_result deq_view clear_view queue_write_def)+

lemma results_simulate:
  "inv q \<Longrightarrow> queue_results enq deq clear ps q = queue_results (queue_write capacity) queue_read (\<lambda>q. []) ps (view q)"
  by (induction ps arbitrary: q) (simp_all add: split_beta Let_def perform_simulates perform_inv)

end

text \<open>The list is such a queue.\<close>

interpretation lq: bounded_fifo "\<lambda>q. length q \<le> capacity" "\<lambda>q. q" capacity "queue_write capacity" queue_read "\<lambda>q. []"
  for capacity
proof
  fix q :: "'a list"
  show "fst (queue_read q) = (case q of [] \<Rightarrow> None | x # xs \<Rightarrow> Some x)" by (cases q) simp_all
  show "snd (queue_read q) = tl q" by (cases q) simp_all
  show "length (snd (queue_read q)) \<le> capacity" if "length q \<le> capacity" using that by (cases q) simp_all
qed (auto simp: queue_write_def)

section \<open>The documented behaviour of AbstractFifo\<close>

text \<open>
  An \<open>AbstractFifo\<close> of size \<open>n\<close> counts at most \<open>n - 1\<close> items from a read position; both regions
  for one item are a single slot, and a reset empties it.
\<close>

definition fifo_at :: "'f fifo_api \<Rightarrow> nat \<Rightarrow> ('f \<Rightarrow> nat) \<Rightarrow> ('f \<Rightarrow> nat) \<Rightarrow> 'f \<Rightarrow> bool" where
  "fifo_at A n position count f \<longleftrightarrow>
     (if count f < n - 1
      then (\<exists>s. ff_prepareToWrite A f 1 = ((position f + count f) mod n, 1, s, 0))
           \<and> position (ff_finishedWrite A f 1) = position f \<and> count (ff_finishedWrite A f 1) = count f + 1
      else (\<exists>s s'. ff_prepareToWrite A f 1 = (s, 0, s', 0)))
     \<and> (if 0 < count f
        then (\<exists>s. ff_prepareToRead A f 1 = (position f, 1, s, 0))
             \<and> position (ff_finishedRead A f 1) = (position f + 1) mod n \<and> count (ff_finishedRead A f 1) = count f - 1
        else (\<exists>s s'. ff_prepareToRead A f 1 = (s, 0, s', 0)))
     \<and> ff_getNumReady A f = count f \<and> ff_getFreeSpace A f = n - 1 - count f
     \<and> count (ff_reset A f) = 0 \<and> position (ff_reset A f) < n"

definition fifo_laws :: "'f fifo_api \<Rightarrow> nat \<Rightarrow> ('f \<Rightarrow> nat) \<Rightarrow> ('f \<Rightarrow> nat) \<Rightarrow> bool" where
  "fifo_laws A n position count \<longleftrightarrow> count (ff_make A n) = 0 \<and> position (ff_make A n) < n
     \<and> (\<forall>f. position f < n \<longrightarrow> count f < n \<longrightarrow> fifo_at A n position count f)"

lemma fifo_laws_at: "fifo_laws A n position count \<Longrightarrow> position f < n \<Longrightarrow> count f < n \<Longrightarrow> fifo_at A n position count f"
  by (simp add: fifo_laws_def)

definition spsc_inv :: "nat \<Rightarrow> ('f \<Rightarrow> nat) \<Rightarrow> ('f \<Rightarrow> nat) \<Rightarrow> ('f, 'a) spsc_queue \<Rightarrow> bool" where
  "spsc_inv n position count q \<longleftrightarrow> length (sq_slots q) = n \<and> position (sq_fifo q) < n \<and> count (sq_fifo q) < n"

definition spsc_view :: "('f \<Rightarrow> nat) \<Rightarrow> ('f \<Rightarrow> nat) \<Rightarrow> ('f, 'a) spsc_queue \<Rightarrow> 'a list" where
  "spsc_view position count q =
     map (\<lambda>i. sq_slots q ! ((position (sq_fifo q) + i) mod length (sq_slots q))) [0..<count (sq_fifo q)]"

lemma mod_add_inj:
  assumes "i < n" "j < n" "(p + i) mod n = (p + j) mod (n::nat)"
  shows "i = j"
proof -
  have "False" if "a < b" "b < n" "(p + a) mod n = (p + b) mod n" for a b
  proof -
    have "n dvd (p + b) - (p + a)"
      using that(1) that(3) [symmetric] mod_eq_dvd_iff_nat [of "p + a" "p + b" n] by simp
    then show False using that by (auto dest: dvd_imp_le)
  qed
  then show ?thesis using assms by (metis nat_neq_iff)
qed

lemma fifo_write_laws:
  assumes "fifo_laws A n position count" "position f < n" "count f < n - 1"
  obtains s where "ff_prepareToWrite A f 1 = ((position f + count f) mod n, 1, s, 0)"
    "position (ff_finishedWrite A f 1) = position f" "count (ff_finishedWrite A f 1) = count f + 1"
  using fifo_laws_at [OF assms(1,2)] assms(3) less_le_trans [OF assms(3) diff_le_self]
  by (auto simp: fifo_at_def simp del: One_nat_def)

lemma fifo_full_laws:
  assumes "fifo_laws A n position count" "position f < n" "count f < n" "\<not> count f < n - 1"
  obtains s s' where "ff_prepareToWrite A f 1 = (s, 0, s', 0)"
  using fifo_laws_at [OF assms(1-3)] assms(4) by (auto simp: fifo_at_def simp del: One_nat_def)

lemma fifo_read_laws:
  assumes "fifo_laws A n position count" "position f < n" "count f < n" "0 < count f"
  obtains s where "ff_prepareToRead A f 1 = (position f, 1, s, 0)"
    "position (ff_finishedRead A f 1) = (position f + 1) mod n" "count (ff_finishedRead A f 1) = count f - 1"
  using fifo_laws_at [OF assms(1-3)] assms(4) by (auto simp: fifo_at_def simp del: One_nat_def)

lemma fifo_empty_laws:
  assumes "fifo_laws A n position count" "position f < n" "count f = 0"
  obtains s s' where "ff_prepareToRead A f 1 = (s, 0, s', 0)"
  using fifo_laws_at [OF assms(1,2)] assms(2,3) by (auto simp: fifo_at_def simp del: One_nat_def)

lemma spsc_view_length [simp]: "length (spsc_view position count q) = count (sq_fifo q)"
  by (simp add: spsc_view_def)

lemma spsc_write:
  assumes laws: "fifo_laws A n position count" and q: "spsc_inv n position count q"
  shows "spsc_inv n position count (snd (spsc_tryWrite A (\<lambda>old. x) q))"
    and "fst (spsc_tryWrite A (\<lambda>old. x) q) = (length (spsc_view position count q) < n - 1)"
    and "spsc_view position count (snd (spsc_tryWrite A (\<lambda>old. x) q)) =
      spsc_view position count q @ (if length (spsc_view position count q) < n - 1 then [x] else [])"
proof -
  let ?f = "sq_fifo q" and ?q' = "snd (spsc_tryWrite A (\<lambda>old. x) q)"
  have f: "position ?f < n" "count ?f < n" "length (sq_slots q) = n" using q by (auto simp: spsc_inv_def)
  have "spsc_inv n position count ?q' \<and> fst (spsc_tryWrite A (\<lambda>old. x) q) = (count ?f < n - 1)
    \<and> spsc_view position count ?q' = spsc_view position count q @ (if count ?f < n - 1 then [x] else [])"
  proof (cases "count ?f < n - 1")
    case False
    obtain s s' where "ff_prepareToWrite A ?f 1 = (s, 0, s', 0)" using fifo_full_laws [OF laws f(1,2) False] .
    then show ?thesis using q False by (simp add: spsc_tryWrite_def)
  next
    case True
    obtain s where w: "ff_prepareToWrite A ?f 1 = ((position ?f + count ?f) mod n, 1, s, 0)"
      "position (ff_finishedWrite A ?f 1) = position ?f" "count (ff_finishedWrite A ?f 1) = count ?f + 1"
      using fifo_write_laws [OF laws f(1) True] .
    have other: "(position ?f + i) mod n \<noteq> (position ?f + count ?f) mod n" if "i < count ?f" for i
      using mod_add_inj [of i n "count ?f" "position ?f"] that f(2) by auto
    have slot: "(position ?f + count ?f) mod n < n" using f by simp
    show ?thesis
      using True f w slot other other [symmetric] by (auto simp: spsc_tryWrite_def spsc_inv_def spsc_view_def)
  qed
  then show "spsc_inv n position count ?q'" "fst (spsc_tryWrite A (\<lambda>old. x) q) = (length (spsc_view position count q) < n - 1)"
    "spsc_view position count ?q' = spsc_view position count q
      @ (if length (spsc_view position count q) < n - 1 then [x] else [])" by simp_all
qed

lemma spsc_read:
  assumes laws: "fifo_laws A n position count" and q: "spsc_inv n position count q"
  shows "spsc_inv n position count (snd (spsc_tryRead A (\<lambda>x. (x, left x)) q))"
    and "fst (spsc_tryRead A (\<lambda>x. (x, left x)) q)
      = (case spsc_view position count q of [] \<Rightarrow> None | x # xs \<Rightarrow> Some x)"
    and "spsc_view position count (snd (spsc_tryRead A (\<lambda>x. (x, left x)) q)) = tl (spsc_view position count q)"
proof -
  let ?f = "sq_fifo q" and ?r = "spsc_tryRead A (\<lambda>x. (x, left x)) q"
  have f: "position ?f < n" "count ?f < n" "length (sq_slots q) = n" using q by (auto simp: spsc_inv_def)
  have "spsc_inv n position count (snd ?r)
    \<and> fst ?r = (case spsc_view position count q of [] \<Rightarrow> None | x # xs \<Rightarrow> Some x)
    \<and> spsc_view position count (snd ?r) = tl (spsc_view position count q)"
  proof (cases "count ?f")
    case 0
    obtain s s' where "ff_prepareToRead A ?f 1 = (s, 0, s', 0)" using fifo_empty_laws [OF laws f(1) 0] .
    then show ?thesis using q 0 by (simp add: spsc_tryRead_def spsc_view_def)
  next
    case (Suc k)
    obtain s where r: "ff_prepareToRead A ?f 1 = (position ?f, 1, s, 0)"
      "position (ff_finishedRead A ?f 1) = (position ?f + 1) mod n" "count (ff_finishedRead A ?f 1) = k"
      using fifo_read_laws [OF laws f(1,2)] Suc by (metis diff_Suc_1 zero_less_Suc)
    have other: "(position ?f + Suc i) mod n \<noteq> position ?f" if "i < k" for i
      using mod_add_inj [of "Suc i" n 0 "position ?f"] that f Suc by auto
    have upt: "[0..<Suc k] = 0 # map Suc [0..<k]" by (simp add: upt_conv_Cons map_Suc_upt del: upt_Suc)
    have view: "spsc_view position count q
        = sq_slots q ! position ?f # map (\<lambda>i. sq_slots q ! ((position ?f + Suc i) mod n)) [0..<k]"
      using f Suc by (simp add: spsc_view_def upt comp_def del: upt_Suc)
    have "spsc_view position count (snd ?r) = map (\<lambda>i. sq_slots q ! ((position ?f + Suc i) mod n)) [0..<k]"
      using f r other other [symmetric] by (auto simp: spsc_tryRead_def spsc_view_def mod_add_left_eq mod_Suc_eq nth_list_update)
    then show ?thesis using view f r Suc by (auto simp: spsc_tryRead_def spsc_inv_def)
  qed
  then show "spsc_inv n position count (snd ?r)"
    "fst ?r = (case spsc_view position count q of [] \<Rightarrow> None | x # xs \<Rightarrow> Some x)"
    "spsc_view position count (snd ?r) = tl (spsc_view position count q)" by simp_all
qed

lemma spsc_reset:
  assumes laws: "fifo_laws A n position count" and q: "spsc_inv n position count q"
  shows "spsc_inv n position count (spsc_reset A fresh q)" "spsc_view position count (spsc_reset A fresh q) = []"
proof -
  have "fifo_at A n position count (sq_fifo q)"
    using fifo_laws_at [OF laws] q by (auto simp: spsc_inv_def)
  then show "spsc_inv n position count (spsc_reset A fresh q)" "spsc_view position count (spsc_reset A fresh q) = []"
    using q by (auto simp: fifo_at_def spsc_inv_def spsc_reset_def spsc_view_def)
qed

lemma spsc_bounded_fifo:
  assumes "fifo_laws A (capacity + 1) position count"
  shows "bounded_fifo (spsc_inv (capacity + 1) position count) (spsc_view position count) capacity
    (\<lambda>x. spsc_tryWrite A (\<lambda>old. x)) (spsc_tryRead A (\<lambda>x. (x, left x))) (spsc_reset A fresh)"
proof unfold_locales
  fix q :: "('a, 'b) spsc_queue" and x :: 'b
  assume q: "spsc_inv (capacity + 1) position count q"
  show "length (spsc_view position count q) \<le> capacity" using q by (simp add: spsc_inv_def)
  show "spsc_inv (capacity + 1) position count (snd (spsc_tryWrite A (\<lambda>old. x) q))"
    "fst (spsc_tryWrite A (\<lambda>old. x) q) = (length (spsc_view position count q) < capacity)"
    "spsc_view position count (snd (spsc_tryWrite A (\<lambda>old. x) q)) = spsc_view position count q
      @ (if length (spsc_view position count q) < capacity then [x] else [])"
    using spsc_write [OF assms q, of x] by simp_all
  show "spsc_inv (capacity + 1) position count (snd (spsc_tryRead A (\<lambda>x. (x, left x)) q))"
    "fst (spsc_tryRead A (\<lambda>x. (x, left x)) q) = (case spsc_view position count q of [] \<Rightarrow> None | x # xs \<Rightarrow> Some x)"
    "spsc_view position count (snd (spsc_tryRead A (\<lambda>x. (x, left x)) q)) = tl (spsc_view position count q)"
    using spsc_read [OF assms q, of left] by blast+
  show "spsc_inv (capacity + 1) position count (spsc_reset A fresh q)"
    "spsc_view position count (spsc_reset A fresh q) = []"
    using spsc_reset [OF assms q, of fresh] by blast+
qed

lemma spsc_new_view:
  assumes "fifo_laws A (capacity + 1) position count"
  shows "spsc_inv (capacity + 1) position count (spsc_new A fresh capacity)"
    "spsc_view position count (spsc_new A fresh capacity) = []"
  using assms by (auto simp: fifo_laws_def spsc_inv_def spsc_view_def spsc_new_def)

section \<open>Properties\<close>

text \<open>For the witness: a ring of \<open>n\<close> slots that keeps the read position and the number of items.\<close>

definition ring_fifo :: "nat \<Rightarrow> (nat \<times> nat) fifo_api" where
  "ring_fifo n =
     \<lparr>ff_make = (\<lambda>m. (0, 0)),
      ff_prepareToWrite = (\<lambda>(p, c) k. ((p + c) mod n, min k (n - 1 - c), 0, 0)),
      ff_finishedWrite = (\<lambda>(p, c) k. (p, c + k)),
      ff_prepareToRead = (\<lambda>(p, c) k. (p, min k c, 0, 0)),
      ff_finishedRead = (\<lambda>(p, c) k. ((p + k) mod n, c - k)),
      ff_getNumReady = snd, ff_getFreeSpace = (\<lambda>(p, c). n - 1 - c), ff_reset = (\<lambda>f. (0, 0))\<rparr>"

lemma ring_fifo_laws: "0 < n \<Longrightarrow> fifo_laws (ring_fifo n) n fst snd"
  by (auto simp: fifo_laws_def fifo_at_def ring_fifo_def)

text \<open>
  C19: Over any \<open>AbstractFifo\<close> that behaves as documented, every sequence of writes, reads and resets of
  a queue of a given capacity returns exactly what a first-in-first-out list of at most that many items
  returns: nothing is lost, duplicated or reordered, and a write is refused exactly when the queue is full.
\<close>

theorem spsc_refines_bounded_list:
  assumes "fifo_laws A (capacity + 1) position count"
  shows "queue_results (\<lambda>x. spsc_tryWrite A (\<lambda>old. x)) (spsc_tryRead A (\<lambda>x. (x, left x))) (spsc_reset A fresh)
      operations (spsc_new A fresh capacity)
    = queue_results (queue_write capacity) queue_read (\<lambda>q. []) operations []"
  using bounded_fifo.results_simulate [OF spsc_bounded_fifo [OF assms] spsc_new_view(1) [OF assms]]
  by (simp add: spsc_new_view(2) [OF assms])

theorem spsc_refines_bounded_list_witness:
  "queue_results (\<lambda>x. spsc_tryWrite (ring_fifo 3) (\<lambda>old. x)) (spsc_tryRead (ring_fifo 3) (\<lambda>x. (x, None)))
      (spsc_reset (ring_fifo 3) None)
      [Write_Op (Some 1), Write_Op (Some 2), Write_Op (Some 3), Read_Op, Write_Op (Some 4), Read_Op, Read_Op, Read_Op]
      (spsc_new (ring_fifo 3) None 2)
    = [Wrote True, Wrote True, Wrote False, Got (Some (Some (1::nat))), Wrote True, Got (Some (Some 2)), Got (Some (Some 4)), Got None]"
proof -
  have "fifo_laws (ring_fifo 3) (2 + 1) fst snd" using ring_fifo_laws [of 3] by simp
  note refines = spsc_refines_bounded_list [OF this, where left = "\<lambda>x. None"]
  show ?thesis unfolding refines by (simp add: queue_write_def)
qed

end
