(* ===== verification/Buffers_Config.thy ===== *)
theory Buffers_Config
  imports Prelude
begin

text \<open>
  The constants of \<open>common/BuffersConfig.h\<close> with the integer arithmetic that defines them, the
  server's buffer settings, the checked conversions of \<open>common/XPlatformUtils.h\<close> between
  \<open>size_t\<close> (64 bits) and \<open>int\<close> (32 bits), and the server port option of
  \<open>Server/Source/ServerPort.h\<close>.
\<close>

section \<open>Constants\<close>

definition SAMPLE_BUFFER_SIZE :: nat where "SAMPLE_BUFFER_SIZE = 128"
definition SAMPLE_RATE :: nat where "SAMPLE_RATE = 48000"
definition SAMPLES_PER_MILLISECOND :: nat where "SAMPLES_PER_MILLISECOND = 48000 div 1000"

definition SERVER_INCOMING_JITTER_BUFFER :: nat where
  "SERVER_INCOMING_JITTER_BUFFER = 10 * SAMPLES_PER_MILLISECOND div SAMPLE_BUFFER_SIZE"

definition SERVER_INCOMING_MAXIMUM_BUFFER :: nat where
  "SERVER_INCOMING_MAXIMUM_BUFFER = 15 * SAMPLES_PER_MILLISECOND div SAMPLE_BUFFER_SIZE"

definition BUFFER_PREFILL_ON_CONNECT :: nat where
  "BUFFER_PREFILL_ON_CONNECT = SERVER_INCOMING_JITTER_BUFFER"

definition CLIENT_PLAYOUT_JITTER_BUFFER :: nat where
  "CLIENT_PLAYOUT_JITTER_BUFFER = 20 * SAMPLES_PER_MILLISECOND div SAMPLE_BUFFER_SIZE"

definition CLIENT_PLAYOUT_MAX_BUFFER :: nat where
  "CLIENT_PLAYOUT_MAX_BUFFER = 60 * SAMPLES_PER_MILLISECOND div SAMPLE_BUFFER_SIZE"

definition FEC_RINGBUFFER_SIZE :: nat where "FEC_RINGBUFFER_SIZE = 16"
definition FEC_SAMPLERATE_REDUCTION :: nat where "FEC_SAMPLERATE_REDUCTION = 2"
definition INGEST_RINGBUFFER_SIZE :: nat where "INGEST_RINGBUFFER_SIZE = 16384 * 8"
definition PLAYOUT_RINGBUFFER_SIZE :: nat where "PLAYOUT_RINGBUFFER_SIZE = INGEST_RINGBUFFER_SIZE"

lemmas buffer_constants =
  SAMPLE_BUFFER_SIZE_def SAMPLE_RATE_def SAMPLES_PER_MILLISECOND_def SERVER_INCOMING_JITTER_BUFFER_def
  SERVER_INCOMING_MAXIMUM_BUFFER_def BUFFER_PREFILL_ON_CONNECT_def CLIENT_PLAYOUT_JITTER_BUFFER_def
  CLIENT_PLAYOUT_MAX_BUFFER_def FEC_RINGBUFFER_SIZE_def FEC_SAMPLERATE_REDUCTION_def
  INGEST_RINGBUFFER_SIZE_def PLAYOUT_RINGBUFFER_SIZE_def

record server_buffer_config =
  serverIncomingJitterBuffer :: int
  serverIncomingMaximumBuffer :: int
  serverBufferPrefillOnConnect :: int

definition default_server_buffers :: server_buffer_config where
  "default_server_buffers =
     \<lparr>serverIncomingJitterBuffer = int SERVER_INCOMING_JITTER_BUFFER,
      serverIncomingMaximumBuffer = int SERVER_INCOMING_MAXIMUM_BUFFER,
      serverBufferPrefillOnConnect = int BUFFER_PREFILL_ON_CONNECT\<rparr>"

lemma default_server_buffers_values:
  "default_server_buffers =
     \<lparr>serverIncomingJitterBuffer = 3, serverIncomingMaximumBuffer = 5, serverBufferPrefillOnConnect = 3\<rparr>"
  by (simp add: default_server_buffers_def buffer_constants)

section \<open>Checked conversions\<close>

definition INT_MAX :: int where "INT_MAX = 2147483647"

definition sizet_is_safe_as_int :: "u64 \<Rightarrow> bool" where
  "sizet_is_safe_as_int n \<longleftrightarrow> n \<le> word_of_int INT_MAX"

text \<open>\<open>None\<close> is the exception \<open>std::runtime_error\<close>.\<close>

definition safe_sizet_to_int :: "u64 \<Rightarrow> int option" where
  "safe_sizet_to_int n = (if sizet_is_safe_as_int n then Some (uint n) else None)"

definition safe_int_to_sizet :: "int \<Rightarrow> u64 option" where
  "safe_int_to_sizet i = (if i < 0 then None else Some (word_of_int i))"

lemma sizet_is_safe_iff: "sizet_is_safe_as_int s \<longleftrightarrow> uint s \<le> INT_MAX"
  by (simp add: sizet_is_safe_as_int_def INT_MAX_def word_le_def)

lemma safe_conversion_roundtrip:
  "0 \<le> i \<Longrightarrow> i \<le> INT_MAX \<Longrightarrow> Option.bind (safe_int_to_sizet i) safe_sizet_to_int = Some i"
  by (simp add: safe_int_to_sizet_def safe_sizet_to_int_def sizet_is_safe_iff uint_word_of_int INT_MAX_def)

lemma safe_conversion_roundtrip2:
  "safe_sizet_to_int s = Some i \<Longrightarrow> safe_int_to_sizet i = Some s"
  by (auto simp: safe_int_to_sizet_def safe_sizet_to_int_def not_less split: if_splits)

section \<open>The server port\<close>

text \<open>
  \<open>std::from_chars\<close> in base ten: an optional minus sign, then the longest run of digits; no digit
  is an error, and so is a value outside \<open>int\<close>. The result is the value and the unread rest.
\<close>

definition is_digit :: "char \<Rightarrow> bool" where
  "is_digit c \<longleftrightarrow> 48 \<le> (of_char c :: nat) \<and> (of_char c :: nat) \<le> 57"

definition digit_value :: "char \<Rightarrow> int" where
  "digit_value c = int (of_char c) - 48"

fun read_digits :: "int \<Rightarrow> string \<Rightarrow> int \<times> string" where
  "read_digits n [] = (n, [])"
| "read_digits n (c # cs) =
     (if is_digit c then read_digits (10 * n + digit_value c) cs else (n, c # cs))"

definition from_chars_int :: "string \<Rightarrow> (int \<times> string) option" where
  "from_chars_int s =
     (let neg = (case s of c # cs \<Rightarrow> c = CHR ''-'' | [] \<Rightarrow> False);
          ds = (if neg then tl s else s)
      in case ds of
           [] \<Rightarrow> None
         | c # cs \<Rightarrow>
             if is_digit c then
               (let (n, rest) = read_digits 0 ds; v = (if neg then - n else n)
                in if v \<le> INT_MAX \<and> - INT_MAX - 1 \<le> v then Some (v, rest) else None)
             else None)"

definition parseServerPort :: "string \<Rightarrow> int option" where
  "parseServerPort value =
     (if value = [] then None
      else case from_chars_int value of
             None \<Rightarrow> None
           | Some (port, rest) \<Rightarrow>
               if rest \<noteq> [] \<or> port < 1 \<or> 65535 < port then None else Some port)"

text \<open>The decimal digits of a number, the inverse of reading them.\<close>

fun decimal :: "nat \<Rightarrow> string" where
  "decimal n = (if n < 10 then [char_of (48 + n)] else decimal (n div 10) @ [char_of (48 + n mod 10)])"

declare decimal.simps [simp del]

lemma digit_char [simp]:
  assumes "n < 10"
  shows "is_digit (char_of (48 + n))" and "digit_value (char_of (48 + n)) = int n"
proof -
  have m: "(48 + n) mod 256 = 48 + n" using assms by simp
  show "is_digit (char_of (48 + n))"
    using assms m by (simp add: is_digit_def)
  show "digit_value (char_of (48 + n)) = int n"
    using m by (simp add: digit_value_def)
qed

lemma read_digits_append:
  "list_all is_digit ds \<Longrightarrow> read_digits n (ds @ cs) = read_digits (fst (read_digits n ds)) cs"
  by (induction n ds rule: read_digits.induct) auto

lemma decimal_digits: "list_all is_digit (decimal n)"
proof (induction n rule: decimal.induct)
  case (1 n)
  then show ?case by (subst decimal.simps) simp
qed

lemma read_decimal: "read_digits 0 (decimal n) = (int n, [])"
proof (induction n rule: decimal.induct)
  case (1 n)
  show ?case
  proof (cases "n < 10")
    case True
    then show ?thesis by (subst decimal.simps) simp
  next
    case False
    have "int n = 10 * int (n div 10) + int (n mod 10)" by presburger
    then show ?thesis
      using False 1
      by (subst decimal.simps) (simp add: read_digits_append decimal_digits)
  qed
qed

lemma decimal_head: "\<exists>c cs. decimal n = c # cs \<and> is_digit c"
proof -
  have "decimal n \<noteq> []" by (subst decimal.simps) simp
  then show ?thesis using decimal_digits [of n] by (cases "decimal n") auto
qed

lemma from_chars_decimal:
  "int n \<le> INT_MAX \<Longrightarrow> from_chars_int (decimal n) = Some (int n, [])"
proof -
  assume n: "int n \<le> INT_MAX"
  obtain c cs where d: "decimal n = c # cs" and "is_digit c" using decimal_head by blast
  then have c: "c \<noteq> CHR ''-''" "is_digit c" by (auto simp: is_digit_def)
  have "read_digits 0 (c # cs) = (int n, [])" using read_decimal [of n] by (simp only: d)
  then show ?thesis
    using n c by (simp add: from_chars_int_def d INT_MAX_def del: read_digits.simps)
qed

section \<open>The properties\<close>

text \<open>
  the port option accepts exactly the decimal numbers from 1 to 65535 written without sign or
  surrounding text: every such number is accepted as itself, and whatever is accepted is in range.
\<close>

lemma parseServerPort_roundtrip:
  assumes "1 \<le> n" and "n \<le> 65535"
  shows "parseServerPort (decimal n) = Some (int n)
    \<and> (\<forall>s p. parseServerPort s = Some p \<longrightarrow> 1 \<le> p \<and> p \<le> 65535)"
proof
  show "parseServerPort (decimal n) = Some (int n)"
    using assms from_chars_decimal [of n] decimal_head [of n]
    by (auto simp: parseServerPort_def INT_MAX_def)
qed (auto simp: parseServerPort_def split: if_splits option.splits)

lemma parseServerPort_roundtrip_witness:
  "parseServerPort (decimal 7777) = Some 7777 \<and> parseServerPort ''70000'' \<noteq> Some 70000"
  using parseServerPort_roundtrip [of 7777] 
proof (simp, elim conjE)
  assume "\<forall>s p. parseServerPort s = Some p \<longrightarrow> 1 \<le> p \<and> p \<le> 65535"
  from this [rule_format, of "''70000''" 70000] show "parseServerPort ''70000'' \<noteq> Some 70000"
    by auto
qed

end
