(* ===== verification/Client_State.thy ===== *)
theory Client_State
  imports Jitter_Theorems Buffers_Config
begin

text \<open>
  \<open>Server/Source/ClientState.cpp\<close>: the connection state of one client and its jitter queue. Every
  operation holds the client's mutex from its first to its last statement, so each is one atomic
  step. The heap of audio buffers is passed where padding packets are allocated or a pop may clear
  a buffer.
\<close>

section \<open>The code\<close>

datatype client_connection_state = Disconnected | Connected | Disconnecting

datatype client_connection_transition = NoTransition | InitialConnection | GraceRecovery | Reconnection

record client_push_result =
  pr_queued :: bool
  pr_transition :: client_connection_transition

record client_queue_snapshot =
  sn_state :: client_connection_state
  sn_size :: nat
  sn_generation :: u64

record queue_pressure_result =
  qp_before :: client_queue_snapshot
  qp_after :: client_queue_snapshot
  qp_fastForward :: fast_forward_result

record client_state =
  cl_name :: string
  cl_state :: client_connection_state
  cl_queue :: "packet_stream_queue option"
  cl_deadline :: timepoint
  cl_generation :: u64
  cl_hasConnected :: bool

definition DisconnectGracePeriod :: int where
  "DisconnectGracePeriod = seconds 2"

definition cl_new :: "string \<Rightarrow> client_state" where
  "cl_new clientName =
     \<lparr>cl_name = clientName, cl_state = Disconnected, cl_queue = None, cl_deadline = 0,
      cl_generation = 0, cl_hasConnected = False\<rparr>"

text \<open>
  The first half of \<open>push\<close>: make a queue when there is none, classify the transition, and count the
  activity.
\<close>

definition cl_transition :: "client_state \<Rightarrow> client_connection_transition" where
  "cl_transition c =
     (case cl_queue c of
        None \<Rightarrow> (if \<not> cl_hasConnected c then InitialConnection else Reconnection)
      | Some q \<Rightarrow> (if cl_state c = Disconnecting then GraceRecovery else NoTransition))"

definition cl_connect :: "client_state \<Rightarrow> client_state" where
  "cl_connect c =
     c\<lparr>cl_queue := (case cl_queue c of None \<Rightarrow> Some (psq_new (cl_name c)) | Some q \<Rightarrow> Some q),
       cl_state := Connected, cl_hasConnected := True, cl_generation := cl_generation c + 1\<rparr>"

text \<open>
  The padding loop: each padding packet is made from the one before it, and the stack hands them out
  last made first. The result lists the stack from its top; \<open>None\<close> is a null audio buffer.
\<close>

fun padding_stack :: "nat \<Rightarrow> heap \<Rightarrow> audio_data \<Rightarrow> audio_data list \<Rightarrow> (audio_data list \<times> heap) option" where
  "padding_stack 0 h lastInserted reverse = Some (reverse, h)"
| "padding_stack (Suc n) h lastInserted reverse =
     (case createPrePaddingPackage h lastInserted of
        None \<Rightarrow> None
      | Some (pad, h') \<Rightarrow> padding_stack n h' pad (pad # reverse))"

text \<open>The loop that empties the stack into the queue. Push number \<open>i\<close> reads the clock as \<open>clock i\<close>.\<close>

fun push_paddings :: "(nat \<Rightarrow> real) \<Rightarrow> nat \<Rightarrow> audio_data list \<Rightarrow> packet_stream_queue \<Rightarrow> packet_stream_queue" where
  "push_paddings clock i [] q = q"
| "push_paddings clock i (p # ps) q = push_paddings clock (i + 1) ps (snd (psq_push (clock i) p q))"

definition cl_push ::
  "(nat \<Rightarrow> real) \<Rightarrow> audio_data \<Rightarrow> nat \<Rightarrow> heap \<Rightarrow> client_state
    \<Rightarrow> (client_push_result \<times> heap \<times> client_state) option" where
  "cl_push clock packet initialPrefillCount h c =
     (let isInitialConnection = \<not> cl_hasConnected c;
          transition = cl_transition c;
          c1 = cl_connect c
      in case cl_queue c1 of
           None \<Rightarrow> None
         | Some q \<Rightarrow>
             (case (if isInitialConnection then padding_stack initialPrefillCount h packet [] else Some ([], h)) of
                None \<Rightarrow> None
              | Some (stack, h') \<Rightarrow>
                  (let q1 = push_paddings clock 0 stack q;
                       (queued, q2) = psq_push (clock (length stack)) packet q1
                   in Some (\<lparr>pr_queued = queued, pr_transition = transition\<rparr>, h', c1\<lparr>cl_queue := Some q2\<rparr>))))"

text \<open>The result is the popped packet with its fill-in flag, and the observed activity generation.\<close>

definition cl_tryPop ::
  "heap \<Rightarrow> client_state \<Rightarrow> ((audio_data \<times> bool) option \<times> u64) \<times> heap \<times> client_state" where
  "cl_tryPop h c =
     (if cl_state c = Disconnected then ((None, cl_generation c), h, c)
      else case cl_queue c of
             None \<Rightarrow> ((None, cl_generation c), h, c)
           | Some q \<Rightarrow>
               (let (r, h', q') = psq_try_pop h q in ((r, cl_generation c), h', c\<lparr>cl_queue := Some q'\<rparr>)))"

definition cl_queue_size :: "client_state \<Rightarrow> nat" where
  "cl_queue_size c =
     (if cl_state c = Disconnected then 0 else case cl_queue c of None \<Rightarrow> 0 | Some q \<Rightarrow> psq_size q)"

definition cl_snapshot :: "client_state \<Rightarrow> client_queue_snapshot" where
  "cl_snapshot c = \<lparr>sn_state = cl_state c, sn_size = cl_queue_size c, sn_generation = cl_generation c\<rparr>"

definition no_fast_forward :: fast_forward_result where
  "no_fast_forward = \<lparr>ff_discardedPackets = 0, ff_oldestRetainedCounter = None\<rparr>"

definition cl_applyQueuePressure ::
  "nat \<Rightarrow> nat \<Rightarrow> client_state \<Rightarrow> queue_pressure_result \<times> client_state" where
  "cl_applyQueuePressure maximumPacketCount retainedPacketCount c =
     (let before = cl_snapshot c
      in case (if cl_state c = Disconnected then None else cl_queue c) of
           None \<Rightarrow> (\<lparr>qp_before = before, qp_after = before, qp_fastForward = no_fast_forward\<rparr>, c)
         | Some q \<Rightarrow>
             (let (ff, q') = (if maximumPacketCount < psq_size q then psq_fastForwardToSize retainedPacketCount q
                              else (no_fast_forward, q))
              in (\<lparr>qp_before = before,
                   qp_after = \<lparr>sn_state = cl_state c, sn_size = psq_size q', sn_generation = cl_generation c\<rparr>,
                   qp_fastForward = ff\<rparr>, c\<lparr>cl_queue := Some q'\<rparr>)))"

definition cl_qualityInfo :: "client_state \<Rightarrow> quality_data option" where
  "cl_qualityInfo c =
     (if cl_state c = Disconnected then None else map_option psq_qualityData (cl_queue c))"

definition cl_markUnderrun :: "u64 \<Rightarrow> timepoint \<Rightarrow> client_state \<Rightarrow> bool \<times> client_state" where
  "cl_markUnderrun observedActivityGeneration now c =
     (if cl_state c \<noteq> Connected \<or> cl_generation c \<noteq> observedActivityGeneration then (False, c)
      else (True, c\<lparr>cl_state := Disconnecting, cl_deadline := now + DisconnectGracePeriod\<rparr>))"

definition cl_disconnectIfGraceExpired :: "timepoint \<Rightarrow> client_state \<Rightarrow> bool \<times> client_state" where
  "cl_disconnectIfGraceExpired now c =
     (if cl_state c \<noteq> Disconnecting \<or> now < cl_deadline c then (False, c)
      else (True, c\<lparr>cl_state := Disconnected, cl_queue := None\<rparr>))"

section \<open>The invariant\<close>

definition cl_inv :: "client_state \<Rightarrow> bool" where
  "cl_inv c \<longleftrightarrow> (cl_state c = Disconnected \<longleftrightarrow> cl_queue c = None)
     \<and> (\<forall>q. cl_queue c = Some q \<longrightarrow> psq_inv q)
     \<and> (cl_state c \<noteq> Disconnected \<longrightarrow> cl_hasConnected c)"

lemma cl_new_inv [simp, inv_intros]: "cl_inv (cl_new name)"
  by (simp add: cl_inv_def cl_new_def)

lemma push_paddings_inv [inv_intros]: "psq_inv q \<Longrightarrow> psq_inv (push_paddings clock i ps q)"
  by (induction clock i ps q rule: push_paddings.induct) (auto intro: psq_push_inv)

lemma cl_connect_queue [simp]:
  "cl_queue (cl_connect c) = Some (case cl_queue c of None \<Rightarrow> psq_new (cl_name c) | Some q \<Rightarrow> q)"
  by (simp add: cl_connect_def split: option.splits)

lemma cl_connect_simps [simp]:
  "cl_state (cl_connect c) = Connected" "cl_hasConnected (cl_connect c)"
  "cl_generation (cl_connect c) = cl_generation c + 1" "cl_deadline (cl_connect c) = cl_deadline c"
  by (simp_all add: cl_connect_def)

text \<open>The padding packets of a push, and the queue it ends with.\<close>

definition cl_paddings :: "audio_data \<Rightarrow> nat \<Rightarrow> heap \<Rightarrow> client_state \<Rightarrow> (audio_data list \<times> heap) option" where
  "cl_paddings p n h c = (if \<not> cl_hasConnected c then padding_stack n h p [] else Some ([], h))"

definition cl_base_queue :: "client_state \<Rightarrow> packet_stream_queue" where
  "cl_base_queue c = (case cl_queue c of None \<Rightarrow> psq_new (cl_name c) | Some q \<Rightarrow> q)"

lemma cl_push_Some:
  "cl_push clock p n h c = Some (r, h', c') \<longleftrightarrow>
     (\<exists>stack. cl_paddings p n h c = Some (stack, h')
        \<and> r = \<lparr>pr_queued = fst (psq_push (clock (length stack)) p (push_paddings clock 0 stack (cl_base_queue c))),
               pr_transition = cl_transition c\<rparr>
        \<and> c' = (cl_connect c)\<lparr>cl_queue :=
               Some (snd (psq_push (clock (length stack)) p (push_paddings clock 0 stack (cl_base_queue c))))\<rparr>)"
  by (auto simp: cl_push_def cl_paddings_def cl_base_queue_def Let_def split_beta split: option.splits if_splits)

lemma cl_base_queue_inv: "cl_inv c \<Longrightarrow> psq_inv (cl_base_queue c)"
  by (auto simp: cl_base_queue_def cl_inv_def split: option.splits)

lemma cl_push_fields:
  assumes "cl_push clock p n h c = Some (r, h', c')"
  shows "cl_state c' = Connected" and "cl_hasConnected c'" and "cl_generation c' = cl_generation c + 1"
    and "pr_transition r = cl_transition c"
    and "cl_inv c \<Longrightarrow> \<exists>q. cl_queue c' = Some q \<and> psq_inv q"
  using assms by (auto simp: cl_push_Some intro!: psq_push_inv push_paddings_inv cl_base_queue_inv)

lemma cl_push_inv [inv_intros]:
  "cl_push clock p n h c = Some (r, h', c') \<Longrightarrow> cl_inv c \<Longrightarrow> cl_inv c'"
  using cl_push_fields by (fastforce simp: cl_inv_def)

lemma cl_tryPop_queue:
  assumes "cl_state c \<noteq> Disconnected" and "cl_queue c = Some q"
  shows "cl_tryPop h c = ((popped h q, cl_generation c), heap_after_pop h q, c\<lparr>cl_queue := Some (after_pop h q)\<rparr>)"
  using assms by (simp add: cl_tryPop_def pop_parts split_beta)

lemma cl_tryPop_gone: "cl_state c = Disconnected \<or> cl_queue c = None \<Longrightarrow> cl_tryPop h c = ((None, cl_generation c), h, c)"
  by (auto simp: cl_tryPop_def split: option.splits)

lemma cl_tryPop_inv [inv_intros]: "cl_inv c \<Longrightarrow> cl_inv (snd (snd (cl_tryPop h c)))"
proof (cases "cl_state c = Disconnected \<or> cl_queue c = None")
  case False
  then obtain q where "cl_state c \<noteq> Disconnected" "cl_queue c = Some q" by blast
  then show "cl_inv c \<Longrightarrow> ?thesis"
    by (simp add: cl_tryPop_queue cl_inv_def psq_pop_inv)
qed (simp add: cl_tryPop_gone)

lemma cl_pressure_queue:
  assumes "cl_state c \<noteq> Disconnected" and "cl_queue c = Some q"
  shows "snd (cl_applyQueuePressure m k c) = c\<lparr>cl_queue :=
      Some (if m < psq_size q then snd (psq_fastForwardToSize k q) else q)\<rparr>"
    and "qp_before (fst (cl_applyQueuePressure m k c)) = cl_snapshot c"
    and "qp_after (fst (cl_applyQueuePressure m k c)) = cl_snapshot (snd (cl_applyQueuePressure m k c))"
    and "qp_fastForward (fst (cl_applyQueuePressure m k c))
      = (if m < psq_size q then fst (psq_fastForwardToSize k q) else no_fast_forward)"
  using assms by (simp_all add: cl_applyQueuePressure_def cl_snapshot_def cl_queue_size_def Let_def split_beta)

lemma cl_pressure_gone:
  "cl_state c = Disconnected \<or> cl_queue c = None \<Longrightarrow> cl_applyQueuePressure m k c
     = (\<lparr>qp_before = cl_snapshot c, qp_after = cl_snapshot c, qp_fastForward = no_fast_forward\<rparr>, c)"
  by (auto simp: cl_applyQueuePressure_def Let_def split: option.splits)

lemma cl_pressure_inv [inv_intros]: "cl_inv c \<Longrightarrow> cl_inv (snd (cl_applyQueuePressure m k c))"
proof (cases "cl_state c = Disconnected \<or> cl_queue c = None")
  case False
  then obtain q where "cl_state c \<noteq> Disconnected" "cl_queue c = Some q" by blast
  then show "cl_inv c \<Longrightarrow> ?thesis"
    by (simp add: cl_pressure_queue cl_inv_def psq_fastForward_inv)
qed (simp add: cl_pressure_gone)

lemma cl_underrun_inv [inv_intros]: "cl_inv c \<Longrightarrow> cl_inv (snd (cl_markUnderrun g now c))"
  by (auto simp: cl_markUnderrun_def cl_inv_def)

lemma cl_expiry_inv [inv_intros]: "cl_inv c \<Longrightarrow> cl_inv (snd (cl_disconnectIfGraceExpired now c))"
  by (auto simp: cl_disconnectIfGraceExpired_def cl_inv_def)

end
