(* ===== verification/Client_State_Props.thy ===== *)
theory Client_State_Props
  imports Client_State
begin

text \<open>
  The life of one client on the server: what any interleaving of the accept thread's pushes and the
  mixer thread's pops, pressure relief, underrun marks and expiry checks can reach; when a client can
  lose its queue; and the padding of its first connection.
\<close>

section \<open>Interleavings\<close>

datatype client_event =
    Received audio_data
  | Polled
  | Relieved
  | MarkedUnderrun timepoint bool
  | CheckedExpiry timepoint bool

inductive cl_step :: "client_state \<Rightarrow> client_event \<Rightarrow> client_state \<Rightarrow> bool" where
  cl_receive: "cl_push clock p n h c = Some (r, h', c') \<Longrightarrow> cl_step c (Received p) c'"
| cl_poll: "cl_tryPop h c = (r, h', c') \<Longrightarrow> cl_step c Polled c'"
| cl_relieve: "cl_applyQueuePressure m k c = (r, c') \<Longrightarrow> cl_step c Relieved c'"
| cl_underrun: "cl_markUnderrun g now c = (b, c') \<Longrightarrow> cl_step c (MarkedUnderrun now b) c'"
| cl_expire: "cl_disconnectIfGraceExpired now c = (b, c') \<Longrightarrow> cl_step c (CheckedExpiry now b) c'"

inductive cl_steps :: "client_state \<Rightarrow> client_event list \<Rightarrow> client_state \<Rightarrow> bool" where
  cl_steps_Nil: "cl_steps c [] c"
| cl_steps_snoc: "cl_steps c es c' \<Longrightarrow> cl_step c' e c'' \<Longrightarrow> cl_steps c (es @ [e]) c''"

lemma cl_step_inv [inv_intros]: "cl_step c e c' \<Longrightarrow> cl_inv c \<Longrightarrow> cl_inv c'"
proof (induction rule: cl_step.induct)
  case (cl_poll h c r h' c')
  then show ?case using cl_tryPop_inv [of c h] by simp
next
  case (cl_relieve m k c r c')
  then show ?case using cl_pressure_inv [of c m k] by simp
next
  case (cl_underrun g now c b c')
  then show ?case using cl_underrun_inv [of c g now] by simp
next
  case (cl_expire now c b c')
  then show ?case using cl_expiry_inv [of c now] by simp
qed (rule cl_push_inv)

lemma cl_steps_inv: "cl_steps c es c' \<Longrightarrow> cl_inv c \<Longrightarrow> cl_inv c'"
  by (induction rule: cl_steps.induct) (auto intro: cl_step_inv)

text \<open>The connection state, deadline and generation after each kind of step.\<close>

lemma cl_poll_fields:
  "cl_tryPop h c = (r, h', c') \<Longrightarrow>
   cl_state c' = cl_state c \<and> cl_deadline c' = cl_deadline c \<and> cl_generation c' = cl_generation c"
  by (cases "cl_state c = Disconnected \<or> cl_queue c = None") (auto simp: cl_tryPop_gone cl_tryPop_queue)

lemma cl_relieve_fields:
  assumes "cl_applyQueuePressure m k c = (r, c')"
  shows "cl_state c' = cl_state c \<and> cl_deadline c' = cl_deadline c \<and> cl_generation c' = cl_generation c"
proof (cases "cl_state c = Disconnected \<or> cl_queue c = None")
  case False
  then obtain q where "cl_state c \<noteq> Disconnected" "cl_queue c = Some q" by blast
  then show ?thesis using cl_pressure_queue(1) [of c q m k] assms by auto
qed (use assms in \<open>auto simp: cl_pressure_gone\<close>)

fun received :: "client_event list \<Rightarrow> nat" where
  "received [] = 0"
| "received (Received p # es) = Suc (received es)"
| "received (e # es) = received es"

lemma received_append [simp]: "received (es @ fs) = received es + received fs"
  by (induction es rule: received.induct) auto

lemma cl_step_generation:
  "cl_step c e c' \<Longrightarrow> cl_generation c' = cl_generation c + word_of_nat (received [e])"
proof (induction rule: cl_step.induct)
  case (cl_receive clock p n h c r h' c')
  then show ?case using cl_push_fields(3) by simp
qed (auto dest: cl_poll_fields cl_relieve_fields simp: cl_markUnderrun_def cl_disconnectIfGraceExpired_def split: if_splits)

lemma cl_steps_generation:
  "cl_steps c es c' \<Longrightarrow> cl_generation c' = cl_generation c + word_of_nat (received es)"
  by (induction rule: cl_steps.induct) (auto dest: cl_step_generation simp: algebra_simps)

section \<open>Losing the connection\<close>

text \<open>An underrun was marked at \<open>t\<close>, and nothing was received since.\<close>

definition silent_since :: "client_event list \<Rightarrow> timepoint \<Rightarrow> bool" where
  "silent_since es t \<longleftrightarrow> (\<exists>as bs. es = as @ MarkedUnderrun t True # bs \<and> received bs = 0)"

definition lost_after_silence :: "client_event list \<Rightarrow> bool" where
  "lost_after_silence es \<longleftrightarrow>
     (\<exists>as t t' bs. es = as @ CheckedExpiry t' True # bs \<and> silent_since as t
        \<and> t + DisconnectGracePeriod \<le> t' \<and> received bs = 0)"

lemma silent_since_snoc: "silent_since es t \<Longrightarrow> received [e] = 0 \<Longrightarrow> silent_since (es @ [e]) t"
  unfolding silent_since_def
  by (metis append_Cons append_assoc received_append add_0)

lemma lost_after_silence_snoc: "lost_after_silence es \<Longrightarrow> received [e] = 0 \<Longrightarrow> lost_after_silence (es @ [e])"
  unfolding lost_after_silence_def
  by (metis append_Cons append_assoc received_append add_0)

lemma cl_step_loss:
  "cl_step c e c' \<Longrightarrow>
   (cl_state c = Disconnecting \<Longrightarrow> silent_since es (cl_deadline c - DisconnectGracePeriod)) \<Longrightarrow>
   (cl_state c = Disconnected \<Longrightarrow> lost_after_silence es) \<Longrightarrow>
   (cl_state c' = Disconnecting \<longrightarrow> silent_since (es @ [e]) (cl_deadline c' - DisconnectGracePeriod))
   \<and> (cl_state c' = Disconnected \<longrightarrow> lost_after_silence (es @ [e]))"
proof (induction rule: cl_step.induct)
  case (cl_receive clock p n h c r h' c')
  then show ?case using cl_push_fields(1) by fastforce
next
  case (cl_poll h c r h' c')
  then show ?case using cl_poll_fields [of h c r h' c']
    by (auto intro: silent_since_snoc lost_after_silence_snoc)
next
  case (cl_relieve m k c r c')
  then show ?case using cl_relieve_fields [of m k c r c']
    by (auto intro: silent_since_snoc lost_after_silence_snoc)
next
  case (cl_underrun g now c b c')
  have "silent_since (es @ [MarkedUnderrun now True]) now"
    unfolding silent_since_def by (rule exI [of _ es], rule exI [of _ "[]"]) simp
  then show ?case
    using cl_underrun
    by (auto simp: cl_markUnderrun_def intro: silent_since_snoc lost_after_silence_snoc split: if_splits)
next
  case (cl_expire now c b c')
  show ?case
  proof (cases b)
    case True
    then have d: "cl_state c = Disconnecting" "cl_deadline c \<le> now" "cl_state c' = Disconnected"
      using cl_expire.hyps by (auto simp: cl_disconnectIfGraceExpired_def split: if_splits)
    have "lost_after_silence (es @ [CheckedExpiry now True])"
      unfolding lost_after_silence_def
      by (rule exI [of _ es], rule exI [of _ "cl_deadline c - DisconnectGracePeriod"], rule exI [of _ now],
          rule exI [of _ "[]"]) (use cl_expire.prems(1) [OF d(1)] d(2) in simp)
    then show ?thesis using d True by simp
  next
    case False
    then have "c' = c" using cl_expire.hyps by (auto simp: cl_disconnectIfGraceExpired_def split: if_splits)
    then show ?thesis
      using cl_expire.prems by (auto intro: silent_since_snoc lost_after_silence_snoc)
  qed
qed

lemma cl_steps_loss:
  "cl_steps c es c' \<Longrightarrow> cl_state c = Connected \<Longrightarrow>
   (cl_state c' = Disconnecting \<longrightarrow> silent_since es (cl_deadline c' - DisconnectGracePeriod))
   \<and> (cl_state c' = Disconnected \<longrightarrow> lost_after_silence es)"
proof (induction rule: cl_steps.induct)
  case (cl_steps_snoc c es c' e c'')
  then show ?case by (intro cl_step_loss) auto
qed simp

section \<open>Padding the first connection\<close>

lemma pq_push_last: "(\<And>x. x \<in> set q \<Longrightarrow> messageCounter x < messageCounter p) \<Longrightarrow> pq_push p q = q @ [p]"
  by (induction q) (auto simp: pq_push_def dest: leD)

text \<open>Pushing newer and newer packets appends them all.\<close>

lemma push_paddings_append:
  "psq_inv q \<Longrightarrow> psq_lastPoppedMessage q = l \<Longrightarrow> \<forall>c \<in> set (map messageCounter ps). l < c \<Longrightarrow>
   sorted_wrt (<) (counters q @ map messageCounter ps) \<Longrightarrow>
   psq_packetQueue (push_paddings clock i ps q) = psq_packetQueue q @ ps
   \<and> psq_lastPoppedMessage (push_paddings clock i ps q) = l
   \<and> psq_lastPoppedMessageData (push_paddings clock i ps q) = psq_lastPoppedMessageData q"
proof (induction clock i ps q rule: push_paddings.induct)
  case (2 clock i p ps q)
  have less: "messageCounter x < messageCounter p" if "x \<in> set (psq_packetQueue q)" for x
    using 2(5) that by (auto simp: sorted_wrt_append counters_def)
  then have acc: "acceptable p q"
    using 2(2,3,4) by (fastforce simp: acceptable_def psq_inv_def counters_def)
  have pushed: "psq_packetQueue (snd (psq_push (clock i) p q)) = psq_packetQueue q @ [p]"
    using pq_push_last [of "psq_packetQueue q" p] less by (simp add: psq_push_accepted(1) [OF acc])
  then have "counters (snd (psq_push (clock i) p q)) = counters q @ [messageCounter p]"
    by (simp add: counters_def)
  then show ?case
    using 2(1) [OF psq_push_inv [OF 2(2)]] 2(3-5) pushed
    by (simp add: psq_push_accepted(4) [OF acc])
qed simp

definition silent_packet :: "heap \<Rightarrow> audio_data \<Rightarrow> bool" where
  "silent_packet h p \<longleftrightarrow>
     (case audioBuffer p of None \<Rightarrow> False
      | Some a \<Rightarrow> (case mem h a of None \<Rightarrow> False | Some b \<Rightarrow> buf_is_silent b))"

definition has_audio :: "heap \<Rightarrow> audio_data \<Rightarrow> bool" where
  "has_audio h p \<longleftrightarrow> (\<exists>a b. audioBuffer p = Some a \<and> mem h a = Some b)"

lemma has_audio_padding:
  assumes "has_audio h p" and "heap_wf h"
  shows "\<exists>pad h'. createPrePaddingPackage h p = Some (pad, h') \<and> has_audio h' pad \<and> heap_wf h'
    \<and> silent_packet h' pad \<and> messageCounter pad = messageCounter p - 1 \<and> (\<forall>x. silent_packet h x \<longrightarrow> silent_packet h' x)"
proof -
  obtain a b where ab: "audioBuffer p = Some a" "mem h a = Some b" using assms(1) by (auto simp: has_audio_def)
  then obtain pad h' where pad: "createPrePaddingPackage h p = Some (pad, h')" "audioBuffer pad = Some (next_addr h)"
    "mem h' = (mem h)(next_addr h \<mapsto> buf_clear b)" "next_addr h' = Suc (next_addr h)"
    using createPrePadding_Some by blast
  have "silent_packet h' x" if "silent_packet h x" for x
    using that heap_wf_fresh [OF assms(2)] pad(3)
    by (auto simp: silent_packet_def split: option.splits)
  moreover have "heap_wf h'"
    using assms(2) pad(3,4) by (auto simp: heap_wf_def less_Suc_eq)
  ultimately show ?thesis
    using pad createPrePadding_counter [OF pad(1)] by (auto simp: has_audio_def silent_packet_def)
qed

lemma padding_stack_spec:
  "has_audio h p \<Longrightarrow> heap_wf h \<Longrightarrow> \<exists>ps h'. padding_stack n h p acc = Some (ps @ acc, h')
     \<and> map messageCounter ps = map (\<lambda>i. messageCounter p - word_of_nat (n - i)) [0..<n]
     \<and> (\<forall>x \<in> set ps. silent_packet h' x) \<and> (\<forall>x. silent_packet h x \<longrightarrow> silent_packet h' x)"
proof (induction n arbitrary: h p acc)
  case (Suc n)
  obtain pad h1 where pad: "createPrePaddingPackage h p = Some (pad, h1)" "has_audio h1 pad" "heap_wf h1"
    "silent_packet h1 pad" "messageCounter pad = messageCounter p - 1" "\<forall>x. silent_packet h x \<longrightarrow> silent_packet h1 x"
    using has_audio_padding [OF Suc.prems] by blast
  obtain ps h' where ps: "padding_stack n h1 pad (pad # acc) = Some (ps @ pad # acc, h')"
    "map messageCounter ps = map (\<lambda>i. messageCounter pad - word_of_nat (n - i)) [0..<n]"
    "\<forall>x \<in> set ps. silent_packet h' x" "\<forall>x. silent_packet h1 x \<longrightarrow> silent_packet h' x"
    using Suc.IH [OF pad(2,3)] by blast
  have "map messageCounter (ps @ [pad]) = map (\<lambda>i. messageCounter p - word_of_nat (Suc n - i)) [0..<Suc n]"
    using ps(2) pad(5) by (auto simp: Suc_diff_le algebra_simps)
  then show ?case
    using pad ps by (intro exI [of _ "ps @ [pad]"] exI [of _ h']) auto
qed simp

lemma map_counter_shape:
  assumes "n < unat c"
  shows "sorted_wrt (<) (map (\<lambda>i. c - word_of_nat (n - i)) [0..<Suc n])"
    and "\<forall>x \<in> set (map (\<lambda>i. c - word_of_nat (n - i)) [0..<Suc n]). 0 < (x :: u64)"
proof -
  have u: "unat (c - word_of_nat (n - i)) = unat c - (n - i)" for i
  proof -
    have "unat c < 2 ^ 64" using unsigned_less [of c] by simp
    then have "n - i < 2 ^ 64" using assms by simp
    then have "unat (word_of_nat (n - i) :: u64) = n - i" by (simp add: unat_of_nat)
    then show ?thesis using assms by (simp add: unat_sub word_le_nat_alt)
  qed
  show "sorted_wrt (<) (map (\<lambda>i. c - word_of_nat (n - i)) [0..<Suc n])"
    using assms by (auto simp: sorted_wrt_iff_nth_less word_less_nat_alt u simp del: upt_Suc of_nat_diff)
  show "\<forall>x \<in> set (map (\<lambda>i. c - word_of_nat (n - i)) [0..<Suc n]). 0 < x"
    using assms by (auto simp: word_less_nat_alt u simp del: upt_Suc of_nat_diff)
qed

lemma push_paddings_keeps:
  "psq_inv q \<Longrightarrow> c \<in> set (counters q) \<or> (psq_lastPoppedMessage q < c \<and> c \<in> set (map messageCounter ps)) \<Longrightarrow>
   c \<in> set (counters (push_paddings clock i ps q))"
proof (induction clock i ps q rule: push_paddings.induct)
  case (2 clock i p ps q)
  have inv': "psq_inv (snd (psq_push (clock i) p q))" by (rule psq_push_inv [OF 2(2)])
  have "set (counters q) \<subseteq> set (counters (snd (psq_push (clock i) p q)))
      \<and> (psq_lastPoppedMessage q < messageCounter p \<longrightarrow> messageCounter p \<in> set (counters (snd (psq_push (clock i) p q))))"
  proof (cases "acceptable p q")
    case True
    then show ?thesis
      by (auto simp: counters_def psq_push_accepted(1) counters_pq_push [unfolded set_map] pq_push_def set_insort_key)
  next
    case False
    then show ?thesis
      using 2(2) by (auto simp: counters_def psq_push_rejected(1) acceptable_def psq_inv_def)
  qed
  with 2(1) [OF inv'] 2(3) show ?case by auto
qed simp

section \<open>The properties\<close>

text \<open>A client, a heap with one buffer and a packet with audio, for the concrete inputs below.\<close>

definition sample_heap :: heap where
  "sample_heap = snd (heap_alloc \<lparr>buf_numSamples = 2, buf_channels = [[1, 1]]\<rparr> empty_heap)"

definition sample_audio :: "u64 \<Rightarrow> audio_data" where
  "sample_audio n = audio_data_of_block (sample_block n (Some 0)) None"

lemma sample_audio_simps [simp]:
  "messageCounter (sample_audio n) = n" "has_audio sample_heap (sample_audio n)" "heap_wf sample_heap"
  by (simp_all add: sample_audio_def sample_heap_def has_audio_def empty_heap_def heap_wf_def)

definition sample_connected :: client_state where
  "sample_connected = cl_connect (cl_new ''a'')"

lemma sample_connected_simps [simp]:
  "cl_state sample_connected = Connected" "cl_hasConnected sample_connected"
  by (simp_all add: sample_connected_def)



text \<open>
  C8: a connected client loses its connection only after an underrun was marked, nothing was received
  from it afterwards, and an expiry check ran at least the grace period of two seconds later.
\<close>

theorem client_loses_connection_only_after_grace:
  assumes "cl_steps c es c'" and "cl_state c = Connected" and "cl_state c' = Disconnected"
  shows "lost_after_silence es"
  using cl_steps_loss [OF assms(1,2)] assms(3) by simp

theorem client_loses_connection_only_after_grace_witness:
  "lost_after_silence [MarkedUnderrun 0 True, CheckedExpiry (seconds 3) True]"
proof -
  let ?u = "snd (cl_markUnderrun (cl_generation sample_connected) 0 sample_connected)"
  let ?d = "snd (cl_disconnectIfGraceExpired (seconds 3) ?u)"
  have "cl_markUnderrun (cl_generation sample_connected) 0 sample_connected = (True, ?u)"
    and d: "cl_disconnectIfGraceExpired (seconds 3) ?u = (True, ?d)" and "cl_state ?d = Disconnected"
    by (simp_all add: cl_markUnderrun_def cl_disconnectIfGraceExpired_def DisconnectGracePeriod_def seconds_def)
  note u = cl_underrun [OF this(1)] and d = cl_expire [OF d] and lost = this(3)
  have "cl_steps sample_connected (([] @ [MarkedUnderrun 0 True]) @ [CheckedExpiry (seconds 3) True]) ?d"
    by (intro cl_steps_snoc [OF cl_steps_snoc [OF cl_steps_Nil u] d])
  then show ?thesis
    using client_loses_connection_only_after_grace [of sample_connected _ ?d] lost by simp
qed

text \<open>
  the mixer's stale observation cannot disconnect a client that sends: an underrun observed
  before one or more packets arrived (fewer than two to the 64th) is ignored when it is marked later.
\<close>

lemma client_stale_underrun_ignored:
  assumes "cl_steps c es c'" and "0 < received es" and "received es < 2 ^ 64"
  shows "cl_markUnderrun (cl_generation c) now c' = (False, c')"
proof -
  have "unat (word_of_nat (received es) :: u64) = received es"
    using assms(3) by (simp add: unat_of_nat)
  then have "word_of_nat (received es) \<noteq> (0 :: u64)" using assms(2) by (metis less_irrefl unsigned_0)
  then have "cl_generation c' \<noteq> cl_generation c"
    using cl_steps_generation [OF assms(1)] by simp
  then show ?thesis by (simp add: cl_markUnderrun_def)
qed

lemma client_stale_underrun_ignored_witness:
  "\<exists>r h' c'. cl_push (\<lambda>i. 0) (sample_audio 9) 0 sample_heap sample_connected = Some (r, h', c')
     \<and> cl_markUnderrun (cl_generation sample_connected) 5 c' = (False, c')"
proof -
  obtain r h' c' where p: "cl_push (\<lambda>i. 0) (sample_audio 9) 0 sample_heap sample_connected = Some (r, h', c')"
    by (auto simp: cl_push_Some cl_paddings_def)
  have "cl_steps sample_connected ([] @ [Received (sample_audio 9)]) c'"
    by (rule cl_steps_snoc [OF cl_steps_Nil cl_receive [OF p]])
  from client_stale_underrun_ignored [OF this] p show ?thesis by auto
qed

text \<open>
  the first packet of a new client is queued behind exactly the requested number of silent padding
  packets with the counters just before it, when its counter is large enough for that: the queue holds
  consecutive counters, ends with the packet itself, and the push reports the initial connection.
\<close>

lemma client_first_push_is_padded:
  assumes "\<not> cl_hasConnected c" and "cl_queue c = None"
    and "has_audio h p" and "heap_wf h" and "n < unat (messageCounter p)"
  shows "\<exists>r h' c' q pads. cl_push clock p n h c = Some (r, h', c') \<and> cl_queue c' = Some q
    \<and> pr_transition r = InitialConnection \<and> psq_packetQueue q = pads @ [p]
    \<and> map messageCounter (pads @ [p]) = map (\<lambda>i. messageCounter p - word_of_nat (n - i)) [0..<Suc n]
    \<and> (\<forall>x \<in> set pads. silent_packet h' x)"
proof -
  obtain pads h' where st: "padding_stack n h p [] = Some (pads, h')"
    "map messageCounter pads = map (\<lambda>i. messageCounter p - word_of_nat (n - i)) [0..<n]"
    "\<forall>x \<in> set pads. silent_packet h' x"
    using padding_stack_spec [OF assms(3,4), of n "[]"] by auto
  have all: "map messageCounter (pads @ [p]) = map (\<lambda>i. messageCounter p - word_of_nat (n - i)) [0..<Suc n]"
    using st(2) by simp
  have cs: "sorted_wrt (<) (map messageCounter (pads @ [p]))" "\<forall>x \<in> set (map messageCounter (pads @ [p])). 0 < x"
    unfolding all using map_counter_shape [OF assms(5)] by simp_all
  have new: "psq_inv (psq_new (cl_name c))" "psq_lastPoppedMessage (psq_new (cl_name c)) = 0"
    "counters (psq_new (cl_name c)) = []" "psq_packetQueue (psq_new (cl_name c)) = []"
    by (simp_all add: psq_new_def counters_def psq_new_inv [unfolded psq_new_def])
  define q where "q = snd (psq_push (clock (length pads)) p (push_paddings clock 0 pads (psq_new (cl_name c))))"
  have "psq_packetQueue (push_paddings clock 0 pads (psq_new (cl_name c))) = pads"
    "psq_lastPoppedMessage (push_paddings clock 0 pads (psq_new (cl_name c))) = 0"
    using push_paddings_append [OF new(1,2), of pads clock 0] cs new(3,4) by (auto simp: sorted_wrt_append)
  then have "psq_packetQueue q = pads @ [p]"
    using push_paddings_append [OF push_paddings_inv [OF new(1)], of clock 0 pads 0 "[p]" clock "length pads"] cs
    by (simp add: q_def counters_def)
  then show ?thesis
    using st all assms(1,2)
    by (intro exI [of _ "\<lparr>pr_queued = fst (psq_push (clock (length pads)) p
            (push_paddings clock 0 pads (psq_new (cl_name c)))), pr_transition = InitialConnection\<rparr>"]
          exI [of _ h'] exI [of _ "(cl_connect c)\<lparr>cl_queue := Some q\<rparr>"] exI [of _ q] exI [of _ pads])
      (simp add: cl_push_Some cl_paddings_def cl_base_queue_def q_def cl_transition_def)
qed

lemma client_first_push_is_padded_witness:
  "\<exists>r h' c' q pads. cl_push (\<lambda>i. 0) (sample_audio 10) 3 sample_heap (cl_new ''a'') = Some (r, h', c')
    \<and> cl_queue c' = Some q \<and> pr_transition r = InitialConnection \<and> psq_packetQueue q = pads @ [sample_audio 10]
    \<and> map messageCounter (pads @ [sample_audio 10])
        = map (\<lambda>i. messageCounter (sample_audio 10) - word_of_nat (3 - i)) [0..<Suc 3]
    \<and> (\<forall>x \<in> set pads. silent_packet h' x)"
  by (rule client_first_push_is_padded) (simp_all add: cl_new_def)

text \<open>
  a padding count larger than the first counter wraps around: the queue then holds a packet with
  the largest counter of 64 bits, and once that one is delivered every packet of the client is refused.
\<close>

lemma client_padding_wraps:
  assumes "cl_push clock p n h c = Some (r, h', c')" and "\<not> cl_hasConnected c" and "cl_queue c = None"
    and "has_audio h p" and "heap_wf h" and "unat (messageCounter p) < n"
  shows "\<exists>q. cl_queue c' = Some q \<and> (\<exists>x \<in> set (psq_packetQueue q). messageCounter x = - 1)
    \<and> (\<forall>g q' f x now late. popped g q' = Some (x, f) \<and> messageCounter x = - 1
         \<longrightarrow> \<not> fst (psq_push now late (after_pop g q')))"
proof -
  define base where "base = psq_new (cl_name c)"
  have base: "psq_inv base" "psq_lastPoppedMessage base = 0" by (simp_all add: base_def psq_new_def psq_new_inv [unfolded psq_new_def])
  obtain pads where st: "cl_paddings p n h c = Some (pads, h')"
    "cl_queue c' = Some (snd (psq_push (clock (length pads)) p (push_paddings clock 0 pads base)))"
    using assms(1-3) by (auto simp: cl_push_Some cl_base_queue_def base_def)
  then have stack: "padding_stack n h p [] = Some (pads, h')" using assms(2) by (simp add: cl_paddings_def)
  have cs: "map messageCounter pads = map (\<lambda>i. messageCounter p - word_of_nat (n - i)) [0..<n]"
    using padding_stack_spec [OF assms(4,5), of n "[]"] stack by auto
  have "- 1 = messageCounter p - word_of_nat (n - (n - Suc (unat (messageCounter p))))"
    using assms(6) by simp
  moreover have "n - Suc (unat (messageCounter p)) \<in> set [0..<n]" using assms(6) by auto
  ultimately have mem: "- 1 \<in> set (map messageCounter pads)" unfolding cs by (auto simp del: of_nat_diff)
  have "- 1 \<in> set (counters (push_paddings clock 0 pads base))"
    by (rule push_paddings_keeps) (use base mem in \<open>simp_all add: word_gt_0\<close>)
  then have "- 1 \<in> set (counters (push_paddings clock (length pads) [p] (push_paddings clock 0 pads base)))"
    by (intro push_paddings_keeps push_paddings_inv base) simp
  then have "\<exists>x \<in> set (psq_packetQueue (snd (psq_push (clock (length pads)) p (push_paddings clock 0 pads base)))).
      messageCounter x = - 1"
    by (auto simp: counters_def)
  moreover have "\<not> fst (psq_push now late (after_pop g q'))"
    if "popped g q' = Some (x, f)" "messageCounter x = - 1" for g q' f x now late
    using jb.late_after_pop [of "(g, q')" x f late now] that
      jb.push_late [of late "snd (hq_pop (g, q'))" now] jb.pop_newest [of "(g, q')" x f]
    by (simp add: hq_pop_simps hq_push_simps)
  ultimately show ?thesis using st(2) by blast
qed

lemma client_padding_wraps_witness:
  "\<exists>c' :: client_state. \<exists>q. cl_queue c' = Some q \<and> (\<exists>x \<in> set (psq_packetQueue q). messageCounter x = - 1)"
proof -
  obtain pads h' where st: "padding_stack 12 sample_heap (sample_audio 10) [] = Some (pads, h')"
    using padding_stack_spec [of sample_heap "sample_audio 10" 12 "[]"] by auto
  then obtain r c' where p: "cl_push (\<lambda>i. 0) (sample_audio 10) 12 sample_heap (cl_new ''a'') = Some (r, h', c')"
    by (auto simp: cl_push_Some cl_paddings_def cl_new_def)
  have "\<exists>q. cl_queue c' = Some q \<and> (\<exists>x \<in> set (psq_packetQueue q). messageCounter x = - 1)
    \<and> (\<forall>g q' f x now late. popped g q' = Some (x, f) \<and> messageCounter x = - 1
         \<longrightarrow> \<not> fst (psq_push now late (after_pop g q')))"
    by (rule client_padding_wraps [OF p]) (simp_all add: cl_new_def)
  then show ?thesis by blast
qed

end
