(* ===== verification/Server_Mixer.thy ===== *)
theory Server_Mixer
  imports Packet Buffers_Config
begin

text \<open>
  \<open>Server/Source/ServerMixerCore.cpp\<close>: one synchronous mixing step. Every client whose packet is in
  the step receives a stereo mix of all clients, routed by the channel targets, the other clients'
  channel setups, and the tempo and transport signal of the step. The sample operation of
  \<open>AudioBuffer::addFrom\<close> is the parameter \<open>mac\<close>: the new destination sample for the old one, the
  source sample and the gain.
\<close>

section \<open>Data\<close>

record outgoing_package =
  og_targetAddress :: string
  og_audioBlock :: audio_block
  og_sessionSetup :: channel_setup
  og_receiverProtocolVersion :: u16

record mix_step_result =
  ms_serverTime :: u64
  ms_outgoing :: "outgoing_package list"
  ms_diagnostics :: "string list"

record mixer_core =
  mx_serverTime :: u64
  mx_lastBpm :: fl
  mx_mixdownSetup :: channel_setup

type_synonym server_input_packets = "(string \<times> audio_data) list"

definition mixer_new :: "channel_setup \<Rightarrow> mixer_core" where
  "mixer_new mixdownSetup = \<lparr>mx_serverTime = 0, mx_lastBpm = FFin 120, mx_mixdownSetup = mixdownSetup\<rparr>"

section \<open>bufferMixdown\<close>

text \<open>\<open>output.addFrom(dest, 0, source, channel, 0, numSamples, gain)\<close> for rows of equal length.\<close>

definition buf_addFrom ::
  "(real \<Rightarrow> real \<Rightarrow> real \<Rightarrow> real) \<Rightarrow> nat \<Rightarrow> audio_buffer \<Rightarrow> nat \<Rightarrow> real \<Rightarrow> audio_buffer \<Rightarrow> audio_buffer" where
  "buf_addFrom mac dest source channel gain output =
     output\<lparr>buf_channels := (buf_channels output)
       [dest := map2 (\<lambda>d s. mac d s gain) (buf_channels output ! dest) (buf_channels source ! channel)]\<rparr>"

text \<open>
  The \<open>switch\<close> over the target of one channel. The three \<open>Send\<close> targets leave the switch for the
  sender and fall through to their plain counterpart otherwise; a byte that names no target does
  nothing.
\<close>

definition mix_channel ::
  "(real \<Rightarrow> real \<Rightarrow> real \<Rightarrow> real) \<Rightarrow> bool \<Rightarrow> bool \<Rightarrow> audio_buffer \<Rightarrow> nat \<Rightarrow> single_channel_setup
    \<Rightarrow> audio_buffer \<Rightarrow> audio_buffer" where
  "mix_channel mac isForSender wantsEcho audio channel setup output =
     (let left = (\<lambda>o'. if \<not> isForSender \<or> wantsEcho then buf_addFrom mac 0 audio channel (sc_volume setup) o' else o');
          right = (\<lambda>o'. if \<not> isForSender \<or> wantsEcho then buf_addFrom mac 1 audio channel (sc_volume setup) o' else o')
      in case target_of_u8 (sc_target setup) of
           None \<Rightarrow> output
         | Some Mute \<Rightarrow> output
         | Some SendLeft \<Rightarrow> (if isForSender then output else left output)
         | Some Left \<Rightarrow> left output
         | Some SendRight \<Rightarrow> (if isForSender then output else right output)
         | Some Right \<Rightarrow> right output
         | Some SendMono \<Rightarrow> (if isForSender then output else right (left output))
         | Some Mono \<Rightarrow> right (left output))"

text \<open>The loop over the channels to mix, from \<open>channel\<close> on, for \<open>n\<close> more channels.\<close>

fun mix_channels ::
  "(real \<Rightarrow> real \<Rightarrow> real \<Rightarrow> real) \<Rightarrow> bool \<Rightarrow> channel_setup \<Rightarrow> audio_buffer \<Rightarrow> nat \<Rightarrow> nat \<Rightarrow> audio_buffer \<Rightarrow> audio_buffer" where
  "mix_channels mac isForSender setup audio channel 0 output = output"
| "mix_channels mac isForSender setup audio channel (Suc n) output =
     mix_channels mac isForSender setup audio (channel + 1) n
       (mix_channel mac isForSender (\<not> cs_dontSendEcho setup) audio channel (cs_channels setup ! channel) output)"

definition load_audio :: "heap \<Rightarrow> audio_data \<Rightarrow> audio_buffer option" where
  "load_audio h p = Option.bind (audioBuffer p) (mem h)"

definition channel_count_diagnostic :: "nat \<Rightarrow> nat \<Rightarrow> string" where
  "channel_count_diagnostic sent declared =
     ''Error: A client sent '' @ decimal sent @ '' audio channels but declared '' @ decimal declared
       @ '' channel setups''"

definition buffer_size_diagnostic :: "nat \<Rightarrow> nat \<Rightarrow> string" where
  "buffer_size_diagnostic got expected =
     ''Error: A client uses wrong buffer size of '' @ decimal got @ '' instead of '' @ decimal expected"

definition no_channels_diagnostic :: string where
  "no_channels_diagnostic = ''Got audio block with no channels, somebody needs to setup his interface''"

definition channels_to_mix :: "audio_data \<Rightarrow> audio_buffer \<Rightarrow> nat" where
  "channels_to_mix p audio = min (buf_numChannels audio) (length (cs_channels (ad_channelSetup p)))"

text \<open>\<open>None\<close> is the dereference of a null audio buffer.\<close>

definition bufferMixdown ::
  "(real \<Rightarrow> real \<Rightarrow> real \<Rightarrow> real) \<Rightarrow> heap \<Rightarrow> audio_buffer \<Rightarrow> audio_data \<Rightarrow> bool \<Rightarrow> string list
    \<Rightarrow> (audio_buffer \<times> string list) option" where
  "bufferMixdown mac h output audioData isForSender diagnostics =
     (case load_audio h audioData of
        None \<Rightarrow> None
      | Some audio \<Rightarrow>
          (let d1 = (if buf_numChannels audio = 0 then diagnostics @ [no_channels_diagnostic] else diagnostics)
           in if buf_numSamples audio \<noteq> buf_numSamples output
              then Some (output, d1 @ [buffer_size_diagnostic (buf_numSamples audio) (buf_numSamples output)])
              else
                (let setup = ad_channelSetup audioData;
                     d2 = (if buf_numChannels audio \<noteq> length (cs_channels setup)
                           then d1 @ [channel_count_diagnostic (buf_numChannels audio) (length (cs_channels setup))]
                           else d1)
                 in Some (mix_channels mac isForSender setup audio 0 (channels_to_mix audioData audio) output, d2))))"

section \<open>mix\<close>

text \<open>The locals of the body of the outer loop.\<close>

record mix_acc =
  ma_output :: audio_buffer
  ma_sessionSetup :: channel_setup
  ma_maximumBpm :: fl
  ma_midiSignal :: u8
  ma_diagnostics :: "string list"

definition combine_midi :: "u8 \<Rightarrow> u8 \<Rightarrow> u8" where
  "combine_midi incoming midiSignal =
     (let m = (if incoming = MidiSignal_Start \<and> midiSignal = MidiSignal_None then MidiSignal_Start else midiSignal)
      in if incoming = MidiSignal_Stop then MidiSignal_Stop else m)"

fun mix_inner ::
  "(real \<Rightarrow> real \<Rightarrow> real \<Rightarrow> real) \<Rightarrow> heap \<Rightarrow> string \<Rightarrow> server_input_packets \<Rightarrow> mix_acc \<Rightarrow> mix_acc option" where
  "mix_inner mac h receiver [] acc = Some acc"
| "mix_inner mac h receiver ((name, client) # rest) acc =
     (case bufferMixdown mac h (ma_output acc) client (name = receiver) (ma_diagnostics acc) of
        None \<Rightarrow> None
      | Some (output, diagnostics) \<Rightarrow>
          mix_inner mac h receiver rest
            \<lparr>ma_output = output,
             ma_sessionSetup = (if name \<noteq> receiver
               then (ma_sessionSetup acc)\<lparr>cs_channels := cs_channels (ma_sessionSetup acc) @ cs_channels (ad_channelSetup client)\<rparr>
               else ma_sessionSetup acc),
             ma_maximumBpm = fl_max (ma_maximumBpm acc) (ad_bpm client),
             ma_midiSignal = combine_midi (ad_midiSignal client) (ma_midiSignal acc),
             ma_diagnostics = diagnostics\<rparr>)"

definition mix_start :: "nat \<Rightarrow> string list \<Rightarrow> mix_acc" where
  "mix_start bufferLength diagnostics =
     \<lparr>ma_output = buf_silent 2 bufferLength, ma_sessionSetup = new_channel_setup False,
      ma_maximumBpm = FFin 0, ma_midiSignal = MidiSignal_None, ma_diagnostics = diagnostics\<rparr>"

definition outgoing_for ::
  "mixer_core \<Rightarrow> string \<Rightarrow> audio_data \<Rightarrow> mix_acc \<Rightarrow> nat \<Rightarrow> outgoing_package" where
  "outgoing_for m name receiver acc buffer =
     \<lparr>og_targetAddress = name,
      og_audioBlock =
        \<lparr>ab_timestamp = ad_timestamp receiver, ab_messageCounter = messageCounter receiver,
         ab_serverTime = mx_serverTime m, ab_bpm = mx_lastBpm m, ab_midiSignal = ma_midiSignal acc,
         ab_sampleRate = of_nat SAMPLE_RATE, ab_channelSetup = mx_mixdownSetup m, ab_audioBuffer = Some buffer\<rparr>,
      og_sessionSetup = ma_sessionSetup acc,
      og_receiverProtocolVersion = ad_protocolVersion receiver\<rparr>"

definition update_tempo :: "fl \<Rightarrow> mixer_core \<Rightarrow> mixer_core" where
  "update_tempo maximumBpm m = (if fl_less (FFin 0) maximumBpm then m\<lparr>mx_lastBpm := maximumBpm\<rparr> else m)"

fun mix_outer ::
  "(real \<Rightarrow> real \<Rightarrow> real \<Rightarrow> real) \<Rightarrow> nat \<Rightarrow> server_input_packets \<Rightarrow> server_input_packets
    \<Rightarrow> heap \<Rightarrow> mixer_core \<Rightarrow> mix_step_result \<Rightarrow> (mix_step_result \<times> heap \<times> mixer_core) option" where
  "mix_outer mac len incoming [] h m result = Some (result, h, m)"
| "mix_outer mac len incoming ((name, receiver) # rest) h m result =
     (case mix_inner mac h name incoming (mix_start len (ms_diagnostics result)) of
        None \<Rightarrow> None
      | Some acc \<Rightarrow>
          (let m' = update_tempo (ma_maximumBpm acc) m;
               (buffer, h') = heap_alloc (ma_output acc) h
           in mix_outer mac len incoming rest h' m'
                (result\<lparr>ms_outgoing := ms_outgoing result @ [outgoing_for m' name receiver acc buffer],
                        ms_diagnostics := ma_diagnostics acc\<rparr>)))"

definition mixer_mix ::
  "(real \<Rightarrow> real \<Rightarrow> real \<Rightarrow> real) \<Rightarrow> server_input_packets \<Rightarrow> heap \<Rightarrow> mixer_core
    \<Rightarrow> (mix_step_result \<times> heap \<times> mixer_core) option" where
  "mixer_mix mac incoming h m =
     (case incoming of
        [] \<Rightarrow> Some (\<lparr>ms_serverTime = mx_serverTime m, ms_outgoing = [], ms_diagnostics = []\<rparr>, h, m)
      | (name, first) # rest \<Rightarrow>
          (case load_audio h first of
             None \<Rightarrow> None
           | Some firstAudio \<Rightarrow>
               (let bufferLength = buf_numSamples firstAudio;
                    m' = m\<lparr>mx_serverTime := mx_serverTime m + word_of_nat bufferLength\<rparr>
                in mix_outer mac bufferLength incoming incoming h m'
                     \<lparr>ms_serverTime = mx_serverTime m', ms_outgoing = [], ms_diagnostics = []\<rparr>)))"

end
