(* ===== verification/Server_Mixer_Props.thy ===== *)
theory Server_Mixer_Props
  imports Server_Mixer
begin

text \<open>
  What a mixing step computes: each output sample is the sum of the routed, scaled input samples, the
  tempo and transport signal are those of the whole step, and each receiver learns of the others'
  channels only. The sum needs that \<open>addFrom\<close> adds (hypothesis \<open>adds\<close>), which is the documented
  effect of the call.
\<close>

definition adds :: "(real \<Rightarrow> real \<Rightarrow> real \<Rightarrow> real) \<Rightarrow> bool" where
  "adds mac \<longleftrightarrow> (\<forall>d s g. mac d s g = d + s * g)"

section \<open>The specification\<close>

definition routed :: "bool \<Rightarrow> bool \<Rightarrow> u8 \<Rightarrow> nat \<Rightarrow> bool" where
  "routed isForSender wantsEcho target side =
     (let heard = (\<not> isForSender \<or> wantsEcho)
      in case target_of_u8 target of
           None \<Rightarrow> False
         | Some Mute \<Rightarrow> False
         | Some Left \<Rightarrow> side = 0 \<and> heard
         | Some Right \<Rightarrow> side = 1 \<and> heard
         | Some Mono \<Rightarrow> side \<le> 1 \<and> heard
         | Some SendLeft \<Rightarrow> side = 0 \<and> \<not> isForSender
         | Some SendRight \<Rightarrow> side = 1 \<and> \<not> isForSender
         | Some SendMono \<Rightarrow> side \<le> 1 \<and> \<not> isForSender)"

definition channel_part :: "bool \<Rightarrow> channel_setup \<Rightarrow> audio_buffer \<Rightarrow> nat \<Rightarrow> nat \<Rightarrow> nat \<Rightarrow> real" where
  "channel_part isForSender setup audio ch side i =
     (if routed isForSender (\<not> cs_dontSendEcho setup) (sc_target (cs_channels setup ! ch)) side
      then buf_channels audio ! ch ! i * sc_volume (cs_channels setup ! ch) else 0)"

definition client_part :: "heap \<Rightarrow> nat \<Rightarrow> string \<Rightarrow> string \<times> audio_data \<Rightarrow> nat \<Rightarrow> nat \<Rightarrow> real" where
  "client_part h len receiver client side i =
     (case load_audio h (snd client) of
        None \<Rightarrow> 0
      | Some audio \<Rightarrow>
          if buf_numSamples audio \<noteq> len then 0
          else (\<Sum>ch < channels_to_mix (snd client) audio.
                  channel_part (fst client = receiver) (ad_channelSetup (snd client)) audio ch side i))"

definition mix_sample :: "heap \<Rightarrow> nat \<Rightarrow> server_input_packets \<Rightarrow> string \<Rightarrow> nat \<Rightarrow> nat \<Rightarrow> real" where
  "mix_sample h len incoming receiver side i = (\<Sum>client \<leftarrow> incoming. client_part h len receiver client side i)"

definition stereo :: "nat \<Rightarrow> audio_buffer \<Rightarrow> bool" where
  "stereo n b \<longleftrightarrow> buf_numSamples b = n \<and> length (buf_channels b) = 2 \<and> buffer_wf b"

lemma stereo_silent [simp]: "stereo n (buf_silent 2 n)"
  by (simp add: stereo_def buffer_wf_def)

lemma stereo_row: "stereo n b \<Longrightarrow> side < 2 \<Longrightarrow> length (buf_channels b ! side) = n"
  using nth_mem by (fastforce simp: stereo_def buffer_wf_def)

section \<open>One channel\<close>

lemma addFrom_stereo:
  assumes "stereo n out" and "length (buf_channels audio ! ch) = n"
  shows "stereo n (buf_addFrom mac d audio ch g out)"
proof -
  have "length r = n" if "r \<in> set ((buf_channels out)[d := map2 (\<lambda>x s. mac x s g) (buf_channels out ! d) (buf_channels audio ! ch)])" for r
  proof (cases "d < 2")
    case True
    have "r \<in> insert (map2 (\<lambda>x s. mac x s g) (buf_channels out ! d) (buf_channels audio ! ch)) (set (buf_channels out))"
      using that set_update_subset_insert by fastforce
    then show ?thesis
      using assms True stereo_row [OF assms(1) True] by (auto simp: stereo_def buffer_wf_def)
  next
    case False
    then show ?thesis using assms that by (auto simp: stereo_def buffer_wf_def list_update_beyond)
  qed
  then show ?thesis
    using assms(1) by (auto simp: stereo_def buffer_wf_def buf_addFrom_def)
qed

lemma addFrom_sample:
  assumes "adds mac" and "stereo n out" and "length (buf_channels audio ! ch) = n" and "i < n" and "d < 2"
  shows "buf_channels (buf_addFrom mac d audio ch g out) ! side ! i
    = buf_channels out ! side ! i + (if side = d then buf_channels audio ! ch ! i * g else 0)"
  using assms stereo_row [OF assms(2), of d]
  by (auto simp: buf_addFrom_def adds_def stereo_def nth_list_update)

lemma mix_channel_stereo:
  assumes "stereo n out" and "length (buf_channels audio ! ch) = n"
  shows "stereo n (mix_channel mac isForSender echo audio ch setup out)"
  using assms
  by (auto simp: mix_channel_def Let_def addFrom_stereo split: option.splits channel_target.splits)

lemma mix_channel_sample:
  assumes "adds mac" and "stereo n out" and "length (buf_channels audio ! ch) = n" and "i < n"
  shows "buf_channels (mix_channel mac isForSender echo audio ch setup out) ! side ! i
    = buf_channels out ! side ! i
      + (if routed isForSender echo (sc_target setup) side then buf_channels audio ! ch ! i * sc_volume setup else 0)"
proof -
  note add = addFrom_sample [OF assms(1) _ assms(3,4)] addFrom_stereo [OF _ assms(3)]
  show ?thesis
    using assms(2)
    by (auto simp: mix_channel_def routed_def Let_def add le_Suc_eq split: option.splits channel_target.splits)
qed

lemma mix_channels_spec:
  assumes "adds mac" and "\<And>k. k < ch + n \<Longrightarrow> length (buf_channels audio ! k) = len"
  shows "stereo len out \<Longrightarrow>
     stereo len (mix_channels mac isForSender cset audio ch n out)
     \<and> (\<forall>side i. i < len \<longrightarrow> buf_channels (mix_channels mac isForSender cset audio ch n out) ! side ! i
          = buf_channels out ! side ! i + (\<Sum>k \<in> {ch..<ch + n}. channel_part isForSender cset audio k side i))"
  using assms(2)
proof (induction n arbitrary: ch out)
  case (Suc n)
  define out' where "out' = mix_channel mac isForSender (\<not> cs_dontSendEcho cset) audio ch (cs_channels cset ! ch) out"
  have row: "length (buf_channels audio ! ch) = len" using Suc.prems(2) by simp
  have st: "stereo len out'" unfolding out'_def by (rule mix_channel_stereo [OF Suc.prems(1) row])
  have one: "buf_channels out' ! side ! i = buf_channels out ! side ! i + channel_part isForSender cset audio ch side i"
    if "i < len" for side i
    unfolding out'_def channel_part_def using mix_channel_sample [OF assms(1) Suc.prems(1) row that] by simp
  have "(\<Sum>k \<in> {ch..<ch + Suc n}. channel_part isForSender cset audio k side i)
      = channel_part isForSender cset audio ch side i
        + (\<Sum>k \<in> {Suc ch..<Suc ch + n}. channel_part isForSender cset audio k side i)" for side i
    by (simp add: sum.atLeast_Suc_lessThan)
  then show ?case
    using Suc.IH [of out' "Suc ch"] Suc.prems st one by (simp add: out'_def)
qed simp

section \<open>One receiver\<close>

definition packets_wf :: "heap \<Rightarrow> server_input_packets \<Rightarrow> bool" where
  "packets_wf h incoming \<longleftrightarrow>
     (\<forall>(name, p) \<in> set incoming. \<exists>b. load_audio h p = Some b \<and> buffer_wf b)"

lemma bufferMixdown_spec:
  assumes "adds mac" and "load_audio h p = Some b" and "buffer_wf b" and st: "stereo len out"
  shows "\<exists>out' d. bufferMixdown mac h out p (name = receiver) diag = Some (out', d) \<and> stereo len out'
    \<and> (\<forall>side i. i < len \<longrightarrow> buf_channels out' ! side ! i
         = buf_channels out ! side ! i + client_part h len receiver (name, p) side i)"
proof (cases "buf_numSamples b = len")
  case True
  have rows: "length (buf_channels b ! k) = len" if "k < 0 + channels_to_mix p b" for k
    using that assms(3) True nth_mem [of k "buf_channels b"]
    by (auto simp: channels_to_mix_def buf_numChannels_def buffer_wf_def)
  show ?thesis
    using mix_channels_spec [OF assms(1) rows st, where isForSender = "name = receiver" and cset = "ad_channelSetup p"] True assms(2) st
    by (auto simp: bufferMixdown_def Let_def client_part_def stereo_def lessThan_atLeast0)
next
  case False
  then show ?thesis
    using assms(2) st by (auto simp: bufferMixdown_def Let_def client_part_def stereo_def)
qed

definition step_bpm :: "server_input_packets \<Rightarrow> fl" where
  "step_bpm incoming = foldl (\<lambda>m c. fl_max m (ad_bpm (snd c))) (FFin 0) incoming"

definition step_midi :: "server_input_packets \<Rightarrow> u8" where
  "step_midi incoming = foldl (\<lambda>m c. combine_midi (ad_midiSignal (snd c)) m) MidiSignal_None incoming"

definition others_channels :: "string \<Rightarrow> server_input_packets \<Rightarrow> single_channel_setup list" where
  "others_channels receiver incoming =
     concat (map (\<lambda>c. cs_channels (ad_channelSetup (snd c))) (filter (\<lambda>c. fst c \<noteq> receiver) incoming))"

lemma packets_wf_Cons [simp]:
  "packets_wf h ((name, p) # ps) \<longleftrightarrow> (\<exists>b. load_audio h p = Some b \<and> buffer_wf b) \<and> packets_wf h ps"
  by (auto simp: packets_wf_def)

lemma mix_inner_spec:
  assumes "adds mac"
  shows "packets_wf h ps \<Longrightarrow> stereo len (ma_output acc) \<Longrightarrow>
    \<exists>acc'. mix_inner mac h receiver ps acc = Some acc' \<and> stereo len (ma_output acc')
      \<and> (\<forall>side i. i < len \<longrightarrow> buf_channels (ma_output acc') ! side ! i
           = buf_channels (ma_output acc) ! side ! i + mix_sample h len ps receiver side i)
      \<and> ma_sessionSetup acc' = (ma_sessionSetup acc)
           \<lparr>cs_channels := cs_channels (ma_sessionSetup acc) @ others_channels receiver ps\<rparr>
      \<and> ma_maximumBpm acc' = foldl (\<lambda>m c. fl_max m (ad_bpm (snd c))) (ma_maximumBpm acc) ps
      \<and> ma_midiSignal acc' = foldl (\<lambda>m c. combine_midi (ad_midiSignal (snd c)) m) (ma_midiSignal acc) ps"
proof (induction ps arbitrary: acc)
  case Nil
  then show ?case by (auto simp: mix_sample_def others_channels_def)
next
  case (Cons c ps)
  obtain name p where c: "c = (name, p)" by (cases c)
  obtain b where b: "load_audio h p = Some b" "buffer_wf b" and wf: "packets_wf h ps"
    using Cons.prems(1) by (auto simp: c)
  obtain out d where mixed: "bufferMixdown mac h (ma_output acc) p (name = receiver) (ma_diagnostics acc) = Some (out, d)"
    "stereo len out"
    "\<forall>side i. i < len \<longrightarrow> buf_channels out ! side ! i
       = buf_channels (ma_output acc) ! side ! i + client_part h len receiver (name, p) side i"
    using bufferMixdown_spec [OF assms b Cons.prems(2)] by blast
  define acc1 where "acc1 = \<lparr>ma_output = out,
      ma_sessionSetup = (if name \<noteq> receiver
        then (ma_sessionSetup acc)\<lparr>cs_channels := cs_channels (ma_sessionSetup acc) @ cs_channels (ad_channelSetup p)\<rparr>
        else ma_sessionSetup acc),
      ma_maximumBpm = fl_max (ma_maximumBpm acc) (ad_bpm p),
      ma_midiSignal = combine_midi (ad_midiSignal p) (ma_midiSignal acc), ma_diagnostics = d\<rparr>"
  have step: "mix_inner mac h receiver (c # ps) acc = mix_inner mac h receiver ps acc1"
    by (simp add: c mixed(1) acc1_def)
  have st: "stereo len (ma_output acc1)" by (simp add: acc1_def mixed(2))
  from Cons.IH [OF wf st] mixed(3) show ?case
    unfolding step by (auto simp: acc1_def c mix_sample_def others_channels_def)
qed

text \<open>What the step owes to one receiver.\<close>

definition mixed_for ::
  "heap \<Rightarrow> nat \<Rightarrow> server_input_packets \<Rightarrow> heap \<Rightarrow> mixer_core \<Rightarrow> string \<times> audio_data \<Rightarrow> outgoing_package \<Rightarrow> bool" where
  "mixed_for h len incoming h' m' receiver package \<longleftrightarrow>
     og_targetAddress package = fst receiver
     \<and> ab_messageCounter (og_audioBlock package) = messageCounter (snd receiver)
     \<and> ab_timestamp (og_audioBlock package) = ad_timestamp (snd receiver)
     \<and> og_receiverProtocolVersion package = ad_protocolVersion (snd receiver)
     \<and> ab_serverTime (og_audioBlock package) = mx_serverTime m'
     \<and> ab_bpm (og_audioBlock package) = mx_lastBpm m'
     \<and> ab_midiSignal (og_audioBlock package) = step_midi incoming
     \<and> cs_channels (og_sessionSetup package) = others_channels (fst receiver) incoming
     \<and> (\<exists>b. Option.bind (ab_audioBuffer (og_audioBlock package)) (mem h') = Some b \<and> stereo len b
          \<and> (\<forall>side < 2. \<forall>i < len. buf_channels b ! side ! i = mix_sample h len incoming (fst receiver) side i))"

lemma bind_mem_extend:
  "m1 \<subseteq>\<^sub>m m2 \<Longrightarrow> Option.bind a m1 = Some b \<Longrightarrow> Option.bind a m2 = Some b"
  by (cases a) (auto simp: map_le_def dom_def)

lemma mixed_for_extend:
  assumes m: "mixed_for h len incoming h1 m' r pkg" and le: "mem h1 \<subseteq>\<^sub>m mem h2"
  shows "mixed_for h len incoming h2 m' r pkg"
proof -
  obtain b where b: "Option.bind (ab_audioBuffer (og_audioBlock pkg)) (mem h1) = Some b" "stereo len b"
    "\<forall>side < 2. \<forall>i < len. buf_channels b ! side ! i = mix_sample h len incoming (fst r) side i"
    using m unfolding mixed_for_def by blast
  have "Option.bind (ab_audioBuffer (og_audioBlock pkg)) (mem h2) = Some b"
    by (rule bind_mem_extend [OF le b(1)])
  then show ?thesis using m b(2,3) by (simp add: mixed_for_def)
qed

lemma packets_wf_load:
  "packets_wf h ps \<Longrightarrow> c \<in> set ps \<Longrightarrow> \<exists>b. load_audio h (snd c) = Some b \<and> buffer_wf b"
  by (cases c) (fastforce simp: packets_wf_def)

lemma load_audio_extend: "mem h \<subseteq>\<^sub>m mem h1 \<Longrightarrow> load_audio h p = Some b \<Longrightarrow> load_audio h1 p = Some b"
  unfolding load_audio_def by (rule bind_mem_extend)

lemma packets_wf_extend:
  assumes "packets_wf h ps" and "mem h \<subseteq>\<^sub>m mem h1"
  shows "packets_wf h1 ps" and "mix_sample h1 len ps receiver side i = mix_sample h len ps receiver side i"
proof -
  show "packets_wf h1 ps"
    using assms load_audio_extend [OF assms(2)] unfolding packets_wf_def by blast
  have "client_part h1 len receiver c side i = client_part h len receiver c side i" if c: "c \<in> set ps" for c
  proof -
    obtain b where "load_audio h (snd c) = Some b" using packets_wf_load [OF assms(1) c] by blast
    then show ?thesis using load_audio_extend [OF assms(2)] by (simp add: client_part_def)
  qed
  then show "mix_sample h1 len ps receiver side i = mix_sample h len ps receiver side i"
    by (simp add: mix_sample_def cong: map_cong)
qed

lemma update_tempo_idem [simp]: "update_tempo B (update_tempo B m) = update_tempo B m"
  by (simp add: update_tempo_def)

lemma mix_outer_spec:
  assumes "adds mac" and "packets_wf h incoming"
  shows "heap_wf h1 \<Longrightarrow> mem h \<subseteq>\<^sub>m mem h1 \<Longrightarrow> update_tempo (step_bpm incoming) m = M \<Longrightarrow>
    list_all2 (mixed_for h len incoming h1 M) done_with (ms_outgoing result) \<Longrightarrow>
    \<exists>result' h' m'. mix_outer mac len incoming rest h1 m result = Some (result', h', m')
      \<and> list_all2 (mixed_for h len incoming h' M) (done_with @ rest) (ms_outgoing result')
      \<and> ms_serverTime result' = ms_serverTime result
      \<and> mem h1 \<subseteq>\<^sub>m mem h' \<and> heap_wf h' \<and> m' = (if rest = [] then m else M)"
proof (induction rest arbitrary: h1 m result done_with)
  case Nil
  then show ?case by auto
next
  case (Cons r rest)
  obtain name p where r: "r = (name, p)" by (cases r)
  note wf1 = packets_wf_extend [OF assms(2) Cons.prems(2)]
  obtain acc where acc: "mix_inner mac h1 name incoming (mix_start len (ms_diagnostics result)) = Some acc"
    "stereo len (ma_output acc)"
    "\<forall>side i. i < len \<longrightarrow> buf_channels (ma_output acc) ! side ! i
       = buf_channels (buf_silent 2 len) ! side ! i + mix_sample h len incoming name side i"
    "cs_channels (ma_sessionSetup acc) = others_channels name incoming"
    "ma_maximumBpm acc = step_bpm incoming" "ma_midiSignal acc = step_midi incoming"
    using mix_inner_spec [OF assms(1) wf1(1), of len "mix_start len (ms_diagnostics result)" name] wf1(2)
    by (auto simp: mix_start_def step_bpm_def step_midi_def new_channel_setup_def)
  define h2 where "h2 = snd (heap_alloc (ma_output acc) h1)"
  define pkg where "pkg = outgoing_for M name p acc (next_addr h1)"
  define result2 where "result2 = result\<lparr>ms_outgoing := ms_outgoing result @ [pkg], ms_diagnostics := ma_diagnostics acc\<rparr>"
  have step: "mix_outer mac len incoming (r # rest) h1 m result = mix_outer mac len incoming rest h2 M result2"
    using Cons.prems(3) by (simp add: r acc(1,5) h2_def result2_def pkg_def Let_def split_beta)
  have le: "mem h1 \<subseteq>\<^sub>m mem h2"
    using heap_wf_fresh [OF Cons.prems(1)] by (auto simp: h2_def map_le_def)
  have "mixed_for h len incoming h2 M r pkg"
    using acc by (simp add: mixed_for_def r pkg_def outgoing_for_def h2_def)
  then have all: "list_all2 (mixed_for h len incoming h2 M) (done_with @ [r]) (ms_outgoing result2)"
    using Cons.prems(4) mixed_for_extend [OF _ le]
    by (auto simp: result2_def intro!: list_all2_appendI elim: list_all2_mono)
  have "update_tempo (step_bpm incoming) M = M" using Cons.prems(3) by auto
  have "heap_wf h2" unfolding h2_def by (rule heap_wf_alloc [OF Cons.prems(1)])
  from Cons.IH [OF this map_le_trans [OF Cons.prems(2) le] \<open>update_tempo (step_bpm incoming) M = M\<close> all]
  obtain result' h' where "mix_outer mac len incoming rest h2 M result2 = Some (result', h', M)"
    "list_all2 (mixed_for h len incoming h' M) ((done_with @ [r]) @ rest) (ms_outgoing result')"
    "ms_serverTime result' = ms_serverTime result2" "mem h2 \<subseteq>\<^sub>m mem h'" "heap_wf h'"
    by (metis (full_types))
  then show ?case
    unfolding step using map_le_trans [OF le] by (auto simp: result2_def)
qed

section \<open>The whole step\<close>

lemma mixer_mix_spec:
  assumes "adds mac" and "packets_wf h incoming" and "heap_wf h"
    and "incoming = (name, first) # rest" and "load_audio h first = Some b"
  shows "\<exists>r h' m'. mixer_mix mac incoming h m = Some (r, h', m')
    \<and> list_all2 (mixed_for h (buf_numSamples b) incoming h' m') incoming (ms_outgoing r)
    \<and> mx_serverTime m' = mx_serverTime m + word_of_nat (buf_numSamples b)
    \<and> ms_serverTime r = mx_serverTime m'
    \<and> mx_lastBpm m' = (if fl_less (FFin 0) (step_bpm incoming) then step_bpm incoming else mx_lastBpm m)
    \<and> mem h \<subseteq>\<^sub>m mem h' \<and> heap_wf h'"
proof -
  define m1 where "m1 = m\<lparr>mx_serverTime := mx_serverTime m + word_of_nat (buf_numSamples b)\<rparr>"
  define r0 where "r0 = \<lparr>ms_serverTime = mx_serverTime m1, ms_outgoing = [], ms_diagnostics = []\<rparr>"
  have mix: "mixer_mix mac incoming h m = mix_outer mac (buf_numSamples b) incoming incoming h m1 r0"
    using assms(4,5) by (simp add: mixer_mix_def m1_def r0_def Let_def del: mix_outer.simps)
  have "list_all2 (mixed_for h (buf_numSamples b) incoming h (update_tempo (step_bpm incoming) m1)) [] (ms_outgoing r0)"
    by (simp add: r0_def)
  from mix_outer_spec [OF assms(1,2,3) map_le_refl refl this, of incoming] obtain r h' where
    "mix_outer mac (buf_numSamples b) incoming incoming h m1 r0 = Some (r, h', update_tempo (step_bpm incoming) m1)"
    "list_all2 (mixed_for h (buf_numSamples b) incoming h' (update_tempo (step_bpm incoming) m1)) incoming (ms_outgoing r)"
    "ms_serverTime r = ms_serverTime r0" "mem h \<subseteq>\<^sub>m mem h'" "heap_wf h'"
    using assms(4) by auto
  then show ?thesis
    unfolding mix by (auto simp: update_tempo_def m1_def r0_def)
qed

lemma step_midi_cases:
  "foldl (\<lambda>m c. combine_midi (ad_midiSignal (snd c)) m) s ps =
     (if s = MidiSignal_Stop \<or> (\<exists>c \<in> set ps. ad_midiSignal (snd c) = MidiSignal_Stop) then MidiSignal_Stop
      else if s = MidiSignal_None \<and> (\<exists>c \<in> set ps. ad_midiSignal (snd c) = MidiSignal_Start) then MidiSignal_Start
      else s)"
  by (induction ps arbitrary: s) (auto simp: combine_midi_def)

lemma step_bpm_bound:
  "foldl (\<lambda>m c. fl_max m (ad_bpm (snd c))) s ps = s
   \<or> (\<exists>c \<in> set ps. foldl (\<lambda>m c. fl_max m (ad_bpm (snd c))) s ps = ad_bpm (snd c))"
proof (induction ps arbitrary: s)
  case (Cons c ps)
  then show ?case using Cons.IH [of "fl_max s (ad_bpm (snd c))"] by (auto simp: fl_max_def split: if_splits)
qed simp

lemma update_tempo_positive:
  "fl_less (FFin 0) (mx_lastBpm m) \<Longrightarrow> fl_less (FFin 0) (mx_lastBpm (update_tempo B m))"
  by (simp add: update_tempo_def)

lemma mix_outer_tempo:
  "mix_outer mac len incoming rest h m result = Some (r, h', m') \<Longrightarrow>
   fl_less (FFin 0) (mx_lastBpm m) \<Longrightarrow> fl_less (FFin 0) (mx_lastBpm m')"
proof (induction rest arbitrary: h m result)
  case (Cons c rest)
  obtain name p where c: "c = (name, p)" by (cases c)
  obtain acc where "mix_inner mac h name incoming (mix_start len (ms_diagnostics result)) = Some acc"
    using Cons.prems(1) by (auto simp: c split: option.splits)
  then show ?case
    using Cons.IH [OF _ update_tempo_positive [OF Cons.prems(2)]] Cons.prems(1)
    by (simp add: c Let_def split_beta)
qed simp

lemma mix_sample_without_own:
  assumes "(name, p) \<in> set incoming" and "distinct (map fst incoming)"
    and "cs_dontSendEcho (ad_channelSetup p)
      \<or> (\<forall>c \<in> set (cs_channels (ad_channelSetup p)).
           target_of_u8 (sc_target c) \<in> {None, Some Mute, Some SendLeft, Some SendRight, Some SendMono})"
  shows "mix_sample h len incoming name side i = mix_sample h len (filter (\<lambda>c. fst c \<noteq> name) incoming) name side i"
proof -
  have own: "client_part h len name (name, p) side i = 0"
  proof -
    have "channel_part True (ad_channelSetup p) audio ch side i = 0"
      if ch: "ch < channels_to_mix p audio" for audio ch
    proof -
      have "cs_dontSendEcho (ad_channelSetup p)
          \<or> target_of_u8 (sc_target (cs_channels (ad_channelSetup p) ! ch))
              \<in> {None, Some Mute, Some SendLeft, Some SendRight, Some SendMono}"
        using assms(3) nth_mem [of ch "cs_channels (ad_channelSetup p)"] ch
        unfolding channels_to_mix_def min_less_iff_conj by blast
      then show ?thesis
        by (auto simp: channel_part_def routed_def Let_def split: option.splits channel_target.splits)
    qed
    then show ?thesis by (auto simp: client_part_def split: option.splits)
  qed
  have "client_part h len name c side i = 0" if "c \<in> set incoming" "fst c = name" for c
  proof -
    have "c = (name, snd c)" using that(2) by (cases c) simp
    moreover from this have "snd c = p"
      using that(1) assms(1) by (intro eq_key_imp_eq_value [OF assms(2)]) simp_all
    ultimately have "c = (name, p)" by simp
    then show ?thesis using own by simp
  qed
  then show ?thesis
    unfolding mix_sample_def
    by (induction incoming) auto
qed

section \<open>The properties\<close>

definition sample_packets :: server_input_packets where
  "sample_packets = [(''a'', audio_data_of_block
     (ad_audioBlock (make_audio_data 5 0
        (channel_setup_of True [single_channel (channel_target_code Left)]) 48000 (Some (FFin 90)) MidiSignal_Start (Some 0) None)) None)]"

definition sample_mono_heap :: heap where
  "sample_mono_heap = snd (heap_alloc \<lparr>buf_numSamples = 2, buf_channels = [[1, 1]]\<rparr> empty_heap)"

lemma sample_packets_wf [simp]:
  "packets_wf sample_mono_heap sample_packets" "heap_wf sample_mono_heap"
proof -
  show "packets_wf sample_mono_heap sample_packets"
    by (simp add: sample_packets_def sample_mono_heap_def packets_wf_def load_audio_def audioBuffer_def
        audio_data_of_block_def make_audio_data_def buffer_wf_def empty_heap_def)
  show "heap_wf sample_mono_heap" unfolding sample_mono_heap_def by (rule heap_wf_alloc) simp
qed

text \<open>
  C9: a mixing step with present, well formed audio always succeeds and gives every client whose
  packet is in it one package: addressed to it, with its own counter and time stamp, the new server
  time, the tempo and transport signal of the step, the other clients' channel setups, and a stereo
  buffer whose every sample is the sum of the samples routed to that side, each scaled by its volume.
\<close>

theorem mixer_mixes_for_every_client:
  assumes "adds mac" and "packets_wf h incoming" and "heap_wf h"
    and "incoming = (name, first) # rest" and "load_audio h first = Some b"
  shows "\<exists>r h' m'. mixer_mix mac incoming h m = Some (r, h', m')
    \<and> list_all2 (mixed_for h (buf_numSamples b) incoming h' m') incoming (ms_outgoing r)
    \<and> mx_serverTime m' = mx_serverTime m + word_of_nat (buf_numSamples b)"
  using mixer_mix_spec [OF assms] by blast

theorem mixer_mixes_for_every_client_witness:
  "\<exists>r h' m'. mixer_mix (\<lambda>d s g. d + s * g) sample_packets sample_mono_heap (mixer_new (new_channel_setup False))
      = Some (r, h', m')
    \<and> list_all2 (mixed_for sample_mono_heap 2 sample_packets h' m') sample_packets (ms_outgoing r)
    \<and> mx_serverTime m' = 2"
proof -
  have l: "load_audio sample_mono_heap (snd (hd sample_packets)) = Some \<lparr>buf_numSamples = 2, buf_channels = [[1, 1]]\<rparr>"
    by (simp add: sample_packets_def sample_mono_heap_def load_audio_def audioBuffer_def
        audio_data_of_block_def make_audio_data_def empty_heap_def)
  have "sample_packets = (''a'', snd (hd sample_packets)) # []" by (simp add: sample_packets_def)
  from mixer_mixes_for_every_client [OF _ sample_packets_wf this l, of "\<lambda>d s g. d + s * g"
      "mixer_new (new_channel_setup False)"]
  show ?thesis by (simp add: adds_def mixer_new_def)
qed

text \<open>
  C10: a client that monitors itself locally, or sends all its channels with the sending targets,
  never hears itself: the audio in the package it gets is the mix of the other clients' channels only.
\<close>

theorem mixer_no_own_echo:
  assumes "adds mac" and "packets_wf h incoming" and "heap_wf h"
    and "incoming = c0 # rest" and "load_audio h (snd c0) = Some b"
    and "(name, p) \<in> set incoming" and "distinct (map fst incoming)"
    and "cs_dontSendEcho (ad_channelSetup p)
      \<or> (\<forall>c \<in> set (cs_channels (ad_channelSetup p)).
           target_of_u8 (sc_target c) \<in> {None, Some Mute, Some SendLeft, Some SendRight, Some SendMono})"
  shows "\<exists>r h' m' package audio. mixer_mix mac incoming h m = Some (r, h', m')
    \<and> package \<in> set (ms_outgoing r) \<and> og_targetAddress package = name
    \<and> Option.bind (ab_audioBuffer (og_audioBlock package)) (mem h') = Some audio
    \<and> (\<forall>side < 2. \<forall>i < buf_numSamples b. buf_channels audio ! side ! i
          = mix_sample h (buf_numSamples b) (filter (\<lambda>c. fst c \<noteq> name) incoming) name side i)"
proof -
  have i: "incoming = (fst c0, snd c0) # rest" using assms(4) by simp
  obtain r h' m' where r: "mixer_mix mac incoming h m = Some (r, h', m')"
    "list_all2 (mixed_for h (buf_numSamples b) incoming h' m') incoming (ms_outgoing r)"
    using mixer_mix_spec [OF assms(1-3) i assms(5)] by blast
  obtain package where p: "package \<in> set (ms_outgoing r)"
    "mixed_for h (buf_numSamples b) incoming h' m' (name, p) package"
    using r(2) assms(6) by (fastforce simp: list_all2_conv_all_nth in_set_conv_nth)
  obtain audio where "Option.bind (ab_audioBuffer (og_audioBlock package)) (mem h') = Some audio"
    "\<forall>side < 2. \<forall>i < buf_numSamples b. buf_channels audio ! side ! i
        = mix_sample h (buf_numSamples b) (filter (\<lambda>c. fst c \<noteq> name) incoming) name side i"
    using p(2) mix_sample_without_own [OF assms(6-8)] unfolding mixed_for_def by auto
  moreover have "og_targetAddress package = name" using p(2) by (simp add: mixed_for_def)
  ultimately show ?thesis using r(1) p(1) by blast
qed

theorem mixer_no_own_echo_witness:
  "\<exists>r h' m' package audio. mixer_mix (\<lambda>d s g. d + s * g) sample_packets sample_mono_heap (mixer_new (new_channel_setup False))
      = Some (r, h', m')
    \<and> package \<in> set (ms_outgoing r) \<and> og_targetAddress package = ''a''
    \<and> Option.bind (ab_audioBuffer (og_audioBlock package)) (mem h') = Some audio
    \<and> buf_channels audio ! 0 ! 1 = 0"
proof -
  have l: "load_audio sample_mono_heap (snd (hd sample_packets)) = Some \<lparr>buf_numSamples = 2, buf_channels = [[1, 1]]\<rparr>"
    by (simp add: sample_packets_def sample_mono_heap_def load_audio_def audioBuffer_def
        audio_data_of_block_def make_audio_data_def empty_heap_def)
  have m: "(''a'', snd (hd sample_packets)) \<in> set sample_packets" "sample_packets = hd sample_packets # []"
    "distinct (map fst sample_packets)" "cs_dontSendEcho (ad_channelSetup (snd (hd sample_packets)))"
    "filter (\<lambda>c. fst c \<noteq> ''a'') sample_packets = []"
    by (simp_all add: sample_packets_def audio_data_of_block_def make_audio_data_def channel_setup_of_def ad_channelSetup_def)
  have adds: "adds (\<lambda>d s g. d + s * g)" by (simp add: adds_def)
  note mixer_no_own_echo [OF adds sample_packets_wf m(2) l m(1) m(3) disjI1 [OF m(4)],
      of "mixer_new (new_channel_setup False)", unfolded m(5)]
  then
  obtain r h' m' package audio where x: "mixer_mix (\<lambda>d s g. d + s * g) sample_packets sample_mono_heap
        (mixer_new (new_channel_setup False)) = Some (r, h', m')"
      "package \<in> set (ms_outgoing r)" "og_targetAddress package = ''a''"
      "Option.bind (ab_audioBuffer (og_audioBlock package)) (mem h') = Some audio"
      "\<forall>side < 2. \<forall>i < 2. buf_channels audio ! side ! i = 0"
    by (auto simp: mix_sample_def)
  show ?thesis
    by (intro exI conjI) (rule x(1), rule x(2), rule x(3), rule x(4), simp add: x(5) del: One_nat_def)
qed

text \<open>
  the transport signal of a step is the same for every receiver: a stop when any client stops,
  else a start when any client starts, else none, whatever the order of the clients; and the tempo sent
  is the largest positive one, or the last one when no client sends a positive tempo (a client that
  sends a value that is not a number is ignored).
\<close>

lemma mixer_transport:
  assumes "adds mac" and "packets_wf h incoming" and "heap_wf h"
    and "incoming = (name, first) # rest" and "load_audio h first = Some b"
  shows "\<exists>r h' m'. mixer_mix mac incoming h m = Some (r, h', m') \<and> (\<forall>package \<in> set (ms_outgoing r).
      ab_midiSignal (og_audioBlock package) =
        (if \<exists>c \<in> set incoming. ad_midiSignal (snd c) = MidiSignal_Stop then MidiSignal_Stop
         else if \<exists>c \<in> set incoming. ad_midiSignal (snd c) = MidiSignal_Start then MidiSignal_Start
         else MidiSignal_None)
      \<and> (ab_bpm (og_audioBlock package) = mx_lastBpm m
         \<or> (\<exists>c \<in> set incoming. ab_bpm (og_audioBlock package) = ad_bpm (snd c)
              \<and> fl_less (FFin 0) (ad_bpm (snd c)))))"
proof -
  obtain r h' m' where r: "mixer_mix mac incoming h m = Some (r, h', m')"
    "list_all2 (mixed_for h (buf_numSamples b) incoming h' m') incoming (ms_outgoing r)"
    "mx_lastBpm m' = (if fl_less (FFin 0) (step_bpm incoming) then step_bpm incoming else mx_lastBpm m)"
    using mixer_mix_spec [OF assms] by blast
  have bpm: "mx_lastBpm m' = mx_lastBpm m
      \<or> (\<exists>c \<in> set incoming. mx_lastBpm m' = ad_bpm (snd c) \<and> fl_less (FFin 0) (ad_bpm (snd c)))"
    using r(3) step_bpm_bound [of "FFin 0" incoming] by (auto simp: step_bpm_def split: if_splits)
  have "ab_midiSignal (og_audioBlock package) = step_midi incoming \<and> ab_bpm (og_audioBlock package) = mx_lastBpm m'"
    if "package \<in> set (ms_outgoing r)" for package
    using r(2) that by (auto simp: list_all2_conv_all_nth in_set_conv_nth mixed_for_def)
  moreover have "step_midi incoming = (if \<exists>c \<in> set incoming. ad_midiSignal (snd c) = MidiSignal_Stop then MidiSignal_Stop
         else if \<exists>c \<in> set incoming. ad_midiSignal (snd c) = MidiSignal_Start then MidiSignal_Start
         else MidiSignal_None)"
    unfolding step_midi_def step_midi_cases by simp
  ultimately show ?thesis using r(1) bpm by fastforce
qed

lemma mixer_transport_witness:
  "\<exists>r h' m'. mixer_mix (\<lambda>d s g. d + s * g) sample_packets sample_mono_heap (mixer_new (new_channel_setup False))
     = Some (r, h', m') \<and> (\<forall>package \<in> set (ms_outgoing r). ab_midiSignal (og_audioBlock package) = MidiSignal_Start)"
proof -
  have l: "load_audio sample_mono_heap (snd (hd sample_packets)) = Some \<lparr>buf_numSamples = 2, buf_channels = [[1, 1]]\<rparr>"
    by (simp add: sample_packets_def sample_mono_heap_def load_audio_def audioBuffer_def
        audio_data_of_block_def make_audio_data_def empty_heap_def)
  have "sample_packets = (''a'', snd (hd sample_packets)) # []" by (simp add: sample_packets_def)
  from mixer_transport [OF _ sample_packets_wf this l, of "\<lambda>d s g. d + s * g" "mixer_new (new_channel_setup False)"]
  show ?thesis
    by (auto simp: adds_def sample_packets_def audio_data_of_block_def make_audio_data_def ad_midiSignal_def)
qed

text \<open>
  once positive, the mixer's tempo stays positive, so no sequence of packets can make the server
  send a zero, negative or undefined tempo.
\<close>

lemma mixer_tempo_positive:
  assumes "mixer_mix mac incoming h m = Some (r, h', m')" and "fl_less (FFin 0) (mx_lastBpm m)"
  shows "fl_less (FFin 0) (mx_lastBpm m')"
proof (cases incoming)
  case Nil
  then show ?thesis using assms by (simp add: mixer_mix_def)
next
  case (Cons c rest)
  then show ?thesis
    using assms mix_outer_tempo [of mac _ incoming incoming h _ _ r h' m']
    by (cases c) (auto simp: mixer_mix_def Let_def simp del: mix_outer.simps split: option.splits)
qed

lemma mixer_tempo_positive_witness: "fl_less (FFin 0) (mx_lastBpm (mixer_new (new_channel_setup False)))"
  by (rule mixer_tempo_positive [where incoming = "[]" and m = "mixer_new (new_channel_setup False)"])
    (simp_all add: mixer_mix_def mixer_new_def)

end
