(* ===== verification/Mix_Scheduler.thy ===== *)
theory Mix_Scheduler
  imports Client_State_Props Server_Mixer_Props
begin

text \<open>
  \<open>Server/Source/ServerMixScheduler.cpp\<close>: one synchronous step of the mixer thread over all clients.
  The concurrent map of clients is the list of its entries in iteration order; an entry may hold a
  null pointer (\<open>None\<close>). The step is split as the code's three loops, so that the pushes of the accept
  thread can be interleaved between them.
\<close>

section \<open>Data\<close>

type_synonym client_bundle = "(string \<times> client_state option) list"

datatype server_mix_trigger =
  NoTrigger | SingleClient | AllClientsReady | MaximumBufferPressure | AllClientsReadyAndMaximumBufferPressure

record queue_observation =
  qo_state :: client_connection_state
  qo_size :: nat
  qo_generation :: u64

record scheduled_mix_result =
  sr_trigger :: server_mix_trigger
  sr_shouldWakeAgain :: bool
  sr_queuesBefore :: "(string \<times> queue_observation) list"
  sr_queuesAfter :: "(string \<times> queue_observation) list"
  sr_disconnectedClients :: "string list"
  sr_underrunClients :: "string list"
  sr_fillInClients :: "string list"
  sr_fastForwardedClients :: "(string \<times> fast_forward_result) list"
  sr_incoming :: server_input_packets
  sr_mix :: mix_step_result

definition no_mix :: mix_step_result where
  "no_mix = \<lparr>ms_serverTime = 0, ms_outgoing = [], ms_diagnostics = []\<rparr>"

definition empty_scheduled :: scheduled_mix_result where
  "empty_scheduled =
     \<lparr>sr_trigger = NoTrigger, sr_shouldWakeAgain = False, sr_queuesBefore = [], sr_queuesAfter = [],
      sr_disconnectedClients = [], sr_underrunClients = [], sr_fillInClients = [],
      sr_fastForwardedClients = [], sr_incoming = [], sr_mix = no_mix\<rparr>"

record mix_scheduler =
  sch_mixer :: mixer_core
  sch_config :: server_buffer_config

definition scheduler_new :: "channel_setup \<Rightarrow> server_buffer_config \<Rightarrow> mix_scheduler" where
  "scheduler_new mixdownSetup bufferConfig = \<lparr>sch_mixer = mixer_new mixdownSetup, sch_config = bufferConfig\<rparr>"

definition observe :: "client_queue_snapshot \<Rightarrow> queue_observation" where
  "observe s = \<lparr>qo_state = sn_state s, qo_size = sn_size s, qo_generation = sn_generation s\<rparr>"

definition maximum_depth :: "server_buffer_config \<Rightarrow> nat" where
  "maximum_depth cfg = nat (max 0 (serverIncomingMaximumBuffer cfg))"

definition target_depth :: "server_buffer_config \<Rightarrow> nat" where
  "target_depth cfg = min (maximum_depth cfg) (nat (max 0 (serverIncomingJitterBuffer cfg)))"

section \<open>The first loop: expiry, pressure relief, readiness\<close>

record relieve_acc =
  ra_result :: scheduled_mix_result
  ra_clientCount :: int
  ra_available :: int
  ra_queuesAfter :: "(string \<times> queue_observation) list"

definition relieve_client ::
  "server_buffer_config \<Rightarrow> timepoint \<Rightarrow> string \<Rightarrow> client_state \<Rightarrow> relieve_acc \<Rightarrow> client_state \<times> relieve_acc" where
  "relieve_client cfg now name c acc =
     (let (expired, c1) = cl_disconnectIfGraceExpired now c;
          r1 = (if expired then (ra_result acc)\<lparr>sr_disconnectedClients := sr_disconnectedClients (ra_result acc) @ [name]\<rparr>
                else ra_result acc);
          (pressure, c2) = cl_applyQueuePressure (maximum_depth cfg) (target_depth cfg) c1;
          r2 = r1\<lparr>sr_queuesBefore := smap_emplace name (observe (qp_before pressure)) (sr_queuesBefore r1)\<rparr>;
          snapshot = qp_after pressure;
          after = smap_emplace name (observe snapshot) (ra_queuesAfter acc)
      in if sn_state snapshot = Disconnected
         then (c2, acc\<lparr>ra_result := r2, ra_queuesAfter := after\<rparr>)
         else
           (let r3 = (if 0 < ff_discardedPackets (qp_fastForward pressure)
                      then r2\<lparr>sr_fastForwardedClients := smap_emplace name (qp_fastForward pressure) (sr_fastForwardedClients r2)\<rparr>
                      else r2)
            in (c2, acc\<lparr>ra_result := r3, ra_queuesAfter := after, ra_clientCount := ra_clientCount acc + 1,
                        ra_available := (if serverIncomingJitterBuffer cfg < int (sn_size snapshot)
                                         then ra_available acc + 1 else ra_available acc)\<rparr>)))"

fun relieve_clients ::
  "server_buffer_config \<Rightarrow> timepoint \<Rightarrow> client_bundle \<Rightarrow> relieve_acc \<Rightarrow> client_bundle \<times> relieve_acc" where
  "relieve_clients cfg now [] acc = ([], acc)"
| "relieve_clients cfg now ((name, None) # cs) acc =
     (let (cs', acc') = relieve_clients cfg now cs acc in ((name, None) # cs', acc'))"
| "relieve_clients cfg now ((name, Some c) # cs) acc =
     (let (c', acc1) = relieve_client cfg now name c acc;
          (cs', acc') = relieve_clients cfg now cs acc1
      in ((name, Some c') # cs', acc'))"

definition relieve_start :: relieve_acc where
  "relieve_start = \<lparr>ra_result = empty_scheduled, ra_clientCount = 0, ra_available = 0, ra_queuesAfter = []\<rparr>"

section \<open>The second loop: one packet of every client\<close>

definition pop_client ::
  "string \<Rightarrow> heap \<Rightarrow> client_state \<Rightarrow> scheduled_mix_result \<Rightarrow> (string \<times> u64) list
    \<Rightarrow> heap \<times> client_state \<times> scheduled_mix_result \<times> (string \<times> u64) list" where
  "pop_client name h c r observed =
     (let ((popped, generation), h', c') = cl_tryPop h c
      in case popped of
           Some (packet, isFillIn) \<Rightarrow>
             (let r1 = r\<lparr>sr_incoming := smap_emplace name packet (sr_incoming r)\<rparr>;
                  r2 = (if isFillIn then r1\<lparr>sr_fillInClients := sr_fillInClients r1 @ [name], sr_shouldWakeAgain := True\<rparr>
                        else r1)
              in (h', c', r2, observed))
         | None \<Rightarrow>
             if sn_state (cl_snapshot c') \<noteq> Disconnected
             then (h', c', r, smap_emplace name generation observed)
             else (h', c', r, observed))"

fun pop_clients ::
  "heap \<Rightarrow> client_bundle \<Rightarrow> scheduled_mix_result \<Rightarrow> (string \<times> u64) list
    \<Rightarrow> heap \<times> client_bundle \<times> scheduled_mix_result \<times> (string \<times> u64) list" where
  "pop_clients h [] r observed = (h, [], r, observed)"
| "pop_clients h ((name, None) # cs) r observed =
     (let (h', cs', r', observed') = pop_clients h cs r observed in (h', (name, None) # cs', r', observed'))"
| "pop_clients h ((name, Some c) # cs) r observed =
     (let (h1, c', r1, observed1) = pop_client name h c r observed;
          (h', cs', r', observed') = pop_clients h1 cs r1 observed1
      in (h', (name, Some c') # cs', r', observed'))"

section \<open>The third loop: marking underruns\<close>

definition mark_client ::
  "timepoint \<Rightarrow> (string \<times> u64) list \<Rightarrow> string \<Rightarrow> client_state \<Rightarrow> scheduled_mix_result \<Rightarrow> client_state \<times> scheduled_mix_result" where
  "mark_client now observed name c r =
     (let (marked, c') = (case map_of observed name of
                            None \<Rightarrow> (False, c)
                          | Some generation \<Rightarrow> cl_markUnderrun generation now c);
          r1 = (if marked then r\<lparr>sr_underrunClients := sr_underrunClients r @ [name]\<rparr> else r)
      in (c', r1\<lparr>sr_queuesAfter := smap_emplace name (observe (cl_snapshot c')) (sr_queuesAfter r1)\<rparr>))"

fun mark_clients ::
  "timepoint \<Rightarrow> (string \<times> u64) list \<Rightarrow> client_bundle \<Rightarrow> scheduled_mix_result \<Rightarrow> client_bundle \<times> scheduled_mix_result" where
  "mark_clients now observed [] r = ([], r)"
| "mark_clients now observed ((name, None) # cs) r =
     (let (cs', r') = mark_clients now observed cs r in ((name, None) # cs', r'))"
| "mark_clients now observed ((name, Some c) # cs) r =
     (let (c', r1) = mark_client now observed name c r;
          (cs', r') = mark_clients now observed cs r1
      in ((name, Some c') # cs', r'))"

section \<open>process\<close>

definition all_clients_ready :: "relieve_acc \<Rightarrow> bool" where
  "all_clients_ready acc \<longleftrightarrow> 0 < ra_clientCount acc \<and> ra_clientCount acc = ra_available acc"

definition mix_trigger :: "relieve_acc \<Rightarrow> server_mix_trigger" where
  "mix_trigger acc =
     (if ra_clientCount acc = 1 then SingleClient
      else if all_clients_ready acc then AllClientsReady else NoTrigger)"

text \<open>
  \<open>None\<close> is a null audio buffer reaching the mixer. The result holds the step's report, the heap, the
  clients and the scheduler.
\<close>

definition sched_process ::
  "(real \<Rightarrow> real \<Rightarrow> real \<Rightarrow> real) \<Rightarrow> timepoint \<Rightarrow> heap \<Rightarrow> client_bundle \<Rightarrow> mix_scheduler
    \<Rightarrow> (scheduled_mix_result \<times> heap \<times> client_bundle \<times> mix_scheduler) option" where
  "sched_process mac now h clients s =
     (let (clients1, acc) = relieve_clients (sch_config s) now clients relieve_start
      in if \<not> all_clients_ready acc \<and> 1 < ra_clientCount acc
         then Some ((ra_result acc)\<lparr>sr_trigger := NoTrigger, sr_queuesAfter := ra_queuesAfter acc\<rparr>, h, clients1, s)
         else
           (let r1 = (ra_result acc)\<lparr>sr_trigger := mix_trigger acc\<rparr>;
                (h2, clients2, r2, observed) = pop_clients h clients1 r1 [];
                (clients3, r3) = mark_clients now observed clients2 r2
            in case mixer_mix mac (sr_incoming r3) h2 (sch_mixer s) of
                 None \<Rightarrow> None
               | Some (m, h3, mixer) \<Rightarrow> Some (r3\<lparr>sr_mix := m\<rparr>, h3, clients3, s\<lparr>sch_mixer := mixer\<rparr>)))"

end
