(* ===== verification/Wire_Format.thy ===== *)
theory Wire_Format
  imports Packet_Stream_Queue Buffers_Config
begin

text \<open>
  The messages on the wire: the four-byte header and its dispatch, and the translation of each
  message to and from the tables of the FlatBuffers schemas (\<open>common/*.fbs\<close>). The FlatBuffers library
  and JUCE's sample conversion are parameters: a codec of each root table (\<open>None\<close> when the verifier
  rejects the bytes) and the two directions of the 16 bit conversion. Reading past a null table field
  or writing past a buffer is the outcome \<open>UndefinedBehaviour\<close>.
\<close>

section \<open>Tables of the schemas\<close>

record pnp_channel_setup =
  pc_target :: u8
  pc_volume :: real
  pc_mag :: real
  pc_rms :: real
  pc_pitch :: real
  pc_name :: "string option"

record pnp_audio_block =
  pb_timestamp :: real
  pb_messageCounter :: u64
  pb_numChannels :: u8
  pb_numberOfSamples :: u16
  pb_sampleRate :: u16
  pb_channelSetup :: "pnp_channel_setup list option"
  pb_channels :: "u16 list option list option"
  pb_allChannels :: "pnp_channel_setup list option"
  pb_wantEcho :: bool
  pb_serverTime :: u64
  pb_bpm :: fl
  pb_midiSignal :: u8

record pnp_audio_data =
  pd_audioBlocks :: "pnp_audio_block list option"
  pd_protocolVersion :: u16

record pnp_stream_quality_info =
  pq_tooLateOrDuplicate :: u64
  pq_droppedPacketCounter :: i64
  pq_outOfOrderPacketCounter :: i64
  pq_duplicatePacketCounter :: i64
  pq_dropsHealed :: u64
  pq_packagesPushed :: u64
  pq_packagesPopped :: u64
  pq_maxLengthOfGap :: u64
  pq_maxWrongOrderSpan :: u64

record pnp_client_info =
  pi_ipAddress :: "u8 list option"
  pi_isIPV6 :: bool
  pi_portNumber :: int
  pi_qualityInfo :: "pnp_stream_quality_info option"

record pnp_client_info_package =
  pp_clientInfos :: "pnp_client_info list option"
  pp_capabilities :: "string list option"

record pnp_session_info =
  pn_allChannels :: "pnp_channel_setup list option"
  pn_capabilities :: "string list option"

text \<open>JSON values as \<open>nlohmann::json\<close> distinguishes them; the control table holds the dumped text.\<close>

datatype json =
    JNull | JBool bool | JUnsigned u64 | JInteger int | JFloat real | JString string
  | JArray "json list" | JObject "(string \<times> json) list"

text \<open>The library functions. \<open>fb_parse\<close> is \<open>None\<close> where \<open>json::parse\<close> throws a parse error.\<close>

record codec =
  fb_enc_audio :: "pnp_audio_data \<Rightarrow> u8 list"
  fb_dec_audio :: "u8 list \<Rightarrow> pnp_audio_data option"
  fb_enc_info :: "pnp_client_info_package \<Rightarrow> u8 list"
  fb_dec_info :: "u8 list \<Rightarrow> pnp_client_info_package option"
  fb_enc_session :: "pnp_session_info \<Rightarrow> u8 list"
  fb_dec_session :: "u8 list \<Rightarrow> pnp_session_info option"
  fb_enc_control :: "string option \<Rightarrow> u8 list"
  fb_dec_control :: "u8 list \<Rightarrow> string option option"
  fb_dump :: "json \<Rightarrow> string"
  fb_parse :: "string \<Rightarrow> json option"
  to_i16 :: "real \<Rightarrow> u16"
  from_i16 :: "u16 \<Rightarrow> real"

datatype 'a outcome = Value 'a | ParseException | UndefinedBehaviour

fun bind_outcome :: "'a outcome \<Rightarrow> ('a \<Rightarrow> 'b outcome) \<Rightarrow> 'b outcome" where
  "bind_outcome (Value x) f = f x"
| "bind_outcome ParseException f = ParseException"
| "bind_outcome UndefinedBehaviour f = UndefinedBehaviour"

definition deref :: "'a option \<Rightarrow> 'a outcome" where
  "deref p = (case p of None \<Rightarrow> UndefinedBehaviour | Some x \<Rightarrow> Value x)"

section \<open>Messages\<close>

record stream_quality_info =
  qi_tooLateOrDuplicate :: u64
  qi_droppedPacketCounter :: i64
  qi_outOfOrderPacketCounter :: i64
  qi_duplicatePacketCounter :: i64
  qi_dropsHealed :: u64
  qi_packagesPushed :: u64
  qi_packagesPopped :: u64
  qi_maxLengthOfGap :: u64
  qi_maxWrongOrderSpan :: u64
  qi_wallClockDelta :: real
  qi_jitterMeanMillis :: real
  qi_jitterSDMillis :: fl

definition qualityInfoPackage :: "quality_data \<Rightarrow> stream_quality_info" where
  "qualityInfoPackage q =
     \<lparr>qi_tooLateOrDuplicate = qd_tooLateOrDuplicate q, qi_droppedPacketCounter = qd_droppedPacketCounter q,
      qi_outOfOrderPacketCounter = qd_outOfOrderPacketCounter q,
      qi_duplicatePacketCounter = qd_duplicatePacketCounter q, qi_dropsHealed = qd_dropsHealed q,
      qi_packagesPushed = qd_packagesPushed q, qi_packagesPopped = qd_packagesPopped q,
      qi_maxLengthOfGap = qd_maxLengthOfGap q, qi_maxWrongOrderSpan = qd_maxWrongOrderSpan q,
      qi_wallClockDelta = 0, qi_jitterMeanMillis = qd_jitterMeanMillis q, qi_jitterSDMillis = qd_jitterSDMillis q\<rparr>"

record client_info =
  ci_ipAddress :: "u8 list"
  ci_isIPV6 :: bool
  ci_portNumber :: int
  ci_qualityInfo :: stream_quality_info

record client_info_message =
  cm_clientInfos :: "client_info list"
  cm_capabilities :: "string list"

record session_info_message =
  sm_channels :: channel_setup
  sm_capabilities :: "string list"

text \<open>An audio message whose table has no block is constructed with null block pointers: \<open>None\<close>.\<close>

datatype message =
    AudioMessage "audio_data option"
  | ClientInfoMessage client_info_message
  | SessionInfoMessage session_info_message
  | ControlMessage json

definition AUDIODATA :: u8 where "AUDIODATA = 1"
definition CLIENTINFO :: u8 where "CLIENTINFO = 8"
definition SESSIONSETUP :: u8 where "SESSIONSETUP = 16"
definition GENERIC_JSON :: u8 where "GENERIC_JSON = 32"

lemmas message_types = AUDIODATA_def CLIENTINFO_def SESSIONSETUP_def GENERIC_JSON_def

definition MtuProbeV1 :: string where "MtuProbeV1 = ''mtu-probe-v1''"

definition writeHeader :: "u8 \<Rightarrow> u8 list" where
  "writeHeader messageType = [49, 50, 51, messageType]"

section \<open>Client information\<close>

definition client_info_new :: client_info_message where
  "client_info_new = \<lparr>cm_clientInfos = [], cm_capabilities = []\<rparr>"

text \<open>An \<open>IPAddress\<close> is its 16 bytes and the flag.\<close>

definition addClientInfo :: "u8 list \<times> bool \<Rightarrow> int \<Rightarrow> stream_quality_info \<Rightarrow> client_info_message \<Rightarrow> client_info_message" where
  "addClientInfo ip port info m =
     m\<lparr>cm_clientInfos := cm_clientInfos m @
        [\<lparr>ci_ipAddress = fst ip, ci_isIPV6 = snd ip, ci_portNumber = port, ci_qualityInfo = info\<rparr>]\<rparr>"

definition addCapability :: "string \<Rightarrow> client_info_message \<Rightarrow> client_info_message" where
  "addCapability capability m = m\<lparr>cm_capabilities := cm_capabilities m @ [capability]\<rparr>"

definition supportsCapability :: "string \<Rightarrow> client_info_message \<Rightarrow> bool" where
  "supportsCapability capability m \<longleftrightarrow> capability \<in> set (cm_capabilities m)"

definition getNumClients :: "client_info_message \<Rightarrow> u8" where
  "getNumClients m = word_of_nat (length (cm_clientInfos m))"

definition empty_quality_info :: stream_quality_info where
  "empty_quality_info =
     \<lparr>qi_tooLateOrDuplicate = 0, qi_droppedPacketCounter = 0, qi_outOfOrderPacketCounter = 0,
      qi_duplicatePacketCounter = 0, qi_dropsHealed = 0, qi_packagesPushed = 0, qi_packagesPopped = 0,
      qi_maxLengthOfGap = 0, qi_maxWrongOrderSpan = 0, qi_wallClockDelta = 0, qi_jitterMeanMillis = 0,
      qi_jitterSDMillis = FFin 0\<rparr>"

definition getStreamQuality :: "u8 \<Rightarrow> client_info_message \<Rightarrow> stream_quality_info" where
  "getStreamQuality clientNo m =
     (if clientNo < getNumClients m then ci_qualityInfo (cm_clientInfos m ! unat clientNo) else empty_quality_info)"

definition info_to_table :: "client_info \<Rightarrow> pnp_client_info" where
  "info_to_table c =
     (let q = ci_qualityInfo c
      in \<lparr>pi_ipAddress = Some (take 16 (ci_ipAddress c)), pi_isIPV6 = ci_isIPV6 c, pi_portNumber = ci_portNumber c,
          pi_qualityInfo = Some
            \<lparr>pq_tooLateOrDuplicate = qi_tooLateOrDuplicate q, pq_droppedPacketCounter = qi_droppedPacketCounter q,
             pq_outOfOrderPacketCounter = qi_outOfOrderPacketCounter q,
             pq_duplicatePacketCounter = qi_duplicatePacketCounter q, pq_dropsHealed = qi_dropsHealed q,
             pq_packagesPushed = qi_packagesPushed q, pq_packagesPopped = qi_packagesPopped q,
             pq_maxLengthOfGap = qi_maxLengthOfGap q, pq_maxWrongOrderSpan = qi_maxWrongOrderSpan q\<rparr>\<rparr>)"

definition client_info_table :: "client_info_message \<Rightarrow> pnp_client_info_package" where
  "client_info_table m =
     \<lparr>pp_clientInfos = Some (map info_to_table (cm_clientInfos m)), pp_capabilities = Some (cm_capabilities m)\<rparr>"

definition serialize_client_info :: "codec \<Rightarrow> client_info_message \<Rightarrow> u8 list" where
  "serialize_client_info k m = writeHeader CLIENTINFO @ fb_enc_info k (client_info_table m)"

definition quality_of_table :: "pnp_stream_quality_info \<Rightarrow> stream_quality_info" where
  "quality_of_table qi =
     empty_quality_info\<lparr>qi_tooLateOrDuplicate := pq_tooLateOrDuplicate qi,
       qi_droppedPacketCounter := pq_droppedPacketCounter qi,
       qi_outOfOrderPacketCounter := pq_outOfOrderPacketCounter qi,
       qi_duplicatePacketCounter := pq_duplicatePacketCounter qi, qi_dropsHealed := pq_dropsHealed qi,
       qi_packagesPushed := pq_packagesPushed qi, qi_packagesPopped := pq_packagesPopped qi,
       qi_maxLengthOfGap := pq_maxLengthOfGap qi, qi_maxWrongOrderSpan := pq_maxWrongOrderSpan qi\<rparr>"

text \<open>Entries whose address is not 16 bytes long are skipped.\<close>

fun infos_of_tables :: "pnp_client_info list \<Rightarrow> client_info list outcome" where
  "infos_of_tables [] = Value []"
| "infos_of_tables (i # is) =
     bind_outcome (deref (pi_ipAddress i)) (\<lambda>ip.
       if length ip = 16
       then bind_outcome (deref (pi_qualityInfo i)) (\<lambda>qi.
              bind_outcome (infos_of_tables is) (\<lambda>rest.
                Value (\<lparr>ci_ipAddress = ip, ci_isIPV6 = pi_isIPV6 i, ci_portNumber = pi_portNumber i,
                        ci_qualityInfo = quality_of_table qi\<rparr> # rest)))
       else infos_of_tables is)"

text \<open>
  The verifier is given \<open>bytes\<close> instead of \<open>bytes - 4\<close>, so it also sees the four bytes of the read
  buffer behind the message (\<open>stale\<close>). A rejected table leaves an empty message.
\<close>

definition deserialize_client_info :: "codec \<Rightarrow> u8 list \<Rightarrow> u8 list \<Rightarrow> client_info_message outcome" where
  "deserialize_client_info k data stale =
     (case fb_dec_info k (drop 4 data @ take 4 stale) of
        None \<Rightarrow> Value client_info_new
      | Some package \<Rightarrow>
          bind_outcome (deref (pp_clientInfos package)) (\<lambda>infos.
            bind_outcome (infos_of_tables infos) (\<lambda>cs.
              Value \<lparr>cm_clientInfos = cs,
                     cm_capabilities = (case pp_capabilities package of None \<Rightarrow> [] | Some c \<Rightarrow> c)\<rparr>)))"

section \<open>Channel setups and session information\<close>

definition channel_to_table :: "single_channel_setup \<Rightarrow> pnp_channel_setup" where
  "channel_to_table c =
     \<lparr>pc_target = sc_target c, pc_volume = sc_volume c, pc_mag = sc_mag c, pc_rms = sc_rms c,
      pc_pitch = sc_pitch c, pc_name = Some (sc_name c)\<rparr>"

definition channel_of_table :: "string \<Rightarrow> pnp_channel_setup \<Rightarrow> single_channel_setup" where
  "channel_of_table name c =
     (single_channel (pc_target c))\<lparr>sc_volume := pc_volume c, sc_mag := pc_mag c, sc_rms := pc_rms c,
       sc_pitch := pc_pitch c, sc_name := name\<rparr>"

text \<open>\<open>readChannelSetup\<close>: a missing vector gives no channels, a missing name an empty one.\<close>

definition readChannelSetup :: "pnp_channel_setup list option \<Rightarrow> channel_setup" where
  "readChannelSetup channels =
     (case channels of
        None \<Rightarrow> new_channel_setup False
      | Some cs \<Rightarrow> (new_channel_setup False)
          \<lparr>cs_channels := map (\<lambda>c. channel_of_table (case pc_name c of None \<Rightarrow> [] | Some n \<Rightarrow> n) c) cs\<rparr>)"

definition session_info_new :: session_info_message where
  "session_info_new = \<lparr>sm_channels = new_channel_setup False, sm_capabilities = []\<rparr>"

definition session_addCapability :: "string \<Rightarrow> session_info_message \<Rightarrow> session_info_message" where
  "session_addCapability capability m = m\<lparr>sm_capabilities := sm_capabilities m @ [capability]\<rparr>"

definition session_supportsCapability :: "string \<Rightarrow> session_info_message \<Rightarrow> bool" where
  "session_supportsCapability capability m \<longleftrightarrow> capability \<in> set (sm_capabilities m)"

definition serialize_session_info :: "codec \<Rightarrow> session_info_message \<Rightarrow> u8 list" where
  "serialize_session_info k m =
     writeHeader SESSIONSETUP @ fb_enc_session k
       \<lparr>pn_allChannels = Some (map channel_to_table (cs_channels (sm_channels m))),
        pn_capabilities = Some (sm_capabilities m)\<rparr>"

text \<open>Here a missing name is dereferenced.\<close>

fun session_channels :: "pnp_channel_setup list \<Rightarrow> single_channel_setup list outcome" where
  "session_channels [] = Value []"
| "session_channels (c # cs) =
     bind_outcome (deref (pc_name c)) (\<lambda>name.
       bind_outcome (session_channels cs) (\<lambda>rest. Value (channel_of_table name c # rest)))"

definition deserialize_session_info :: "codec \<Rightarrow> u8 list \<Rightarrow> session_info_message outcome" where
  "deserialize_session_info k data =
     (if length data < 4 then ParseException
      else case fb_dec_session k (drop 4 data) of
             None \<Rightarrow> Value session_info_new
           | Some package \<Rightarrow>
               bind_outcome (deref (pn_allChannels package)) (\<lambda>channels.
                 bind_outcome (session_channels channels) (\<lambda>cs.
                   Value \<lparr>sm_channels = (new_channel_setup False)\<lparr>cs_channels := cs\<rparr>,
                          sm_capabilities = (case pn_capabilities package of None \<Rightarrow> [] | Some c \<Rightarrow> c)\<rparr>)))"

section \<open>Control messages\<close>

definition serialize_control :: "codec \<Rightarrow> json \<Rightarrow> u8 list" where
  "serialize_control k j = writeHeader GENERIC_JSON @ fb_enc_control k (Some (fb_dump k j))"

definition deserialize_control :: "codec \<Rightarrow> u8 list \<Rightarrow> json outcome" where
  "deserialize_control k data =
     (if length data < 4 then ParseException
      else case fb_dec_control k (drop 4 data) of
             None \<Rightarrow> Value JNull
           | Some message \<Rightarrow>
               bind_outcome (deref message) (\<lambda>text.
                 case fb_parse k text of None \<Rightarrow> ParseException | Some j \<Rightarrow> Value j))"

section \<open>Writing audio\<close>

text \<open>
  \<open>appendAudioBuffer\<close>: every sample of a channel, or every \<open>reductionFactor\<close>-th one. The code converts
  \<open>numSamples / 2\<close> samples into a vector of \<open>numSamples / reductionFactor\<close>; its only other factor is
  two, where both counts agree.
\<close>

definition append_channel :: "codec \<Rightarrow> nat \<Rightarrow> nat \<Rightarrow> real list \<Rightarrow> u16 list" where
  "append_channel k reductionFactor numSamples samples =
     (if reductionFactor = 1 then map (to_i16 k) samples
      else map (\<lambda>i. to_i16 k (samples ! (i * reductionFactor))) [0..<numSamples div reductionFactor])"

definition appendAudioBuffer :: "codec \<Rightarrow> nat \<Rightarrow> audio_buffer \<Rightarrow> u16 list option list" where
  "appendAudioBuffer k reductionFactor b =
     map (\<lambda>ch. Some (append_channel k reductionFactor (buf_numSamples b) ch)) (buf_channels b)"

definition serializeAudioBlock :: "codec \<Rightarrow> audio_block \<Rightarrow> audio_buffer \<Rightarrow> u16 \<Rightarrow> nat \<Rightarrow> channel_setup \<Rightarrow> pnp_audio_block" where
  "serializeAudioBlock k src audio sampleRate reductionFactor legacySessionSetup =
     \<lparr>pb_timestamp = ab_timestamp src, pb_messageCounter = ab_messageCounter src,
      pb_numChannels = word_of_nat (buf_numChannels audio),
      pb_numberOfSamples = word_of_nat (unat (word_of_nat (buf_numSamples audio) :: u16) div reductionFactor),
      pb_sampleRate = word_of_nat (unat sampleRate div reductionFactor),
      pb_channelSetup = Some (map channel_to_table (cs_channels (ab_channelSetup src))),
      pb_channels = Some (appendAudioBuffer k reductionFactor audio),
      pb_allChannels = Some (map channel_to_table (cs_channels legacySessionSetup)),
      pb_wantEcho = (\<not> cs_dontSendEcho (ab_channelSetup src)),
      pb_serverTime = ab_serverTime src, pb_bpm = ab_bpm src, pb_midiSignal = ab_midiSignal src\<rparr>"

definition block_audio :: "heap \<Rightarrow> audio_block \<Rightarrow> audio_buffer outcome" where
  "block_audio h b = deref (Option.bind (ab_audioBuffer b) (mem h))"

definition audio_table :: "codec \<Rightarrow> heap \<Rightarrow> audio_data \<Rightarrow> pnp_audio_data outcome" where
  "audio_table k h p =
     (let legacy = (case ad_legacySessionSetup p of None \<Rightarrow> new_channel_setup False | Some s \<Rightarrow> s)
      in bind_outcome (block_audio h (ad_audioBlock p)) (\<lambda>audio.
           let first = serializeAudioBlock k (ad_audioBlock p) audio 48000 1 legacy
           in case ad_fecBlock p of
                None \<Rightarrow> Value \<lparr>pd_audioBlocks = Some [first], pd_protocolVersion = ad_protocolVersion p\<rparr>
              | Some fec \<Rightarrow>
                  bind_outcome (block_audio h fec) (\<lambda>fecAudio.
                    Value \<lparr>pd_audioBlocks =
                             Some [first, serializeAudioBlock k fec fecAudio 48000 FEC_SAMPLERATE_REDUCTION legacy],
                           pd_protocolVersion = ad_protocolVersion p\<rparr>)))"

definition serialize_audio :: "codec \<Rightarrow> heap \<Rightarrow> audio_data \<Rightarrow> u8 list outcome" where
  "serialize_audio k h p =
     bind_outcome (audio_table k h p) (\<lambda>t. Value (writeHeader AUDIODATA @ fb_enc_audio k t))"

section \<open>Reading audio\<close>

text \<open>
  A fresh \<open>AudioBuffer\<close> is not cleared: sample \<open>i\<close> of channel \<open>c\<close> holds \<open>garbage c i\<close> until it is written.
  \<open>readAudioBytes\<close> writes channel after channel without checking the sizes; a write outside the buffer
  is undefined behaviour, and so is asking for more samples than an \<open>int\<close> can count.
\<close>

definition fresh_channel :: "(nat \<Rightarrow> nat \<Rightarrow> real) \<Rightarrow> nat \<Rightarrow> nat \<Rightarrow> real list" where
  "fresh_channel garbage n c = map (garbage c) [0..<n]"

definition written_channel :: "codec \<Rightarrow> nat \<Rightarrow> u16 list \<Rightarrow> real list" where
  "written_channel k upsampleRate samples = concat (map (\<lambda>s. replicate upsampleRate (from_i16 k s)) samples)"

fun read_channels ::
  "codec \<Rightarrow> nat \<Rightarrow> nat \<Rightarrow> u16 list option list \<Rightarrow> real list list \<Rightarrow> real list list outcome" where
  "read_channels k upsampleRate c [] dest = Value dest"
| "read_channels k upsampleRate c (ch # chs) dest =
     bind_outcome (deref ch) (\<lambda>samples.
       if c < length dest \<and> length samples * upsampleRate \<le> length (dest ! c)
       then read_channels k upsampleRate (c + 1) chs
              (dest[c := written_channel k upsampleRate samples @ drop (length samples * upsampleRate) (dest ! c)])
       else UndefinedBehaviour)"

definition upsample_rate :: "u16 \<Rightarrow> nat" where
  "upsample_rate sampleRate = (if sampleRate \<noteq> 0 then 48000 div unat sampleRate else 48000)"

definition readAudioHeaderAndBytes ::
  "codec \<Rightarrow> (nat \<Rightarrow> nat \<Rightarrow> real) \<Rightarrow> pnp_audio_block \<Rightarrow> heap \<Rightarrow> (audio_block \<times> heap) outcome" where
  "readAudioHeaderAndBytes k garbage block h =
     (let upsampleRate = upsample_rate (pb_sampleRate block);
          n = unat (pb_numberOfSamples block) * upsampleRate;
          dest = map (fresh_channel garbage n) [0..<unat (pb_numChannels block)]
      in if INT_MAX < int n then UndefinedBehaviour
         else bind_outcome (deref (pb_channels block)) (\<lambda>samples.
           bind_outcome (read_channels k upsampleRate 0 samples dest) (\<lambda>rows.
             let (a, h') = heap_alloc \<lparr>buf_numSamples = n, buf_channels = rows\<rparr> h
             in Value (\<lparr>ab_timestamp = pb_timestamp block, ab_messageCounter = pb_messageCounter block,
                        ab_serverTime = pb_serverTime block, ab_bpm = pb_bpm block,
                        ab_midiSignal = pb_midiSignal block, ab_sampleRate = 48000,
                        ab_channelSetup = readChannelSetup (pb_channelSetup block), ab_audioBuffer = Some a\<rparr>, h'))))"

text \<open>The loop over the blocks of a message: the first is the audio, the second the redundant block.\<close>

definition read_blocks ::
  "codec \<Rightarrow> (nat \<Rightarrow> nat \<Rightarrow> real) \<Rightarrow> u16 \<Rightarrow> pnp_audio_block list \<Rightarrow> heap \<Rightarrow> (audio_data option \<times> heap) outcome" where
  "read_blocks k garbage version blocks h =
     (case blocks of
        [] \<Rightarrow> Value (None, h)
      | b1 # rest \<Rightarrow>
          bind_outcome (readAudioHeaderAndBytes k garbage b1 h) (\<lambda>(audio, h1).
            let legacy = (case pb_allChannels b1 of None \<Rightarrow> None | Some cs \<Rightarrow> Some (readChannelSetup (Some cs)));
                message = \<lparr>ad_audioBlock = audio, ad_fecBlock = None, ad_protocolVersion = version,
                           ad_legacySessionSetup = legacy\<rparr>
            in case rest of
                 [] \<Rightarrow> Value (Some message, h1)
               | b2 # others \<Rightarrow>
                   bind_outcome (readAudioHeaderAndBytes k garbage b2 h1) (\<lambda>(fec, h2).
                     if others = [] then Value (Some (message\<lparr>ad_fecBlock := Some fec\<rparr>), h2) else ParseException)))"

text \<open>\<open>sizeof(JammerNetzAudioHeader)\<close> on the 64 bit platforms the program is built for.\<close>

definition sizeof_JammerNetzAudioHeader :: nat where
  "sizeof_JammerNetzAudioHeader = 64"

definition deserialize_audio ::
  "codec \<Rightarrow> (nat \<Rightarrow> nat \<Rightarrow> real) \<Rightarrow> u8 list \<Rightarrow> heap \<Rightarrow> (audio_data option \<times> heap) outcome" where
  "deserialize_audio k garbage data h =
     (if length data < sizeof_JammerNetzAudioHeader then ParseException
      else case fb_dec_audio k (drop 4 data) of
             None \<Rightarrow> ParseException
           | Some package \<Rightarrow>
               bind_outcome (deref (pd_audioBlocks package)) (\<lambda>blocks.
                 read_blocks k garbage (pd_protocolVersion package) blocks h))"

section \<open>Dispatch\<close>

text \<open>
  \<open>JammerNetzMessage::deserialize\<close>: \<open>Value None\<close> is the null pointer for anything that is not a
  message, including a caught parse exception.
\<close>

definition message_of ::
  "codec \<Rightarrow> (nat \<Rightarrow> nat \<Rightarrow> real) \<Rightarrow> u8 \<Rightarrow> u8 list \<Rightarrow> u8 list \<Rightarrow> heap \<Rightarrow> (message option \<times> heap) outcome" where
  "message_of k garbage messageType data stale h =
     (if messageType = AUDIODATA
      then bind_outcome (deserialize_audio k garbage data h) (\<lambda>(m, h'). Value (Some (AudioMessage m), h'))
      else if messageType = CLIENTINFO
      then bind_outcome (deserialize_client_info k data stale) (\<lambda>m. Value (Some (ClientInfoMessage m), h))
      else if messageType = SESSIONSETUP
      then bind_outcome (deserialize_session_info k data) (\<lambda>m. Value (Some (SessionInfoMessage m), h))
      else if messageType = GENERIC_JSON
      then bind_outcome (deserialize_control k data) (\<lambda>m. Value (Some (ControlMessage m), h))
      else Value (None, h))"

definition deserialize ::
  "codec \<Rightarrow> (nat \<Rightarrow> nat \<Rightarrow> real) \<Rightarrow> u8 list \<Rightarrow> u8 list \<Rightarrow> heap \<Rightarrow> (message option \<times> heap) outcome" where
  "deserialize k garbage data stale h =
     (case data of
        m0 # m1 # m2 # messageType # body \<Rightarrow>
          if m0 = 49 \<and> m1 = 50 \<and> m2 = 51
          then (case message_of k garbage messageType data stale h of
                  ParseException \<Rightarrow> Value (None, h) | r \<Rightarrow> r)
          else Value (None, h)
      | _ \<Rightarrow> Value (None, h))"

end
