(* ===== verification/Ring_Buffer.thy ===== *)
theory Ring_Buffer
  imports Prelude
begin

text \<open>
  \<open>common/RingOfAudioBuffers.h\<close>: the ring of the most recently sent blocks that forward error
  correction reads. One slot stays unused to tell a full ring from an empty one, so a ring of
  capacity \<open>c\<close> remembers the \<open>c - 1\<close> newest blocks. The abstraction is the list of remembered
  blocks, newest first; the interface the senders rely on is the locale \<open>recent_history\<close>.
\<close>

section \<open>The code\<close>

record 'a ring =
  ring_data :: "'a option list"
  ring_endIndex :: int
  ring_headIndex :: int

definition ring_new :: "nat \<Rightarrow> 'a ring" where
  "ring_new capacity = \<lparr>ring_data = replicate capacity None, ring_endIndex = 0, ring_headIndex = 0\<rparr>"

definition ring_isEmpty :: "'a ring \<Rightarrow> bool" where
  "ring_isEmpty r \<longleftrightarrow> ring_endIndex r = ring_headIndex r"

definition ring_incIndex :: "'a ring \<Rightarrow> int \<Rightarrow> int" where
  "ring_incIndex r i = (i + 1) mod int (length (ring_data r))"

definition ring_push :: "'a \<Rightarrow> 'a ring \<Rightarrow> 'a ring" where
  "ring_push x r =
     (if ring_endIndex r < 0 then r
      else
        (let e = ring_incIndex r (ring_endIndex r);
             r' = r\<lparr>ring_data := (ring_data r)[nat (ring_endIndex r) := Some x], ring_endIndex := e\<rparr>
         in if e = ring_headIndex r' then r'\<lparr>ring_headIndex := ring_incIndex r' (ring_headIndex r')\<rparr> else r'))"

text \<open>Moving the read index back by one, with the wrap at the start of the vector.\<close>

definition ring_prev :: "'a ring \<Rightarrow> int \<Rightarrow> int" where
  "ring_prev r i = (if i - 1 < 0 then i - 1 + int (length (ring_data r)) else i - 1)"

text \<open>An empty ring hands out a default-constructed block \<open>dflt\<close>, as the code does.\<close>

definition ring_getLast :: "'a \<Rightarrow> 'a ring \<Rightarrow> 'a option" where
  "ring_getLast dflt r =
     (if ring_isEmpty r then Some dflt else ring_data r ! nat (ring_prev r (ring_endIndex r)))"

fun ring_backwards :: "'a \<Rightarrow> 'a ring \<Rightarrow> nat \<Rightarrow> int \<Rightarrow> 'a option" where
  "ring_backwards dflt r 0 i = ring_data r ! nat i"
| "ring_backwards dflt r (Suc n) i =
     (if i = ring_headIndex r then Some dflt else ring_backwards dflt r n (ring_prev r i))"

definition ring_getNthLast :: "'a \<Rightarrow> 'a ring \<Rightarrow> nat \<Rightarrow> 'a option" where
  "ring_getNthLast dflt r n =
     (if ring_isEmpty r then Some dflt else ring_backwards dflt r n (ring_prev r (ring_endIndex r)))"

section \<open>The abstraction\<close>

definition ring_wf :: "nat \<Rightarrow> 'a ring \<Rightarrow> bool" where
  "ring_wf cap r \<longleftrightarrow> length (ring_data r) = cap \<and> 2 \<le> cap
     \<and> 0 \<le> ring_headIndex r \<and> ring_headIndex r < int cap
     \<and> 0 \<le> ring_endIndex r \<and> ring_endIndex r < int cap
     \<and> (\<forall>k < nat ((ring_endIndex r - ring_headIndex r) mod int cap).
          ring_data r ! nat ((ring_endIndex r - 1 - int k) mod int cap) \<noteq> None)"

definition ring_count :: "'a ring \<Rightarrow> nat" where
  "ring_count r = nat ((ring_endIndex r - ring_headIndex r) mod int (length (ring_data r)))"

definition ring_slot :: "'a ring \<Rightarrow> nat \<Rightarrow> 'a option" where
  "ring_slot r k = ring_data r ! nat ((ring_endIndex r - 1 - int k) mod int (length (ring_data r)))"

definition ring_recent :: "'a ring \<Rightarrow> 'a list" where
  "ring_recent r = map (\<lambda>k. the (ring_slot r k)) [0..<ring_count r]"

lemma length_ring_recent [simp]: "length (ring_recent r) = ring_count r"
  by (simp add: ring_recent_def)

lemma ring_recent_Nil [simp]: "ring_recent r = [] \<longleftrightarrow> ring_count r = 0"
  by (simp add: ring_recent_def)

lemma ring_recent_nth: "k < ring_count r \<Longrightarrow> ring_recent r ! k = the (ring_slot r k)"
  by (simp add: ring_recent_def)

lemma ring_wf_slot: "ring_wf cap r \<Longrightarrow> k < ring_count r \<Longrightarrow> ring_slot r k = Some (ring_recent r ! k)"
  by (auto simp: ring_wf_def ring_count_def ring_slot_def ring_recent_def)

lemma ring_new_wf [simp, inv_intros]: "2 \<le> cap \<Longrightarrow> ring_wf cap (ring_new cap)"
  by (simp add: ring_wf_def ring_new_def)

lemma ring_recent_new [simp]: "ring_recent (ring_new cap) = []"
  by (simp add: ring_recent_def ring_count_def ring_new_def)

lemma mod_diff_pos:
  fixes a b c :: int
  assumes "0 \<le> a" "a < c" "0 \<le> b" "b < c"
  shows "(a - b) mod c = (if b \<le> a then a - b else a - b + c)"
proof (cases "b \<le> a")
  case False
  then have "(a - b) mod c = (a - b + c) mod c" by simp
  also have "\<dots> = a - b + c" using assms False by (intro mod_pos_pos_trivial) auto
  finally show ?thesis using False by simp
qed (use assms in \<open>simp add: mod_pos_pos_trivial\<close>)

lemma mod_succ_wrap:
  fixes a c :: int
  assumes "0 \<le> a" "a < c"
  shows "(a + 1) mod c = (if a + 1 = c then 0 else a + 1)"
  using assms by (auto simp: mod_pos_pos_trivial)

lemma mod_nat_inj:
  fixes e c :: int
  assumes "0 < c" and "int j < c" and "int k < c" and "nat ((e - int j) mod c) = nat ((e - int k) mod c)"
  shows "j = k"
proof -
  have "(e - int j) mod c = (e - int k) mod c"
    using assms by (metis eq_nat_nat_iff pos_mod_sign)
  then have "c dvd (int k - int j)"
    by (metis diff_diff_eq2 add_diff_cancel_left' diff_add_cancel mod_eq_dvd_iff minus_diff_eq
        dvd_minus_iff diff_right_commute)
  moreover have "\<bar>int k - int j\<bar> < c" using assms by auto
  ultimately show ?thesis by (metis dvd_imp_le_int linorder_not_less abs_of_pos assms(1)
        diff_self eq_iff_diff_eq_0 of_nat_eq_iff)
qed

lemma ring_count_less: "ring_wf cap r \<Longrightarrow> ring_count r < cap"
proof -
  assume "ring_wf cap r"
  then have "0 < int cap" "length (ring_data r) = cap" by (auto simp: ring_wf_def)
  then show ?thesis
    using pos_mod_bound [of "int cap" "ring_endIndex r - ring_headIndex r"]
    by (simp add: ring_count_def nat_less_iff)
qed

lemma ring_isEmpty_iff: "ring_wf cap r \<Longrightarrow> ring_isEmpty r \<longleftrightarrow> ring_recent r = []"
  by (auto simp: ring_wf_def ring_isEmpty_def ring_recent_def ring_count_def mod_diff_pos split: if_splits)

section \<open>Pushing\<close>

text \<open>The three pieces of the state after a push: the written slot, the kept slots, the count.\<close>

lemma ring_push_fields:
  assumes "ring_wf cap r"
  shows "ring_data (ring_push x r) = (ring_data r)[nat (ring_endIndex r) := Some x]"
    and "ring_endIndex (ring_push x r) = (ring_endIndex r + 1) mod int cap"
    and "ring_headIndex (ring_push x r) =
      (if (ring_endIndex r + 1) mod int cap = ring_headIndex r
       then (ring_headIndex r + 1) mod int cap else ring_headIndex r)"
  using assms by (auto simp: ring_push_def ring_wf_def ring_incIndex_def Let_def)

lemma ring_push_length [simp]: "length (ring_data (ring_push x r)) = length (ring_data r)"
  by (simp add: ring_push_def Let_def)

lemma int_ring_count:
  "ring_wf cap r \<Longrightarrow> int (ring_count r) =
     (if ring_headIndex r \<le> ring_endIndex r then ring_endIndex r - ring_headIndex r
      else ring_endIndex r - ring_headIndex r + int cap)"
  by (auto simp: ring_wf_def ring_count_def mod_diff_pos)

lemma ring_push_count:
  assumes wf: "ring_wf cap r"
  shows "ring_count (ring_push x r) = min (cap - 1) (Suc (ring_count r))"
proof -
  define e h c where "e = ring_endIndex r" and "h = ring_headIndex r" and "c = int cap"
  define e' where "e' = (if e + 1 = c then 0 else e + 1)"
  define h' where "h' = (if e' = h then if h + 1 = c then 0 else h + 1 else h)"
  have b: "0 \<le> e" "e < c" "0 \<le> h" "h < c" "2 \<le> c" "length (ring_data r) = cap"
    using wf by (auto simp: ring_wf_def e_def h_def c_def)
  have e': "ring_endIndex (ring_push x r) = e'"
    using b unfolding ring_push_fields [OF wf] by (simp add: mod_succ_wrap e'_def e_def c_def)
  have h': "ring_headIndex (ring_push x r) = h'"
    using b e' unfolding ring_push_fields [OF wf] by (simp add: mod_succ_wrap h'_def h_def c_def)
  have b': "0 \<le> e'" "e' < c" "0 \<le> h'" "h' < c" using b by (auto simp: e'_def h'_def)
  have "int (ring_count (ring_push x r)) = (if h' \<le> e' then e' - h' else e' - h' + c)"
    using b b' by (simp add: ring_count_def e' h' mod_diff_pos c_def)
  moreover have "int (ring_count r) = (if h \<le> e then e - h else e - h + c)"
    using int_ring_count [OF wf] by (simp add: e_def h_def c_def)
  ultimately have "int (ring_count (ring_push x r)) = min (c - 1) (int (ring_count r) + 1)"
    using b unfolding e'_def h'_def by (auto split: if_splits)
  then show ?thesis using b unfolding c_def min_def by presburger
qed

lemma ring_push_slot:
  assumes wf: "ring_wf cap r" and k: "k < ring_count (ring_push x r)"
  shows "ring_slot (ring_push x r) k = (case k of 0 \<Rightarrow> Some x | Suc j \<Rightarrow> ring_slot r j)"
proof -
  define e c where "e = ring_endIndex r" and "c = int cap"
  have b: "0 \<le> e" "e < c" "2 \<le> c" and len: "length (ring_data r) = cap"
    using wf by (auto simp: ring_wf_def e_def c_def)
  have kc: "int k < c"
    using k ring_push_count [OF wf, of x] b by (auto simp: c_def)
  have idx: "((e + 1) mod c - 1 - int k) mod c = (e - int k) mod c"
    by (metis add_diff_cancel_right' diff_diff_eq2 mod_diff_left_eq diff_diff_eq)
  have inj: "nat ((e - int k) mod c) = nat e \<longleftrightarrow> k = 0"
    using mod_nat_inj [of c k 0 e] kc b by (auto simp: mod_pos_pos_trivial)
  have rng: "nat ((e - int k) mod c) < cap"
    using b by (simp add: nat_less_iff c_def)
  show ?thesis
    unfolding ring_slot_def ring_push_fields [OF wf] length_list_update len
    unfolding e_def [symmetric] c_def [symmetric] idx
    using inj rng b by (cases k) (auto simp: nth_list_update len c_def nat_less_iff algebra_simps)
qed

lemma ring_push_wf [inv_intros]:
  assumes wf: "ring_wf cap r"
  shows "ring_wf cap (ring_push x r)"
proof -
  have cnt: "nat ((ring_endIndex q - ring_headIndex q) mod int cap) = ring_count q"
    "ring_data q ! nat ((ring_endIndex q - 1 - int k) mod int cap) = ring_slot q k"
    if "q = ring_push x r" for q k
    using wf that by (simp_all add: ring_count_def ring_slot_def ring_wf_def)
  have "ring_slot (ring_push x r) k \<noteq> None" if "k < ring_count (ring_push x r)" for k
    using that ring_push_count [OF wf, of x] ring_wf_slot [OF wf]
    by (auto simp: ring_push_slot [OF wf that] split: nat.splits)
  moreover have "0 \<le> ring_endIndex (ring_push x r)" "ring_endIndex (ring_push x r) < int cap"
    unfolding ring_push_fields [OF wf] using wf by (simp_all add: ring_wf_def)
  moreover have "0 \<le> ring_headIndex (ring_push x r)" "ring_headIndex (ring_push x r) < int cap"
    unfolding ring_push_fields [OF wf] using wf by (simp_all add: ring_wf_def)
  ultimately show ?thesis
    using wf unfolding ring_wf_def cnt [OF refl] by simp
qed

lemma ring_recent_push:
  assumes wf: "ring_wf cap r"
  shows "ring_recent (ring_push x r) = take (cap - 1) (x # ring_recent r)"
proof (rule nth_equalityI)
  show "length (ring_recent (ring_push x r)) = length (take (cap - 1) (x # ring_recent r))"
    by (simp add: ring_push_count [OF wf])
next
  fix k assume "k < length (ring_recent (ring_push x r))"
  then have k: "k < ring_count (ring_push x r)" by simp
  then show "ring_recent (ring_push x r) ! k = take (cap - 1) (x # ring_recent r) ! k"
    using ring_push_count [OF wf, of x]
    by (auto simp: ring_recent_nth ring_push_slot [OF wf k] nth_Cons split: nat.splits)
qed

section \<open>Reading\<close>

lemma ring_prev_mod:
  assumes "0 \<le> i" "i < int (length (ring_data r))"
  shows "ring_prev r i = (i - 1) mod int (length (ring_data r))"
proof (cases "i = 0")
  case True
  then show ?thesis using assms by (simp add: ring_prev_def zmod_minus1)
qed (use assms in \<open>simp add: ring_prev_def mod_pos_pos_trivial\<close>)

lemma ring_backwards_slot:
  assumes "ring_wf cap r" and "k + n < ring_count r"
  shows "ring_backwards dflt r n ((ring_endIndex r - 1 - int k) mod int cap) = ring_slot r (k + n)"
  using assms(2)
proof (induction n arbitrary: k)
  case 0
  then show ?case using assms(1) by (simp add: ring_slot_def ring_wf_def)
next
  case (Suc n)
  define e h c where "e = ring_endIndex r" and "h = ring_headIndex r" and "c = int cap"
  have b: "0 \<le> e" "e < c" "0 \<le> h" "h < c" "2 \<le> c" and len: "length (ring_data r) = cap"
    using assms(1) by (auto simp: ring_wf_def e_def h_def c_def)
  have cnt: "int (ring_count r) = (e - h) mod c"
    using b len by (simp add: ring_count_def e_def h_def c_def)
  have "(e - 1 - int (ring_count r - 1)) mod c = (e - (e - h) mod c) mod c"
    using cnt Suc.prems by (simp add: of_nat_diff)
  also have "\<dots> = h" using b by (simp add: mod_diff_right_eq mod_pos_pos_trivial)
  finally have h: "h = (e - 1 - int (ring_count r - 1)) mod c" ..
  have "(e - 1 - int k) mod c \<noteq> h"
  proof
    assume "(e - 1 - int k) mod c = h"
    with h have "nat ((e - 1 - int k) mod c) = nat ((e - 1 - int (ring_count r - 1)) mod c)" by simp
    then have eq: "nat ((e - 1 - int k) mod c) = nat ((e - 1 - int (ring_count r - 1)) mod c)" .
    have "int k < c" "int (ring_count r - 1) < c" "0 < c"
      using ring_count_less [OF assms(1)] Suc.prems b by (auto simp: c_def)
    then have "k = ring_count r - 1" using eq mod_nat_inj by blast
    with Suc.prems show False by simp
  qed
  moreover have "ring_prev r ((e - 1 - int k) mod c) = (e - 1 - int (Suc k)) mod c"
    using b len by (subst ring_prev_mod) (auto simp: c_def mod_simps algebra_simps)
  ultimately show ?case
    using Suc.IH [of "Suc k"] Suc.prems by (simp add: e_def h_def c_def)
qed

lemma ring_getNthLast_recent:
  assumes wf: "ring_wf cap r" and n: "n < length (ring_recent r)"
  shows "ring_getNthLast dflt r n = Some (ring_recent r ! n)"
proof -
  have ne: "\<not> ring_isEmpty r" using ring_isEmpty_iff [OF wf] n by auto
  have "ring_prev r (ring_endIndex r) = (ring_endIndex r - 1 - int 0) mod int cap"
    using wf by (subst ring_prev_mod) (auto simp: ring_wf_def)
  then show ?thesis
    using ne ring_backwards_slot [OF wf, of 0 n dflt] n ring_wf_slot [OF wf]
    by (simp add: ring_getNthLast_def)
qed

lemma ring_getLast_getNthLast: "ring_getLast dflt r = ring_getNthLast dflt r 0"
  by (simp add: ring_getLast_def ring_getNthLast_def)

lemma ring_getLast_recent:
  assumes wf: "ring_wf cap r" and ne: "ring_recent r \<noteq> []"
  shows "ring_getLast dflt r = Some (hd (ring_recent r))"
  using ring_getNthLast_recent [OF wf, of 0 dflt] ne by (simp add: ring_getLast_getNthLast hd_conv_nth)

section \<open>The interface of a bounded history\<close>

text \<open>
  What the two senders need of the ring: it remembers the newest \<open>depth\<close> blocks and hands out the
  newest one. The clients prove their facts from these laws only.
\<close>

locale recent_history =
  fixes hinv :: "'h \<Rightarrow> bool"
    and push :: "'a \<Rightarrow> 'h \<Rightarrow> 'h"
    and recent :: "'h \<Rightarrow> 'a list"
    and is_empty :: "'h \<Rightarrow> bool"
    and newest :: "'h \<Rightarrow> 'a option"
    and depth :: nat
  assumes depth_pos: "0 < depth"
    and push_inv: "hinv h \<Longrightarrow> hinv (push x h)"
    and recent_push: "hinv h \<Longrightarrow> recent (push x h) = take depth (x # recent h)"
    and is_empty_recent: "hinv h \<Longrightarrow> is_empty h \<longleftrightarrow> recent h = []"
    and newest_recent: "hinv h \<Longrightarrow> recent h \<noteq> [] \<Longrightarrow> newest h = Some (hd (recent h))"
begin

lemma push_not_empty: "hinv h \<Longrightarrow> \<not> is_empty (push x h)"
  using depth_pos by (simp add: is_empty_recent push_inv recent_push neq0_conv Suc_le_eq take_eq_Nil)

lemma newest_push: "hinv h \<Longrightarrow> newest (push x h) = Some x"
  using depth_pos by (cases depth) (simp_all add: newest_recent push_inv recent_push)

lemma push_all_inv: "hinv h \<Longrightarrow> hinv (fold push xs h)"
  by (induction xs arbitrary: h) (auto simp: push_inv)

lemma recent_push_all:
  "hinv h \<Longrightarrow> length (recent h) \<le> depth \<Longrightarrow> recent (fold push xs h) = take depth (rev xs @ recent h)"
proof (induction xs arbitrary: h)
  case (Cons x xs)
  have "take depth (rev xs @ take depth (x # recent h)) = take depth (rev xs @ x # recent h)"
    by (simp add: take_Cons' min_def)
  with Cons show ?case by (simp add: push_inv recent_push)
qed simp

end

interpretation fec_ring: recent_history "ring_wf 16" ring_push ring_recent ring_isEmpty "ring_getLast dflt" 15
  for dflt
  by unfold_locales
    (auto simp: ring_push_wf ring_recent_push ring_isEmpty_iff ring_getLast_recent)

text \<open>Every capacity provides the interface; the senders use the instance above.\<close>

lemma ring_recent_history:
  "2 \<le> cap \<Longrightarrow> recent_history (ring_wf cap) ring_push ring_recent ring_isEmpty (ring_getLast dflt) (cap - 1)"
  by unfold_locales
    (auto simp: ring_push_wf ring_recent_push ring_isEmpty_iff ring_getLast_recent)

lemma ring_push_all:
  assumes "2 \<le> cap"
  shows "ring_wf cap (fold ring_push xs (ring_new cap))"
    and "ring_recent (fold ring_push xs (ring_new cap)) = take (cap - 1) (rev xs)"
  using recent_history.push_all_inv [OF ring_recent_history [OF assms], of "ring_new cap" xs]
    recent_history.recent_push_all [OF ring_recent_history [OF assms], of "ring_new cap" xs] assms
  by simp_all

section \<open>The property\<close>

text \<open>
  the ring of a capacity remembers exactly its \<open>capacity - 1\<close> newest blocks, whatever the number
  of pushes and wraps: the \<open>n\<close>-th last block read is the \<open>n\<close>-th last one pushed.
\<close>

lemma ring_remembers_newest:
  assumes "2 \<le> cap" and "n < length xs" and "n < cap - 1"
  shows "ring_getNthLast dflt (fold ring_push xs (ring_new cap)) n = Some (rev xs ! n)"
  using ring_push_all [OF assms(1), of xs] assms
    ring_getNthLast_recent [of cap "fold ring_push xs (ring_new cap)" n dflt]
  by (simp del: length_ring_recent)

lemma ring_remembers_newest_witness:
  "ring_getNthLast 0 (fold ring_push [1, 2, 3, 4, 5 :: nat] (ring_new 3)) 1 = Some 4"
  using ring_remembers_newest [of 3 1 "[1, 2, 3, 4, 5 :: nat]" 0] by simp

end
