(* ===== verification/Server_Threads.thy ===== *)
theory Server_Threads
  imports Mix_Scheduler Wire_Format Ring_Buffer
begin

text \<open>
  One iteration of each of the server's three threads: \<open>Server/Source/AcceptThread.cpp\<close>,
  \<open>MixerThread.cpp\<close> and \<open>SendThread.cpp\<close>. The socket is a list of datagrams to send; the BlowFish
  cipher and the parsing of an IP address are parameters; logging is left out. Ending the process,
  by \<open>exit(-1)\<close> or by an exception no thread catches, is a result of its own.
\<close>

section \<open>Shared state\<close>

record server_state =
  sv_clients :: client_bundle
  sv_wakeUpQueue :: "int list"
  sv_sendQueue :: "outgoing_package list"
  sv_fec :: bool
  sv_heap :: heap

record cipher =
  cf_encrypt :: "u8 list \<Rightarrow> u8 list option"
  cf_decrypt :: "u8 list \<Rightarrow> u8 list option"

type_synonym datagram = "string \<times> int \<times> u8 list"

datatype 'a run_result = Continue 'a | Exit | Undefined

fun bind_run :: "'a run_result \<Rightarrow> ('a \<Rightarrow> 'b run_result) \<Rightarrow> 'b run_result" where
  "bind_run (Continue x) f = f x"
| "bind_run Exit f = Exit"
| "bind_run Undefined f = Undefined"

section \<open>The accept thread\<close>

fun json_member :: "string \<Rightarrow> json \<Rightarrow> json option" where
  "json_member name (JObject entries) = map_of entries name"
| "json_member name j = None"

text \<open>\<open>json::operator bool\<close>: anything but a boolean throws a type error, which nobody catches.\<close>

fun json_bool :: "json \<Rightarrow> bool run_result" where
  "json_bool (JBool b) = Continue b"
| "json_bool j = Exit"

fun json_unsigned :: "json \<Rightarrow> u64 option" where
  "json_unsigned (JUnsigned n) = Some n"
| "json_unsigned j = None"

fun json_integer :: "json \<Rightarrow> int option" where
  "json_integer (JUnsigned n) = Some (uint n)"
| "json_integer (JInteger i) = Some i"
| "json_integer j = None"

text \<open>The identifier of a well formed probe whose stated size is the size that arrived.\<close>

definition probe_id :: "json \<Rightarrow> int \<Rightarrow> u64 option" where
  "probe_id j receivedPayloadBytes =
     (case json_member ''mtu_probe_v1'' j of
        None \<Rightarrow> None
      | Some probe \<Rightarrow>
          (case (Option.bind (json_member ''id'' probe) json_unsigned, Option.bind (json_member ''size'' probe) json_integer) of
             (Some n, Some s) \<Rightarrow> if s = receivedPayloadBytes then Some n else None
           | _ \<Rightarrow> None))"

definition acknowledgement :: "u64 \<Rightarrow> int \<Rightarrow> json" where
  "acknowledgement probeId receivedPayloadBytes =
     JObject [(''mtu_ack_v1'', JObject [(''id'', JUnsigned probeId), (''size'', JInteger receivedPayloadBytes)])]"

definition encrypt_for_send :: "cipher option \<Rightarrow> u8 list \<Rightarrow> u8 list option" where
  "encrypt_for_send c plain = (case c of None \<Rightarrow> Some plain | Some b \<Rightarrow> cf_encrypt b plain)"

definition sendMtuAcknowledgement ::
  "codec \<Rightarrow> cipher option \<Rightarrow> string \<Rightarrow> int \<Rightarrow> u64 \<Rightarrow> int \<Rightarrow> datagram list" where
  "sendMtuAcknowledgement k c ip port probeId payloadBytes =
     (case encrypt_for_send c (serialize_control k (acknowledgement probeId payloadBytes)) of
        None \<Rightarrow> []
      | Some wire \<Rightarrow> if 0 < length wire then [(ip, port, wire)] else [])"

definition processControlMessage ::
  "codec \<Rightarrow> cipher option \<Rightarrow> json \<Rightarrow> string \<Rightarrow> int \<Rightarrow> int \<Rightarrow> server_state \<Rightarrow> (server_state \<times> datagram list) run_result" where
  "processControlMessage k c j ip port payloadBytes s =
     bind_run (case json_member ''FEC'' j of
                 None \<Rightarrow> Continue s
               | Some v \<Rightarrow> bind_run (json_bool v) (\<lambda>b. Continue (s\<lparr>sv_fec := b\<rparr>)))
       (\<lambda>s'. Continue (s', case probe_id j payloadBytes of
                             None \<Rightarrow> [] | Some n \<Rightarrow> sendMtuAcknowledgement k c ip port n payloadBytes))"

text \<open>\<open>incomingData_.insert\<close> keeps an existing entry; the result is the entry's client.\<close>

definition insert_client :: "string \<Rightarrow> client_bundle \<Rightarrow> client_bundle" where
  "insert_client name cs = (if name \<in> fst ` set cs then cs else cs @ [(name, Some (cl_new name))])"

definition processAudioMessage ::
  "(nat \<Rightarrow> real) \<Rightarrow> int \<Rightarrow> audio_data option \<Rightarrow> string \<Rightarrow> server_state \<Rightarrow> server_state run_result" where
  "processAudioMessage clock prefill message name s =
     (let cs = insert_client name (sv_clients s)
      in case (message, map_of cs name) of
           (Some p, Some (Some c)) \<Rightarrow>
             (case cl_push clock p (nat (max 0 prefill)) (sv_heap s) c of
                None \<Rightarrow> Undefined
              | Some (r, h', c') \<Rightarrow>
                  Continue (s\<lparr>sv_clients := smap_update name (Some c') cs, sv_heap := h',
                             sv_wakeUpQueue := (if pr_queued r then sv_wakeUpQueue s @ [1] else sv_wakeUpQueue s)\<rparr>))
         | _ \<Rightarrow> Undefined)"

datatype socket_event = SocketTimeout | SocketFailure | ReadFailure | Received_Datagram string int "u8 list"

definition client_name :: "string \<Rightarrow> int \<Rightarrow> string" where
  "client_name ip port = ip @ '':'' @ (if port < 0 then ''-'' else []) @ decimal (nat \<bar>port\<bar>)"

definition dispatch_message ::
  "codec \<Rightarrow> cipher option \<Rightarrow> (nat \<Rightarrow> real) \<Rightarrow> int \<Rightarrow> string \<Rightarrow> int \<Rightarrow> int \<Rightarrow> message \<Rightarrow> server_state
    \<Rightarrow> (server_state \<times> datagram list) run_result" where
  "dispatch_message k c clock prefill ip port dataRead m s =
     (case m of
        AudioMessage p \<Rightarrow>
          bind_run (processAudioMessage clock prefill p (client_name ip port) s) (\<lambda>s'. Continue (s', []))
      | ControlMessage j \<Rightarrow> processControlMessage k c j ip port dataRead s
      | _ \<Rightarrow> Continue (s, []))"

definition accept_step ::
  "codec \<Rightarrow> (nat \<Rightarrow> nat \<Rightarrow> real) \<Rightarrow> cipher option \<Rightarrow> u8 list \<Rightarrow> (nat \<Rightarrow> real) \<Rightarrow> int \<Rightarrow> socket_event \<Rightarrow> server_state
    \<Rightarrow> (server_state \<times> datagram list) run_result" where
  "accept_step k garbage c stale clock prefill event s =
     (case event of
        SocketTimeout \<Rightarrow> Continue (s\<lparr>sv_wakeUpQueue := sv_wakeUpQueue s @ [0]\<rparr>, [])
      | SocketFailure \<Rightarrow> Exit
      | ReadFailure \<Rightarrow> Exit
      | Received_Datagram ip port data \<Rightarrow>
          if data = [] then Continue (s, [])
          else (case (case c of None \<Rightarrow> Some data | Some b \<Rightarrow> cf_decrypt b data) of
                  None \<Rightarrow> Continue (s, [])
                | Some plain \<Rightarrow>
                    if plain = [] then Continue (s, [])
                    else (case deserialize k garbage plain stale (sv_heap s) of
                            Value (None, h') \<Rightarrow> Continue (s\<lparr>sv_heap := h'\<rparr>, [])
                          | Value (Some m, h') \<Rightarrow>
                              dispatch_message k c clock prefill ip port (int (length data)) m (s\<lparr>sv_heap := h'\<rparr>)
                          | _ \<Rightarrow> Undefined)))"

section \<open>The mixer thread\<close>

text \<open>The send queue holds at most 128 packages (\<open>Server::Server\<close> in \<open>Server/Source/Main.cpp\<close>).\<close>

definition sendQueueCapacity :: nat where
  "sendQueueCapacity = 128"

fun push_outgoing :: "outgoing_package list \<Rightarrow> outgoing_package list \<Rightarrow> outgoing_package list run_result" where
  "push_outgoing [] queue = Continue queue"
| "push_outgoing (p # ps) queue =
     (if length queue < sendQueueCapacity then push_outgoing ps (queue @ [p]) else Exit)"

text \<open>With an empty wake-up queue the thread blocks, and there is no step.\<close>

definition mixer_step ::
  "(real \<Rightarrow> real \<Rightarrow> real \<Rightarrow> real) \<Rightarrow> timepoint \<Rightarrow> server_state \<times> mix_scheduler \<Rightarrow> (server_state \<times> mix_scheduler) run_result option" where
  "mixer_step mac now st =
     (let (s, sched) = st
      in case sv_wakeUpQueue s of
           [] \<Rightarrow> None
         | _ # wake \<Rightarrow>
             Some (case sched_process mac now (sv_heap s) (sv_clients s) sched of
                     None \<Rightarrow> Undefined
                   | Some (r, h', cs', sched') \<Rightarrow>
                       bind_run (if sr_incoming r \<noteq> [] then push_outgoing (ms_outgoing (sr_mix r)) (sv_sendQueue s)
                                 else Continue (sv_sendQueue s))
                         (\<lambda>queue. Continue (s\<lparr>sv_clients := cs', sv_heap := h', sv_sendQueue := queue,
                            sv_wakeUpQueue := (if sr_shouldWakeAgain r then wake @ [0] else wake)\<rparr>, sched'))))"

section \<open>The send thread\<close>

record sender =
  sd_fecData :: "(string \<times> audio_block ring) list"
  sd_packageCounters :: "(string \<times> u64) list"

definition sender_new :: sender where
  "sender_new = \<lparr>sd_fecData = [], sd_packageCounters = []\<rparr>"

text \<open>A default constructed block; its numbers are uninitialised in the code and it is never sent.\<close>

definition default_block :: audio_block where
  "default_block = \<lparr>ab_timestamp = 0, ab_messageCounter = 0, ab_serverTime = 0, ab_bpm = FFin 0, ab_midiSignal = 0,
     ab_sampleRate = 0, ab_channelSetup = new_channel_setup False, ab_audioBuffer = None\<rparr>"

text \<open>The address before the first colon, and \<open>atoi\<close> of what follows it (of all of it without a colon).\<close>

definition atoi :: "string \<Rightarrow> int" where
  "atoi s =
     (let t = dropWhile (\<lambda>c. c = CHR '' '' \<or> c = CHR 0x09 \<or> c = CHR 0x0A) s
      in case t of
           [] \<Rightarrow> 0
         | c # cs \<Rightarrow> if c = CHR ''-'' then - fst (read_digits 0 cs)
                     else if c = CHR ''+'' then fst (read_digits 0 cs) else fst (read_digits 0 t))"

definition determineTargetIP :: "string \<Rightarrow> string \<times> int" where
  "determineTargetIP targetAddress =
     (let ip = takeWhile (\<lambda>c. c \<noteq> CHR '':'') targetAddress;
          rest = drop (length ip) targetAddress
      in (ip, atoi (if rest = [] then targetAddress else tl rest)))"

definition sendWriteBuffer :: "cipher option \<Rightarrow> string \<times> int \<Rightarrow> u8 list \<Rightarrow> datagram list run_result" where
  "sendWriteBuffer c target bytes =
     (if sizet_is_safe_as_int (word_of_nat (length bytes))
      then (case encrypt_for_send c bytes of None \<Rightarrow> Exit | Some wire \<Rightarrow> Continue [(fst target, snd target, wire)])
      else Continue [])"

definition fec_block_for :: "bool \<Rightarrow> audio_block ring \<Rightarrow> audio_block option" where
  "fec_block_for useFEC ring = (if useFEC \<and> \<not> ring_isEmpty ring then ring_getLast default_block ring else None)"

definition data_for_client :: "bool \<Rightarrow> outgoing_package \<Rightarrow> audio_block ring \<Rightarrow> audio_data" where
  "data_for_client useFEC package ring =
     (let d = audio_data_of_block (og_audioBlock package) (fec_block_for useFEC ring)
      in if \<not> supportsSplitSessionInfo (og_receiverProtocolVersion package)
         then setLegacySessionSetup (og_sessionSetup package) d else d)"

definition ring_for :: "string \<Rightarrow> sender \<Rightarrow> audio_block ring" where
  "ring_for target sd =
     (case map_of (sd_fecData sd) target of None \<Rightarrow> ring_new FEC_RINGBUFFER_SIZE | Some r \<Rightarrow> r)"

definition remember_block :: "outgoing_package \<Rightarrow> sender \<Rightarrow> sender" where
  "remember_block package sd =
     (let target = og_targetAddress package;
          rings = smap_emplace target (ring_new FEC_RINGBUFFER_SIZE) (sd_fecData sd)
      in sd\<lparr>sd_fecData := smap_update target (ring_push (og_audioBlock package) (ring_for target sd)) rings\<rparr>)"

definition sendAudioBlock ::
  "codec \<Rightarrow> cipher option \<Rightarrow> bool \<Rightarrow> heap \<Rightarrow> outgoing_package \<Rightarrow> sender \<Rightarrow> (sender \<times> datagram list) run_result" where
  "sendAudioBlock k c useFEC h package sd =
     (case serialize_audio k h (data_for_client useFEC package (ring_for (og_targetAddress package) sd)) of
        Value bytes \<Rightarrow>
          bind_run (sendWriteBuffer c (determineTargetIP (og_targetAddress package)) bytes)
            (\<lambda>out. Continue (remember_block package sd, out))
      | _ \<Rightarrow> Undefined)"

fun collect_client_infos ::
  "(string \<Rightarrow> u8 list \<times> bool) \<Rightarrow> client_bundle \<Rightarrow> client_info_message \<Rightarrow> client_info_message" where
  "collect_client_infos ipOf [] m = m"
| "collect_client_infos ipOf ((name, None) # cs) m = collect_client_infos ipOf cs m"
| "collect_client_infos ipOf ((name, Some c) # cs) m =
     collect_client_infos ipOf cs
       (if 0 < sn_size (cl_snapshot c) then
          (case cl_qualityInfo c of
             None \<Rightarrow> m
           | Some q \<Rightarrow> (let (ip, port) = determineTargetIP name in addClientInfo (ipOf ip) port (qualityInfoPackage q) m))
        else m)"

definition sendClientInfoPackage ::
  "codec \<Rightarrow> cipher option \<Rightarrow> (string \<Rightarrow> u8 list \<times> bool) \<Rightarrow> client_bundle \<Rightarrow> string \<Rightarrow> datagram list run_result" where
  "sendClientInfoPackage k c ipOf clients target =
     (let m = collect_client_infos ipOf clients (addCapability MtuProbeV1 client_info_new)
      in if getNumClients m = 0 then Continue []
         else sendWriteBuffer c (determineTargetIP target) (serialize_client_info k m))"

definition sendSessionInfoPackage ::
  "codec \<Rightarrow> cipher option \<Rightarrow> string \<Rightarrow> channel_setup \<Rightarrow> datagram list run_result" where
  "sendSessionInfoPackage k c target sessionSetup =
     (let m = session_addCapability MtuProbeV1
                (session_info_new\<lparr>sm_channels := (new_channel_setup False)\<lparr>cs_channels := cs_channels sessionSetup\<rparr>\<rparr>)
      in sendWriteBuffer c (determineTargetIP target) (serialize_session_info k m))"

text \<open>The body of the loop for a package that is not the one that ends the thread.\<close>

definition send_step ::
  "codec \<Rightarrow> cipher option \<Rightarrow> (string \<Rightarrow> u8 list \<times> bool) \<Rightarrow> server_state \<Rightarrow> outgoing_package \<Rightarrow> sender
    \<Rightarrow> (sender \<times> datagram list) run_result" where
  "send_step k c ipOf s package sd =
     (let target = og_targetAddress package
      in bind_run (sendAudioBlock k c (sv_fec s) (sv_heap s) package sd) (\<lambda>(sd1, out).
           let counters = smap_emplace target 0 (sd_packageCounters sd1);
               n = (case map_of counters target of None \<Rightarrow> 0 | Some v \<Rightarrow> v);
               sd2 = sd1\<lparr>sd_packageCounters := smap_update target (n + 1) counters\<rparr>
           in if n mod 100 = 0
              then bind_run (sendClientInfoPackage k c ipOf (sv_clients s) target) (\<lambda>info.
                     if supportsSplitSessionInfo (og_receiverProtocolVersion package)
                     then bind_run (sendSessionInfoPackage k c target (og_sessionSetup package))
                            (\<lambda>session. Continue (sd2, out @ info @ session))
                     else Continue (sd2, out @ info))
              else Continue (sd2, out)))"

end
