(* ===== verification/Path_Mtu.thy ===== *)
theory Path_Mtu
  imports Prelude
begin

text \<open>
  The search for the largest UDP payload a path carries, \<open>Client/Source/PathMtuDiscovery.h\<close> and
  \<open>PathMtuDiscovery.cpp\<close>: sizes grow through fixed targets until one is lost three times, then the
  gap is halved in steps of eight bytes. Sizes stay far below the range of \<open>int\<close>, so they are \<open>int\<close>.
\<close>

section \<open>State\<close>

record mtu_probe =
  mp_id :: u64
  mp_payloadBytes :: int

datatype mtu_status = Unavailable | Searching | Complete | Failed

record path_mtu =
  pm_status :: mtu_status
  pm_safePayloadBytes :: int
  pm_candidatePayloadBytes :: int
  pm_upperBoundPayloadBytes :: int
  pm_nextProbeId :: u64
  pm_activeProbe :: mtu_probe
  pm_attempts :: int
  pm_awaitingAcknowledgement :: bool
  pm_deadline :: timepoint
  pm_earliestNextProbe :: timepoint

definition fallbackPayloadBytes :: int where "fallbackPayloadBytes = 1200"
definition maximumProbePayloadBytes :: int where "maximumProbePayloadBytes = 16384"
definition probeAlignmentBytes :: int where "probeAlignmentBytes = 8"
definition maximumAttempts :: int where "maximumAttempts = 3"
definition probeTimeout :: int where "probeTimeout = milliseconds 500"

definition growthTargets :: "int list" where
  "growthTargets = [1200, 1472, 2048, 4096, 8192, 16384]"

lemmas mtu_constants =
  fallbackPayloadBytes_def maximumProbePayloadBytes_def probeAlignmentBytes_def maximumAttempts_def

definition mtu_new :: path_mtu where
  "mtu_new = \<lparr>pm_status = Unavailable, pm_safePayloadBytes = 0, pm_candidatePayloadBytes = fallbackPayloadBytes,
     pm_upperBoundPayloadBytes = 0, pm_nextProbeId = 1, pm_activeProbe = \<lparr>mp_id = 0, mp_payloadBytes = 0\<rparr>,
     pm_attempts = 0, pm_awaitingAcknowledgement = False, pm_deadline = 0, pm_earliestNextProbe = 0\<rparr>"

section \<open>Operations\<close>

definition mtu_setSupported :: "bool \<Rightarrow> path_mtu \<Rightarrow> path_mtu" where
  "mtu_setSupported supported s =
     (if \<not> supported then s\<lparr>pm_status := Unavailable, pm_awaitingAcknowledgement := False\<rparr>
      else if pm_status s \<noteq> Unavailable then s
      else s\<lparr>pm_status := Searching, pm_safePayloadBytes := 0, pm_candidatePayloadBytes := fallbackPayloadBytes,
             pm_upperBoundPayloadBytes := 0, pm_attempts := 0, pm_awaitingAcknowledgement := False\<rparr>)"

definition mtu_markFailed :: "path_mtu \<Rightarrow> path_mtu" where
  "mtu_markFailed s = s\<lparr>pm_status := Failed, pm_awaitingAcknowledgement := False\<rparr>"

fun first_above :: "int \<Rightarrow> int list \<Rightarrow> int option" where
  "first_above n [] = None"
| "first_above n (t # ts) = (if n < t then Some t else first_above n ts)"

definition selectNextGrowthTarget :: "path_mtu \<Rightarrow> path_mtu" where
  "selectNextGrowthTarget s =
     (case first_above (pm_safePayloadBytes s) growthTargets of
        Some t \<Rightarrow> s\<lparr>pm_candidatePayloadBytes := t\<rparr>
      | None \<Rightarrow> s\<lparr>pm_status := Complete\<rparr>)"

text \<open>Past the first test the span is positive, so C++ division and \<open>div\<close> agree.\<close>

definition selectBinarySearchTarget :: "path_mtu \<Rightarrow> path_mtu" where
  "selectBinarySearchTarget s =
     (if pm_upperBoundPayloadBytes s < pm_safePayloadBytes s + probeAlignmentBytes then s\<lparr>pm_status := Complete\<rparr>
      else let alignedHalfSpan =
                 (pm_upperBoundPayloadBytes s - pm_safePayloadBytes s) div 2 div probeAlignmentBytes * probeAlignmentBytes;
               candidate = pm_safePayloadBytes s + alignedHalfSpan
           in s\<lparr>pm_candidatePayloadBytes :=
                  (if candidate \<le> pm_safePayloadBytes s then pm_safePayloadBytes s + probeAlignmentBytes else candidate)\<rparr>)"

definition recordSuccess :: "path_mtu \<Rightarrow> path_mtu" where
  "recordSuccess s =
     (let s1 = s\<lparr>pm_safePayloadBytes := pm_candidatePayloadBytes s\<rparr>
      in if 0 < pm_upperBoundPayloadBytes s1 then selectBinarySearchTarget s1 else selectNextGrowthTarget s1)"

definition recordFailure :: "path_mtu \<Rightarrow> path_mtu" where
  "recordFailure s =
     (if pm_safePayloadBytes s = 0 then s\<lparr>pm_status := Failed\<rparr>
      else selectBinarySearchTarget
             (s\<lparr>pm_upperBoundPayloadBytes := pm_candidatePayloadBytes s - probeAlignmentBytes\<rparr>))"

text \<open>The three parts of \<open>poll\<close>: an overdue probe, a new probe, and the sending.\<close>

definition mtu_overdue :: "path_mtu \<Rightarrow> path_mtu" where
  "mtu_overdue s =
     (if pm_awaitingAcknowledgement s \<and> maximumAttempts \<le> pm_attempts s
      then recordFailure (s\<lparr>pm_awaitingAcknowledgement := False\<rparr>) else s)"

definition mtu_begin :: "path_mtu \<Rightarrow> path_mtu" where
  "mtu_begin s =
     (if pm_awaitingAcknowledgement s then s
      else s\<lparr>pm_activeProbe := \<lparr>mp_id = pm_nextProbeId s, mp_payloadBytes = pm_candidatePayloadBytes s\<rparr>,
             pm_nextProbeId := pm_nextProbeId s + 1, pm_attempts := 0, pm_awaitingAcknowledgement := True\<rparr>)"

definition mtu_poll :: "timepoint \<Rightarrow> path_mtu \<Rightarrow> mtu_probe option \<times> path_mtu" where
  "mtu_poll now s =
     (if pm_status s \<noteq> Searching then (None, s)
      else if pm_awaitingAcknowledgement s \<and> now < pm_deadline s then (None, s)
      else let s1 = mtu_overdue s
           in if pm_status s1 \<noteq> Searching then (None, s1)
              else if \<not> pm_awaitingAcknowledgement s1 \<and> now < pm_earliestNextProbe s1 then (None, s1)
              else let s2 = mtu_begin s1
                   in (Some (pm_activeProbe s2),
                       s2\<lparr>pm_attempts := pm_attempts s2 + 1, pm_deadline := now + probeTimeout\<rparr>))"

definition mtu_acknowledge :: "u64 \<Rightarrow> int \<Rightarrow> timepoint \<Rightarrow> path_mtu \<Rightarrow> bool \<times> path_mtu" where
  "mtu_acknowledge probeId payloadBytes now s =
     (if pm_status s \<noteq> Searching \<or> \<not> pm_awaitingAcknowledgement s
         \<or> mp_id (pm_activeProbe s) \<noteq> probeId \<or> mp_payloadBytes (pm_activeProbe s) \<noteq> payloadBytes
      then (False, s)
      else (True, recordSuccess (s\<lparr>pm_awaitingAcknowledgement := False, pm_attempts := 0,
                                   pm_earliestNextProbe := now + probeTimeout\<rparr>)))"

definition mtu_safePayloadBytes :: "path_mtu \<Rightarrow> int" where
  "mtu_safePayloadBytes s = (if 0 < pm_safePayloadBytes s then pm_safePayloadBytes s else fallbackPayloadBytes)"

end
