(* ===== verification/Net_Client.thy ===== *)
theory Net_Client
  imports Server_Threads Path_Mtu
begin

text \<open>
  The sending half of a client, \<open>Client/Source/Client.h\<close> and \<open>Client.cpp\<close>: audio and control messages,
  the redundancy store, and the probes of the path size. The socket's \<open>write\<close> is a parameter, a function
  of address and bytes that returns the number of bytes written or -1; what is handed to it is a datagram
  of the result. Each operation holds the locks it needs throughout, so it is one step.
\<close>

section \<open>State\<close>

record net_client =
  nc_messageCounter :: u64
  nc_currentBlockSize :: int
  nc_useFEC :: bool
  nc_serverName :: string
  nc_serverPort :: int
  nc_useLocalhost :: bool
  nc_fecBuffer :: "audio_block ring"
  nc_blowFish :: "cipher option"
  nc_mtuDiscovery :: path_mtu

record control_data =
  ct_bpm :: "fl option"
  ct_midiSignal :: "u8 option"

type_synonym socket_write = "string \<Rightarrow> int \<Rightarrow> u8 list \<Rightarrow> int"

definition client_new :: net_client where
  "client_new = \<lparr>nc_messageCounter = 10, nc_currentBlockSize = 0, nc_useFEC = False, nc_serverName = [],
     nc_serverPort = 7777, nc_useLocalhost = False, nc_fecBuffer = ring_new 16, nc_blowFish = None,
     nc_mtuDiscovery = mtu_new\<rparr>"

section \<open>Settings\<close>

definition setServer :: "string \<Rightarrow> int \<Rightarrow> bool \<Rightarrow> net_client \<Rightarrow> net_client" where
  "setServer serverName serverPort useLocalhost c =
     c\<lparr>nc_serverName := serverName, nc_serverPort := (if 0 < serverPort then serverPort else 7777),
       nc_useLocalhost := useLocalhost\<rparr>"

text \<open>A key gives the cipher the BlowFish library makes of it; no key switches encryption off.\<close>

definition setCryptoKey :: "cipher option \<Rightarrow> net_client \<Rightarrow> net_client" where
  "setCryptoKey key c = c\<lparr>nc_blowFish := key\<rparr>"

definition setMtuDiscoverySupported :: "bool \<Rightarrow> bool \<Rightarrow> net_client \<Rightarrow> net_client" where
  "setMtuDiscoverySupported enableDoNotFragment supported c =
     c\<lparr>nc_mtuDiscovery :=
        (if supported \<and> pm_status (nc_mtuDiscovery c) = Unavailable \<and> \<not> enableDoNotFragment
         then mtu_markFailed (nc_mtuDiscovery c) else mtu_setSupported supported (nc_mtuDiscovery c))\<rparr>"

definition acknowledgeMtuProbe :: "u64 \<Rightarrow> int \<Rightarrow> timepoint \<Rightarrow> net_client \<Rightarrow> net_client" where
  "acknowledgeMtuProbe probeId payloadBytes now c =
     c\<lparr>nc_mtuDiscovery := snd (mtu_acknowledge probeId payloadBytes now (nc_mtuDiscovery c))\<rparr>"

definition getSafeUdpPayloadSize :: "net_client \<Rightarrow> int" where
  "getSafeUdpPayloadSize c = mtu_safePayloadBytes (nc_mtuDiscovery c)"

section \<open>Sending\<close>

definition client_target :: "net_client \<Rightarrow> string \<times> int" where
  "client_target c = (if nc_useLocalhost c then ''127.0.0.1'' else nc_serverName c, nc_serverPort c)"

definition sendBytes :: "socket_write \<Rightarrow> string \<times> int \<Rightarrow> u8 list \<Rightarrow> bool \<times> datagram list" where
  "sendBytes write target bytes =
     (let bytesWritten = write (fst target) (snd target) bytes
      in (\<not> (bytesWritten = -1 \<or> bytesWritten \<noteq> int (length bytes)), [(fst target, snd target, bytes)]))"

definition sendBufferToServer :: "socket_write \<Rightarrow> u8 list \<Rightarrow> net_client \<Rightarrow> (bool \<times> datagram list) \<times> net_client" where
  "sendBufferToServer write bytes c =
     (case nc_blowFish c of
        Some b \<Rightarrow>
          (case cf_encrypt b bytes of
             None \<Rightarrow> ((False, []), c)
           | Some wire \<Rightarrow> (sendBytes write (client_target c) wire, c\<lparr>nc_currentBlockSize := int (length wire)\<rparr>))
      | None \<Rightarrow>
          if \<not> sizet_is_safe_as_int (word_of_nat (length bytes)) then ((False, []), c)
          else (sendBytes write (client_target c) bytes, c\<lparr>nc_currentBlockSize := int (length bytes)\<rparr>))"

definition sendControl :: "codec \<Rightarrow> socket_write \<Rightarrow> json \<Rightarrow> net_client \<Rightarrow> (bool \<times> datagram list) \<times> net_client" where
  "sendControl k write j c =
     (let bytes = serialize_control k j
      in if 0 < length bytes then sendBufferToServer write bytes c else ((False, []), c))"

definition setUseFEC :: "codec \<Rightarrow> socket_write \<Rightarrow> bool \<Rightarrow> net_client \<Rightarrow> datagram list \<times> net_client" where
  "setUseFEC k write enabled c =
     (let ((sent, out), c') = sendControl k write (JObject [(''FEC'', JBool enabled)]) (c\<lparr>nc_useFEC := enabled\<rparr>)
      in (out, c'))"

section \<open>Probes\<close>

text \<open>The entries of a JSON object are ordered by name.\<close>

definition probe_json :: "mtu_probe \<Rightarrow> nat \<Rightarrow> json" where
  "probe_json probe padding =
     JObject [(''mtu_probe_v1'', JObject [(''id'', JUnsigned (mp_id probe)),
       (''padding'', JString (replicate padding (CHR ''p''))), (''size'', JInteger (mp_payloadBytes probe))])]"

definition wireSizeFor :: "cipher option \<Rightarrow> nat \<Rightarrow> int" where
  "wireSizeFor c plaintextBytes =
     (case c of None \<Rightarrow> int plaintextBytes | Some b \<Rightarrow> int (plaintextBytes + (8 - plaintextBytes mod 8)))"

text \<open>The loop over the padding, \<open>n\<close> candidates from \<open>padding\<close> on.\<close>

fun probe_loop :: "codec \<Rightarrow> socket_write \<Rightarrow> mtu_probe \<Rightarrow> net_client \<Rightarrow> nat \<Rightarrow> nat \<Rightarrow> bool \<times> datagram list" where
  "probe_loop k write probe c 0 padding = (False, [])"
| "probe_loop k write probe c (Suc n) padding =
     (let plain = serialize_control k (probe_json probe padding)
      in if wireSizeFor (nc_blowFish c) (length plain) \<noteq> mp_payloadBytes probe
         then probe_loop k write probe c n (padding + 1)
         else (case encrypt_for_send (nc_blowFish c) plain of
                 None \<Rightarrow> (False, [])
               | Some wire \<Rightarrow> if int (length wire) \<noteq> mp_payloadBytes probe then (False, [])
                              else sendBytes write (client_target c) wire))"

definition sendMtuProbe :: "codec \<Rightarrow> socket_write \<Rightarrow> mtu_probe \<Rightarrow> net_client \<Rightarrow> bool \<times> datagram list" where
  "sendMtuProbe k write probe c =
     (let emptyPlaintextBytes = length (serialize_control k (probe_json probe 0));
          estimate = max 0 (mp_payloadBytes probe - wireSizeFor (nc_blowFish c) emptyPlaintextBytes);
          firstPadding = max 0 (estimate - 64);
          lastPadding = min (mp_payloadBytes probe) (estimate + 64)
      in probe_loop k write probe c (nat (lastPadding - firstPadding + 1)) (nat firstPadding))"

definition maybeSendMtuProbe :: "codec \<Rightarrow> socket_write \<Rightarrow> timepoint \<Rightarrow> net_client \<Rightarrow> datagram list \<times> net_client" where
  "maybeSendMtuProbe k write now c =
     (let (probe, m) = mtu_poll now (nc_mtuDiscovery c);
          c' = c\<lparr>nc_mtuDiscovery := m\<rparr>
      in (case probe of None \<Rightarrow> [] | Some p \<Rightarrow> snd (sendMtuProbe k write p c'), c'))"

section \<open>Audio\<close>

text \<open>
  The redundancy store gets a deep copy of the audio; the remaining numbers of its block are
  uninitialised in the code, and the block is never sent (the branch that would is commented out).
\<close>

definition client_sendData ::
  "codec \<Rightarrow> socket_write \<Rightarrow> real \<Rightarrow> timepoint \<Rightarrow> channel_setup \<Rightarrow> nat \<Rightarrow> control_data \<Rightarrow> heap \<Rightarrow> net_client
    \<Rightarrow> ((bool \<times> datagram list) \<times> heap \<times> net_client) outcome" where
  "client_sendData k write millis now setup audio controllers h c =
     (let toSend = (case ct_midiSignal controllers of None \<Rightarrow> MidiSignal_None | Some m \<Rightarrow> m);
          message = make_audio_data (nc_messageCounter c) millis setup (int SAMPLE_RATE) (ct_bpm controllers) toSend
                      (Some audio) None;
          c1 = c\<lparr>nc_messageCounter := nc_messageCounter c + 1\<rparr>
      in bind_outcome (serialize_audio k h message) (\<lambda>bytes.
           bind_outcome (deref (mem h audio)) (\<lambda>samples.
             let (copy, h') = heap_alloc samples h;
                 redundancy = default_block\<lparr>ab_messageCounter := messageCounter message,
                   ab_timestamp := ad_timestamp message, ab_channelSetup := setup, ab_audioBuffer := Some copy\<rparr>;
                 c2 = c1\<lparr>nc_fecBuffer := ring_push redundancy (nc_fecBuffer c1)\<rparr>;
                 ((sent, out), c3) = sendBufferToServer write bytes c2;
                 (probes, c4) = maybeSendMtuProbe k write now c3
             in Value ((sent, out @ probes), h', c4))))"

end
