(* ===== verification/Data_Receive.thy ===== *)
theory Data_Receive
  imports Net_Client
begin

text \<open>
  The receiving half of a client, \<open>Client/Source/DataReceiveThread.cpp\<close>, and the session that owns both
  halves, \<open>JammerNetzSession.cpp\<close>. One pass of the receive loop is a function of the socket event; the
  callbacks it makes are a list of events in order. The two callbacks about the path size may be empty
  functions, which the loop tests.
\<close>

section \<open>State\<close>

record receive_thread =
  rt_currentRTT :: real
  rt_isReceiving :: bool
  rt_receiveErrorCount :: u64
  rt_currentSession :: channel_setup
  rt_lastClientInfo :: "client_info_message option"
  rt_blowFish :: "cipher option"

datatype receive_event = New_Data audio_data | Mtu_Capability bool | Mtu_Acknowledgement u64 int

definition receive_thread_new :: receive_thread where
  "receive_thread_new = \<lparr>rt_currentRTT = 0, rt_isReceiving = False, rt_receiveErrorCount = 0,
     rt_currentSession = new_channel_setup False, rt_lastClientInfo = None, rt_blowFish = None\<rparr>"

definition recordReceiveError :: "receive_thread \<Rightarrow> receive_thread" where
  "recordReceiveError r = r\<lparr>rt_receiveErrorCount := rt_receiveErrorCount r + 1\<rparr>"

definition receiver_setCryptoKey :: "cipher option \<Rightarrow> receive_thread \<Rightarrow> receive_thread" where
  "receiver_setCryptoKey key r = r\<lparr>rt_blowFish := key\<rparr>"

section \<open>Messages\<close>

text \<open>A message without blocks has no time stamp to read: its active block is a null pointer.\<close>

definition receive_audio ::
  "real \<Rightarrow> audio_data option \<Rightarrow> receive_thread \<Rightarrow> (receive_thread \<times> receive_event list) run_result" where
  "receive_audio millis message r =
     (case message of
        None \<Rightarrow> Undefined
      | Some p \<Rightarrow>
          let r1 = (if \<not> supportsSplitSessionInfo (ad_protocolVersion p)
                    then (case ad_legacySessionSetup p of None \<Rightarrow> r | Some s \<Rightarrow> r\<lparr>rt_currentSession := s\<rparr>) else r)
          in Continue (r1\<lparr>rt_currentRTT := millis - ad_timestamp p\<rparr>, [New_Data p]))"

text \<open>\<open>get<int64_t>\<close> of an integer: an unsigned value is converted modulo 2 to the 64.\<close>

fun json_int64 :: "json \<Rightarrow> int option" where
  "json_int64 (JUnsigned n) = Some (sint n)"
| "json_int64 (JInteger i) = Some i"
| "json_int64 j = None"

definition receive_control :: "bool \<Rightarrow> json \<Rightarrow> receive_event list" where
  "receive_control mtuHandlers j =
     (case json_member ''mtu_ack_v1'' j of
        None \<Rightarrow> []
      | Some a \<Rightarrow>
          (case (Option.bind (json_member ''id'' a) json_unsigned, Option.bind (json_member ''size'' a) json_int64) of
             (Some n, Some payloadBytes) \<Rightarrow>
               if mtuHandlers \<and> 0 < payloadBytes \<and> payloadBytes \<le> INT_MAX then [Mtu_Acknowledgement n payloadBytes] else []
           | _ \<Rightarrow> []))"

definition receive_message ::
  "bool \<Rightarrow> real \<Rightarrow> message \<Rightarrow> receive_thread \<Rightarrow> (receive_thread \<times> receive_event list) run_result" where
  "receive_message mtuHandlers millis m r =
     (let capability = (\<lambda>b. if mtuHandlers then [Mtu_Capability b] else [])
      in case m of
           AudioMessage p \<Rightarrow> receive_audio millis p r
         | ClientInfoMessage i \<Rightarrow>
             Continue (r\<lparr>rt_lastClientInfo := Some i\<rparr>, capability (supportsCapability MtuProbeV1 i))
         | SessionInfoMessage s \<Rightarrow>
             Continue (r\<lparr>rt_currentSession := sm_channels s\<rparr>, capability (session_supportsCapability MtuProbeV1 s))
         | ControlMessage j \<Rightarrow> Continue (r, receive_control mtuHandlers j))"

definition receive_step ::
  "codec \<Rightarrow> (nat \<Rightarrow> nat \<Rightarrow> real) \<Rightarrow> u8 list \<Rightarrow> bool \<Rightarrow> real \<Rightarrow> socket_event \<Rightarrow> heap \<Rightarrow> receive_thread
    \<Rightarrow> (receive_thread \<times> heap \<times> receive_event list) run_result" where
  "receive_step k garbage stale mtuHandlers millis event h r =
     (case event of
        SocketTimeout \<Rightarrow> Continue (r\<lparr>rt_isReceiving := False\<rparr>, h, [])
      | SocketFailure \<Rightarrow> Continue (recordReceiveError r, h, [])
      | ReadFailure \<Rightarrow> Continue (recordReceiveError r, h, [])
      | Received_Datagram ip port data \<Rightarrow>
          if data = [] then Continue (r\<lparr>rt_isReceiving := False\<rparr>, h, [])
          else (case (case rt_blowFish r of None \<Rightarrow> Some data | Some b \<Rightarrow> cf_decrypt b data) of
                  None \<Rightarrow> Continue (recordReceiveError r, h, [])
                | Some plain \<Rightarrow>
                    (case deserialize k garbage plain stale h of
                       Value (None, h') \<Rightarrow> Continue (r, h', [])
                     | Value (Some m, h') \<Rightarrow>
                         bind_run (receive_message mtuHandlers millis m (r\<lparr>rt_isReceiving := True\<rparr>))
                           (\<lambda>(r', events). Continue (r', h', events))
                     | _ \<Rightarrow> Undefined)))"

section \<open>The session\<close>

record session_configuration =
  sf_serverName :: string
  sf_serverPort :: int
  sf_useLocalhost :: bool
  sf_useFEC :: bool
  sf_cryptoKey :: "cipher option"

record session =
  se_sender :: "net_client option"
  se_receiver :: "receive_thread option"
  se_shutdown :: bool
  se_startupError :: string

definition session_new :: session where
  "session_new = \<lparr>se_sender = None, se_receiver = None, se_shutdown = True, se_startupError = []\<rparr>"

text \<open>The ports tried, from a random offset on, until one can be bound.\<close>

fun bind_port :: "(int \<Rightarrow> bool) \<Rightarrow> nat \<Rightarrow> nat \<Rightarrow> nat \<Rightarrow> int option" where
  "bind_port bindToPort offset 0 attempt = None"
| "bind_port bindToPort offset (Suc n) attempt =
     (let port = 8888 + int ((offset + attempt) mod 64)
      in if bindToPort port then Some port else bind_port bindToPort offset n (attempt + 1))"

definition updateConfiguration ::
  "codec \<Rightarrow> socket_write \<Rightarrow> session_configuration \<Rightarrow> session \<Rightarrow> datagram list \<times> session" where
  "updateConfiguration k write configuration s =
     (let (out, sender) =
            (case se_sender s of
               None \<Rightarrow> ([], None)
             | Some c \<Rightarrow>
                 let c1 = setCryptoKey (sf_cryptoKey configuration)
                            (setServer (sf_serverName configuration) (sf_serverPort configuration)
                              (sf_useLocalhost configuration) c);
                     (out, c2) = setUseFEC k write (sf_useFEC configuration) c1
                 in (out, Some c2));
          receiver = map_option (receiver_setCryptoKey (sf_cryptoKey configuration)) (se_receiver s)
      in (out, s\<lparr>se_sender := sender, se_receiver := receiver\<rparr>))"

definition session_isAvailable :: "session \<Rightarrow> bool" where
  "session_isAvailable s \<longleftrightarrow> \<not> se_shutdown s \<and> se_sender s \<noteq> None \<and> se_receiver s \<noteq> None"

definition session_start ::
  "codec \<Rightarrow> socket_write \<Rightarrow> (int \<Rightarrow> bool) \<Rightarrow> nat \<Rightarrow> session_configuration \<Rightarrow> session \<Rightarrow> (bool \<times> datagram list) \<times> session" where
  "session_start k write bindToPort firstPortOffset configuration s =
     (if \<not> se_shutdown s
      then (let (out, s') = updateConfiguration k write configuration (s\<lparr>se_shutdown := False\<rparr>)
            in ((session_isAvailable s', out), s'))
      else (case bind_port bindToPort firstPortOffset 64 0 of
              None \<Rightarrow> ((False, []), s\<lparr>se_shutdown := True,
                 se_startupError := ''Could not bind to any JammerNetz client port (8888-8951)''\<rparr>)
            | Some port \<Rightarrow>
                (let (out, s') = updateConfiguration k write configuration
                       \<lparr>se_sender = Some client_new, se_receiver = Some receive_thread_new, se_shutdown = False,
                        se_startupError = []\<rparr>
                 in ((True, out), s'))))"

definition session_shutdown :: "session \<Rightarrow> session" where
  "session_shutdown s =
     (if se_shutdown s then s else s\<lparr>se_shutdown := True, se_sender := None, se_receiver := None\<rparr>)"

text \<open>The callbacks the session hands to its receiver, besides the one for audio.\<close>

definition session_callback :: "bool \<Rightarrow> timepoint \<Rightarrow> receive_event \<Rightarrow> session \<Rightarrow> session" where
  "session_callback enableDoNotFragment now e s =
     (case e of
        New_Data p \<Rightarrow> s
      | Mtu_Capability supported \<Rightarrow> s\<lparr>se_sender := map_option (setMtuDiscoverySupported enableDoNotFragment supported) (se_sender s)\<rparr>
      | Mtu_Acknowledgement probeId payloadBytes \<Rightarrow>
          s\<lparr>se_sender := map_option (acknowledgeMtuProbe probeId payloadBytes now) (se_sender s)\<rparr>)"

definition session_safeUdpPayloadSize :: "session \<Rightarrow> int" where
  "session_safeUdpPayloadSize s =
     (case se_sender s of Some c \<Rightarrow> getSafeUdpPayloadSize c | None \<Rightarrow> fallbackPayloadBytes)"

definition session_mtuDiscoveryStatus :: "session \<Rightarrow> mtu_status" where
  "session_mtuDiscoveryStatus s =
     (case se_sender s of Some c \<Rightarrow> pm_status (nc_mtuDiscovery c) | None \<Rightarrow> Unavailable)"

definition session_isReceivingData :: "session \<Rightarrow> bool" where
  "session_isReceivingData s \<longleftrightarrow> (case se_receiver s of Some r \<Rightarrow> rt_isReceiving r | None \<Rightarrow> False)"

definition session_currentRTT :: "session \<Rightarrow> real" where
  "session_currentRTT s = (case se_receiver s of Some r \<Rightarrow> rt_currentRTT r | None \<Rightarrow> 0)"

definition session_getClientInfo :: "session \<Rightarrow> client_info_message option" where
  "session_getClientInfo s = Option.bind (se_receiver s) rt_lastClientInfo"

definition getCurrentSessionSetup :: "session \<Rightarrow> channel_setup" where
  "getCurrentSessionSetup s = (case se_receiver s of Some r \<Rightarrow> rt_currentSession r | None \<Rightarrow> new_channel_setup False)"

definition session_receiveErrorCount :: "session \<Rightarrow> u64" where
  "session_receiveErrorCount s = (case se_receiver s of Some r \<Rightarrow> rt_receiveErrorCount r | None \<Rightarrow> 0)"

end
