(* ===== verification/Mix_Scheduler_Props.thy ===== *)
theory Mix_Scheduler_Props
  imports Mix_Scheduler
begin

text \<open>
  What one scheduler step guarantees: the clients' invariants and the bound on every queue, no
  consumption before every live client is ready, and one packet of every live client when they are.
\<close>

section \<open>The clients of a bundle\<close>

definition names :: "client_bundle \<Rightarrow> string list" where
  "names cs = map fst cs"

definition members :: "client_bundle \<Rightarrow> (string \<times> client_state) set" where
  "members cs = {(n, c). (n, Some c) \<in> set cs}"

definition live :: "client_state \<Rightarrow> bool" where
  "live c \<longleftrightarrow> cl_state c \<noteq> Disconnected"

lemma members_simps [simp]:
  "members [] = {}" "members ((n, None) # cs) = members cs"
  "members ((n, Some c) # cs) = insert (n, c) (members cs)"
  by (auto simp: members_def)

lemma names_simps [simp]: "names [] = []" "names (x # cs) = fst x # names cs"
  by (auto simp: names_def)

lemma members_names: "(n, c) \<in> members cs \<Longrightarrow> n \<in> set (names cs)"
  by (force simp: members_def names_def)

text \<open>One pass over the clients applies a relation to each of them and keeps names and order.\<close>

definition bundle_rel :: "(client_state \<Rightarrow> client_state \<Rightarrow> bool) \<Rightarrow> client_bundle \<Rightarrow> client_bundle \<Rightarrow> bool" where
  "bundle_rel R = list_all2 (\<lambda>x y. fst x = fst y \<and> rel_option R (snd x) (snd y))"

lemma bundle_rel_simps [simp]:
  "bundle_rel R [] []"
  "bundle_rel R ((n, None) # cs) ((n, None) # cs') \<longleftrightarrow> bundle_rel R cs cs'"
  "bundle_rel R ((n, Some c) # cs) ((n, Some c') # cs') \<longleftrightarrow> R c c' \<and> bundle_rel R cs cs'"
  by (auto simp: bundle_rel_def)

lemma bundle_rel_names: "bundle_rel R cs cs' \<Longrightarrow> names cs' = names cs"
  unfolding bundle_rel_def names_def by (induction rule: list_all2_induct) auto

lemma bundle_rel_member:
  assumes "bundle_rel R cs cs'" and "(n, c') \<in> members cs'"
  shows "\<exists>c. (n, c) \<in> members cs \<and> R c c'"
  using assms unfolding bundle_rel_def members_def
  by (induction rule: list_all2_induct) (auto simp: option_rel_Some2)

lemma bundle_rel_member_fwd:
  assumes "bundle_rel R cs cs'" and "(n, c) \<in> members cs"
  shows "\<exists>c'. (n, c') \<in> members cs' \<and> R c c'"
  using assms unfolding bundle_rel_def members_def
  by (induction rule: list_all2_induct) (auto simp: option_rel_Some1)

lemma members_unique:
  "distinct (names cs) \<Longrightarrow> (n, c) \<in> members cs \<Longrightarrow> (n, c') \<in> members cs \<Longrightarrow> c = c'"
  by (auto simp: members_def names_def dest: eq_key_imp_eq_value)

section \<open>The first loop\<close>

definition relieved :: "server_buffer_config \<Rightarrow> timepoint \<Rightarrow> client_state \<Rightarrow> client_state" where
  "relieved cfg now c =
     snd (cl_applyQueuePressure (maximum_depth cfg) (target_depth cfg) (snd (cl_disconnectIfGraceExpired now c)))"

definition ready :: "server_buffer_config \<Rightarrow> client_state \<Rightarrow> bool" where
  "ready cfg c \<longleftrightarrow> live c \<and> serverIncomingJitterBuffer cfg < int (cl_queue_size c)"

lemma pressure_after_snapshot:
  "qp_after (fst (cl_applyQueuePressure m k c)) = cl_snapshot (snd (cl_applyQueuePressure m k c))"
  by (cases "cl_state c = Disconnected \<or> cl_queue c = None")
    (auto simp: cl_pressure_gone cl_pressure_queue)

lemma relieve_client_state: "fst (relieve_client cfg now n c acc) = relieved cfg now c"
  by (simp add: relieve_client_def relieved_def Let_def split_beta)

lemma relieve_client_counts:
  "ra_clientCount (snd (relieve_client cfg now n c acc))
     = ra_clientCount acc + (if live (relieved cfg now c) then 1 else 0)"
  "ra_available (snd (relieve_client cfg now n c acc))
     = ra_available acc + (if ready cfg (relieved cfg now c) then 1 else 0)"
  by (auto simp: relieve_client_def relieved_def Let_def split_beta pressure_after_snapshot
      cl_snapshot_def live_def ready_def)

lemma relieve_client_report [simp]:
  "sr_incoming (ra_result (snd (relieve_client cfg now n c acc))) = sr_incoming (ra_result acc)"
  "sr_underrunClients (ra_result (snd (relieve_client cfg now n c acc))) = sr_underrunClients (ra_result acc)"
  "sr_fillInClients (ra_result (snd (relieve_client cfg now n c acc))) = sr_fillInClients (ra_result acc)"
  "sr_shouldWakeAgain (ra_result (snd (relieve_client cfg now n c acc))) = sr_shouldWakeAgain (ra_result acc)"
  by (auto simp: relieve_client_def Let_def split_beta)

text \<open>The live and the ready clients of a bundle are counted.\<close>

fun count_clients :: "(client_state \<Rightarrow> bool) \<Rightarrow> client_bundle \<Rightarrow> int" where
  "count_clients P [] = 0"
| "count_clients P ((n, None) # cs) = count_clients P cs"
| "count_clients P ((n, Some c) # cs) = (if P c then 1 else 0) + count_clients P cs"

lemma relieve_clients_spec:
  "bundle_rel (\<lambda>c c'. c' = relieved cfg now c) cs (fst (relieve_clients cfg now cs acc))
   \<and> ra_clientCount (snd (relieve_clients cfg now cs acc))
       = ra_clientCount acc + count_clients live (fst (relieve_clients cfg now cs acc))
   \<and> ra_available (snd (relieve_clients cfg now cs acc))
       = ra_available acc + count_clients (ready cfg) (fst (relieve_clients cfg now cs acc))
   \<and> sr_incoming (ra_result (snd (relieve_clients cfg now cs acc))) = sr_incoming (ra_result acc)
   \<and> sr_underrunClients (ra_result (snd (relieve_clients cfg now cs acc))) = sr_underrunClients (ra_result acc)
   \<and> sr_fillInClients (ra_result (snd (relieve_clients cfg now cs acc))) = sr_fillInClients (ra_result acc)
   \<and> sr_shouldWakeAgain (ra_result (snd (relieve_clients cfg now cs acc))) = sr_shouldWakeAgain (ra_result acc)"
proof (induction cfg now cs acc rule: relieve_clients.induct)
  case (3 cfg now n c cs acc)
  have eq: "(relieved cfg now c, snd (relieve_client cfg now n c acc)) = relieve_client cfg now n c acc"
    by (simp add: prod_eq_iff relieve_client_state)
  show ?case
    using 3 [OF eq] by (simp add: split_beta Let_def relieve_client_counts relieve_client_state)
qed (simp_all add: split_beta Let_def)

lemma count_clients_le: "count_clients (ready cfg) cs \<le> count_clients live cs \<and> 0 \<le> count_clients (ready cfg) cs"
  by (induction live cs rule: count_clients.induct) (auto simp: ready_def)

lemma count_clients_eq:
  "count_clients live cs = count_clients (ready cfg) cs \<Longrightarrow> (n, c) \<in> members cs \<Longrightarrow> live c \<Longrightarrow> ready cfg c"
proof (induction live cs rule: count_clients.induct)
  case (3 m d cs)
  then show ?case using count_clients_le [of cfg cs] by (auto simp: ready_def split: if_splits)
qed auto

lemma relieved_inv: "cl_inv c \<Longrightarrow> cl_inv (relieved cfg now c)"
  unfolding relieved_def by (intro cl_pressure_inv cl_expiry_inv)

lemma relieved_size: "cl_queue_size (relieved cfg now c) \<le> maximum_depth cfg"
proof -
  define d where "d = snd (cl_disconnectIfGraceExpired now c)"
  show ?thesis
  proof (cases "cl_state d = Disconnected \<or> cl_queue d = None")
    case True
    then show ?thesis unfolding relieved_def d_def [symmetric] by (auto simp: cl_pressure_gone cl_queue_size_def)
  next
    case False
    then obtain q where q: "cl_state d \<noteq> Disconnected" "cl_queue d = Some q" by blast
    have "psq_size (snd (psq_fastForwardToSize (target_depth cfg) q)) \<le> target_depth cfg" if "maximum_depth cfg < psq_size q"
      using that by (simp add: psq_size_def ff_frame target_depth_def)
    moreover have "target_depth cfg \<le> maximum_depth cfg" by (simp add: target_depth_def)
    ultimately show ?thesis
      unfolding relieved_def d_def [symmetric] by (auto simp: cl_pressure_queue [OF q] cl_queue_size_def q)
  qed
qed

section \<open>The second loop\<close>

definition pop_related :: "client_state \<Rightarrow> client_state \<Rightarrow> bool" where
  "pop_related c c' \<longleftrightarrow> cl_state c' = cl_state c \<and> cl_generation c' = cl_generation c
     \<and> cl_queue_size c' \<le> cl_queue_size c \<and> (cl_inv c \<longrightarrow> cl_inv c')"

lemma cl_tryPop_related: "pop_related c (snd (snd (cl_tryPop h c)))"
proof (cases "cl_state c = Disconnected \<or> cl_queue c = None")
  case False
  then obtain q where q: "cl_state c \<noteq> Disconnected" "cl_queue c = Some q" by blast
  have "psq_size (after_pop h q) \<le> psq_size q" by (simp add: psq_size_def after_pop_queue)
  then show ?thesis
    using cl_tryPop_inv [of c h] by (simp add: pop_related_def cl_tryPop_queue [OF q] cl_queue_size_def q)
qed (simp add: pop_related_def cl_tryPop_gone)

lemma cl_tryPop_result:
  "fst (fst (cl_tryPop h c)) = None \<longleftrightarrow> cl_queue_size c = 0" "snd (fst (cl_tryPop h c)) = cl_generation c"
  by (cases "cl_state c = Disconnected \<or> cl_queue c = None";
      auto simp: cl_tryPop_gone cl_tryPop_queue cl_queue_size_def psq_size_def)+

text \<open>The report after one client, and the observation of an empty queue.\<close>

lemma pop_client_spec:
  fixes n h c r obs
  defines "res \<equiv> pop_client n h c r obs"
  shows "fst res = fst (snd (cl_tryPop h c))" and "fst (snd res) = snd (snd (cl_tryPop h c))"
    and "fst ` set (sr_incoming (fst (snd (snd res))))
      = fst ` set (sr_incoming r) \<union> (if 0 < cl_queue_size c then {n} else {})"
    and "snd (snd (snd res)) = (if live c \<and> cl_queue_size c = 0 then smap_emplace n (cl_generation c) obs else obs)"
    and "sr_underrunClients (fst (snd (snd res))) = sr_underrunClients r"
    and "sr_trigger (fst (snd (snd res))) = sr_trigger r"
    and "(sr_shouldWakeAgain r \<longleftrightarrow> sr_fillInClients r \<noteq> [])
      \<Longrightarrow> (sr_shouldWakeAgain (fst (snd (snd res))) \<longleftrightarrow> sr_fillInClients (fst (snd (snd res))) \<noteq> [])"
proof -
  obtain o' g h' c' where t: "cl_tryPop h c = ((o', g), h', c')" by (metis prod.collapse)
  have st: "cl_state c' = cl_state c" using cl_tryPop_related [of c h] by (simp add: t pop_related_def)
  have o': "o' = None \<longleftrightarrow> cl_queue_size c = 0" "g = cl_generation c"
    using cl_tryPop_result [of h c] by (simp_all add: t)
  show "fst res = fst (snd (cl_tryPop h c))" "fst (snd res) = snd (snd (cl_tryPop h c))"
    "fst ` set (sr_incoming (fst (snd (snd res))))
      = fst ` set (sr_incoming r) \<union> (if 0 < cl_queue_size c then {n} else {})"
    "snd (snd (snd res)) = (if live c \<and> cl_queue_size c = 0 then smap_emplace n (cl_generation c) obs else obs)"
    "sr_underrunClients (fst (snd (snd res))) = sr_underrunClients r"
    "sr_trigger (fst (snd (snd res))) = sr_trigger r"
    "(sr_shouldWakeAgain r \<longleftrightarrow> sr_fillInClients r \<noteq> [])
      \<Longrightarrow> (sr_shouldWakeAgain (fst (snd (snd res))) \<longleftrightarrow> sr_fillInClients (fst (snd (snd res))) \<noteq> [])"
    using o' st by (auto simp: res_def pop_client_def t Let_def cl_snapshot_def live_def split: option.splits prod.splits)
qed

lemma pop_clients_spec:
  "pop_clients h cs r obs = (h', cs', r', obs') \<Longrightarrow>
   bundle_rel pop_related cs cs'
   \<and> fst ` set (sr_incoming r') = fst ` set (sr_incoming r) \<union> {n. \<exists>c. (n, c) \<in> members cs \<and> 0 < cl_queue_size c}
   \<and> fst ` set obs' = fst ` set obs \<union> {n. \<exists>c. (n, c) \<in> members cs \<and> live c \<and> cl_queue_size c = 0}
   \<and> sr_underrunClients r' = sr_underrunClients r \<and> sr_trigger r' = sr_trigger r
   \<and> ((sr_shouldWakeAgain r \<longleftrightarrow> sr_fillInClients r \<noteq> []) \<longrightarrow> (sr_shouldWakeAgain r' \<longleftrightarrow> sr_fillInClients r' \<noteq> []))"
proof (induction h cs r obs arbitrary: h' cs' r' obs' rule: pop_clients.induct)
  case (2 h n cs r obs)
  obtain h1 cs1 r1 obs1 where "pop_clients h cs r obs = (h1, cs1, r1, obs1)" by (metis prod.collapse)
  with 2 show ?case by auto
next
  case (3 h n c cs r obs)
  obtain h1 c1 r1 obs1 where p: "pop_client n h c r obs = (h1, c1, r1, obs1)" by (metis prod.collapse)
  obtain h2 cs2 r2 obs2 where q: "pop_clients h1 cs r1 obs1 = (h2, cs2, r2, obs2)" by (metis prod.collapse)
  have rel: "pop_related c c1" using pop_client_spec(2) [where n = n and h = h and c = c and r = r and obs = obs] cl_tryPop_related [of c h] by (simp add: p)
  have res: "h' = h2" "cs' = (n, Some c1) # cs2" "r' = r2" "obs' = obs2"
    using "3.prems" by (simp_all add: p q)
  show ?case
    using "3.IH" [OF p [symmetric] refl refl refl q] rel pop_client_spec(3-7) [where n = n and h = h and c = c and r = r and obs = obs]
    unfolding res p fst_conv snd_conv by (auto split: if_splits)
qed auto

section \<open>The third loop\<close>

lemma cl_markUnderrun_size: "cl_queue_size (snd (cl_markUnderrun g now c)) = cl_queue_size c"
  by (auto simp: cl_markUnderrun_def cl_queue_size_def)

lemma mark_clients_spec:
  "mark_clients now obs cs r = (cs', r') \<Longrightarrow>
   bundle_rel (\<lambda>c c'. cl_queue_size c' = cl_queue_size c \<and> (cl_inv c \<longrightarrow> cl_inv c')) cs cs'
   \<and> sr_incoming r' = sr_incoming r \<and> sr_trigger r' = sr_trigger r
   \<and> sr_shouldWakeAgain r' = sr_shouldWakeAgain r \<and> sr_fillInClients r' = sr_fillInClients r
   \<and> set (sr_underrunClients r') \<subseteq> set (sr_underrunClients r) \<union> fst ` set obs"
proof (induction now obs cs r arbitrary: cs' r' rule: mark_clients.induct)
  case (2 now obs n cs r)
  obtain cs1 r1 where "mark_clients now obs cs r = (cs1, r1)" by (metis prod.collapse)
  with 2 show ?case by auto
next
  case (3 now obs n c cs r)
  obtain c1 r1 where p: "mark_client now obs n c r = (c1, r1)" by (metis prod.collapse)
  obtain cs2 r2 where q: "mark_clients now obs cs r1 = (cs2, r2)" by (metis prod.collapse)
  have marked: "c1 = c \<or> (\<exists>g. c1 = snd (cl_markUnderrun g now c))"
    using p by (auto simp: mark_client_def Let_def split_beta split: option.splits)
  then have "cl_queue_size c1 = cl_queue_size c \<and> (cl_inv c \<longrightarrow> cl_inv c1)"
    using cl_underrun_inv cl_markUnderrun_size by auto
  moreover have "sr_incoming r1 = sr_incoming r" "sr_trigger r1 = sr_trigger r"
    "sr_shouldWakeAgain r1 = sr_shouldWakeAgain r" "sr_fillInClients r1 = sr_fillInClients r"
    "set (sr_underrunClients r1) \<subseteq> set (sr_underrunClients r) \<union> fst ` set obs"
    using p map_of_SomeD [of obs n] by (force simp: mark_client_def Let_def split_beta split: option.splits if_splits)+
  ultimately show ?case
    using "3.IH" [OF p [symmetric] refl q] "3.prems" by (auto simp: p q)
qed auto

section \<open>The step\<close>

definition relieved_bundle :: "mix_scheduler \<Rightarrow> timepoint \<Rightarrow> client_bundle \<Rightarrow> client_bundle" where
  "relieved_bundle s now cs = fst (relieve_clients (sch_config s) now cs relieve_start)"

lemma relieved_bundle_rel:
  "bundle_rel (\<lambda>c c'. c' = relieved (sch_config s) now c) cs (relieved_bundle s now cs)"
  unfolding relieved_bundle_def using relieve_clients_spec by blast

lemma relieve_counts:
  fixes s now cs
  defines "acc \<equiv> snd (relieve_clients (sch_config s) now cs relieve_start)"
  shows "ra_clientCount acc = count_clients live (relieved_bundle s now cs)"
    and "ra_available acc = count_clients (ready (sch_config s)) (relieved_bundle s now cs)"
    and "sr_incoming (ra_result acc) = []" and "sr_underrunClients (ra_result acc) = []"
    and "sr_fillInClients (ra_result acc) = []" and "\<not> sr_shouldWakeAgain (ra_result acc)"
  using relieve_clients_spec [of "sch_config s" now cs relieve_start]
  by (auto simp: acc_def relieved_bundle_def relieve_start_def empty_scheduled_def)

text \<open>The two ways a step can go.\<close>

definition must_wait :: "mix_scheduler \<Rightarrow> client_bundle \<Rightarrow> bool" where
  "must_wait s cs1 \<longleftrightarrow> 1 < count_clients live cs1 \<and> count_clients live cs1 \<noteq> count_clients (ready (sch_config s)) cs1"

lemma sched_process_wait:
  assumes "must_wait s (relieved_bundle s now cs)"
  shows "\<exists>r. sched_process mac now h cs s = Some (r, h, relieved_bundle s now cs, s)
    \<and> sr_incoming r = [] \<and> sr_trigger r = NoTrigger \<and> sr_underrunClients r = []"
  using assms relieve_counts [of s now cs]
  by (auto simp: sched_process_def must_wait_def all_clients_ready_def relieved_bundle_def split_beta Let_def)

lemma sched_process_mix:
  assumes "\<not> must_wait s (relieved_bundle s now cs)" and "sched_process mac now h cs s = Some (r, h', cs', s')"
  shows "bundle_rel (\<lambda>c c'. cl_queue_size c' \<le> cl_queue_size c \<and> (cl_inv c \<longrightarrow> cl_inv c')) (relieved_bundle s now cs) cs'"
    and "fst ` set (sr_incoming r) = {n. \<exists>c. (n, c) \<in> members (relieved_bundle s now cs) \<and> 0 < cl_queue_size c}"
    and "set (sr_underrunClients r)
      \<subseteq> {n. \<exists>c. (n, c) \<in> members (relieved_bundle s now cs) \<and> live c \<and> cl_queue_size c = 0}"
    and "sr_shouldWakeAgain r \<longleftrightarrow> sr_fillInClients r \<noteq> []"
    and "sr_trigger r = mix_trigger (snd (relieve_clients (sch_config s) now cs relieve_start))"
    and "sch_config s' = sch_config s"
proof -
  define acc where "acc = snd (relieve_clients (sch_config s) now cs relieve_start)"
  define cs1 where "cs1 = relieved_bundle s now cs"
  note counts = relieve_counts [of s now cs, folded acc_def cs1_def]
  have rel: "relieve_clients (sch_config s) now cs relieve_start = (cs1, acc)"
    by (simp add: cs1_def acc_def relieved_bundle_def)
  have go: "\<not> (\<not> all_clients_ready acc \<and> 1 < ra_clientCount acc)"
    using assms(1) counts(1,2) by (auto simp: must_wait_def all_clients_ready_def cs1_def)
  obtain h2 cs2 r2 obs where pop: "pop_clients h cs1 ((ra_result acc)\<lparr>sr_trigger := mix_trigger acc\<rparr>) [] = (h2, cs2, r2, obs)"
    by (metis prod.collapse)
  obtain cs3 r3 where mark: "mark_clients now obs cs2 r2 = (cs3, r3)" by (metis prod.collapse)
  obtain m mixer where res: "r = r3\<lparr>sr_mix := m\<rparr>" "cs' = cs3" "s' = s\<lparr>sch_mixer := mixer\<rparr>"
    using assms(2) unfolding sched_process_def rel Let_def prod.case if_not_P [OF go] pop mark
    by (auto split: option.splits)
  note p = pop_clients_spec [OF pop] and q = mark_clients_spec [OF mark]
  show "bundle_rel (\<lambda>c c'. cl_queue_size c' \<le> cl_queue_size c \<and> (cl_inv c \<longrightarrow> cl_inv c')) (relieved_bundle s now cs) cs'"
  proof -
    have "bundle_rel pop_related cs1 cs2" using p by blast
    moreover have "bundle_rel (\<lambda>c c'. cl_queue_size c' = cl_queue_size c \<and> (cl_inv c \<longrightarrow> cl_inv c')) cs2 cs3"
      using q by blast
    ultimately show ?thesis
      unfolding res(2) cs1_def [symmetric] bundle_rel_def
      by (rule list_all2_trans [rotated]) (auto simp: pop_related_def rel_option_iff split: option.splits)
  qed
  show "fst ` set (sr_incoming r) = {n. \<exists>c. (n, c) \<in> members (relieved_bundle s now cs) \<and> 0 < cl_queue_size c}"
    using p q counts(3) by (simp add: res(1) cs1_def)
  show "set (sr_underrunClients r)
      \<subseteq> {n. \<exists>c. (n, c) \<in> members (relieved_bundle s now cs) \<and> live c \<and> cl_queue_size c = 0}"
    using p q counts(4) by (simp add: res(1) cs1_def)
  show "sr_shouldWakeAgain r \<longleftrightarrow> sr_fillInClients r \<noteq> []"
    using p q counts(5,6) by (simp add: res(1))
  show "sr_trigger r = mix_trigger (snd (relieve_clients (sch_config s) now cs relieve_start))"
    using p q by (simp add: res(1) acc_def)
  show "sch_config s' = sch_config s" by (simp add: res(3))
qed

lemma count_clients_nonneg: "0 \<le> count_clients P cs"
  by (induction P cs rule: count_clients.induct) auto

lemma count_clients_member: "(n, c) \<in> members cs \<Longrightarrow> P c \<Longrightarrow> 0 < count_clients P cs"
  using count_clients_nonneg [of P]
  by (induction P cs rule: count_clients.induct) (auto intro: add_pos_nonneg add_nonneg_pos)

lemma count_clients_two:
  "(n, c) \<in> members cs \<Longrightarrow> (m, d) \<in> members cs \<Longrightarrow> n \<noteq> m \<Longrightarrow> P c \<Longrightarrow> P d \<Longrightarrow> 1 < count_clients P cs"
proof (induction P cs rule: count_clients.induct)
  case (3 P k e cs)
  show ?case
  proof (cases "(n, c) = (k, e) \<or> (m, d) = (k, e)")
    case True
    then have "0 < count_clients P cs" "P e" using 3 count_clients_member [of _ _ cs P] by auto
    then show ?thesis by simp
  next
    case False
    then show ?thesis using 3 by auto
  qed
qed auto

lemma count_clients_all: "(\<And>n c. (n, c) \<in> members cs \<Longrightarrow> P c \<longleftrightarrow> Q c) \<Longrightarrow> count_clients P cs = count_clients Q cs"
  by (induction P cs rule: count_clients.induct) auto

lemma sched_process_bounded:
  assumes "sched_process mac now h cs s = Some (r, h', cs', s')" and "\<And>n c. (n, c) \<in> members cs \<Longrightarrow> cl_inv c"
  shows "names cs' = names cs
    \<and> (\<forall>(n, c) \<in> members cs'. cl_inv c \<and> cl_queue_size c \<le> maximum_depth (sch_config s))"
proof -
  have one: "\<exists>c0. (n, c0) \<in> members cs \<and> c1 = relieved (sch_config s) now c0"
    if "(n, c1) \<in> members (relieved_bundle s now cs)" for n c1
    using bundle_rel_member [OF relieved_bundle_rel that] .
  have "bundle_rel (\<lambda>c c'. cl_queue_size c' \<le> cl_queue_size c \<and> (cl_inv c \<longrightarrow> cl_inv c')) (relieved_bundle s now cs) cs'"
  proof (cases "must_wait s (relieved_bundle s now cs)")
    case True
    then have "cs' = relieved_bundle s now cs" using sched_process_wait [OF True, of mac h] assms(1) by auto
    then show ?thesis by (auto simp: bundle_rel_def list_all2_same rel_option_iff split: option.splits)
  next
    case False
    then show ?thesis using sched_process_mix(1) [OF False assms(1)] by simp
  qed
  note two = bundle_rel_member [OF this] and n2 = bundle_rel_names [OF this]
  have "names cs' = names cs" using n2 bundle_rel_names [OF relieved_bundle_rel [of s now cs]] by simp
  moreover have "cl_inv c \<and> cl_queue_size c \<le> maximum_depth (sch_config s)" if c: "(n, c) \<in> members cs'" for n c
  proof -
    obtain c1 where c1: "(n, c1) \<in> members (relieved_bundle s now cs)" "cl_queue_size c \<le> cl_queue_size c1"
      "cl_inv c1 \<longrightarrow> cl_inv c"
      using two [OF c] by blast
    obtain c0 where c0: "(n, c0) \<in> members cs" "c1 = relieved (sch_config s) now c0" using one [OF c1(1)] by blast
    show ?thesis
      using c1(2,3) relieved_inv [OF assms(2) [OF c0(1)]] relieved_size [of "sch_config s" now c0]
      by (auto simp: c0(2) intro: order_trans)
  qed
  ultimately show ?thesis by auto
qed

lemma sched_process_inv:
  assumes "sched_process mac now h cs s = Some (r, h', cs', s')" and "\<And>n c. (n, c) \<in> members cs \<Longrightarrow> cl_inv c"
  shows "names cs' = names cs \<and> (\<forall>(n, c) \<in> members cs'. cl_inv c)"
proof -
  have "names cs' = names cs
    \<and> (\<forall>(n, c) \<in> members cs'. cl_inv c \<and> cl_queue_size c \<le> maximum_depth (sch_config s))"
    by (rule sched_process_bounded [OF assms(1)]) (rule assms(2))
  then show ?thesis by auto
qed

section \<open>The properties\<close>

text \<open>One client with one packet, and a scheduler that mixes every packet it finds.\<close>

definition sample_client :: client_state where
  "sample_client = (cl_new ''a'')\<lparr>cl_state := Connected, cl_hasConnected := True,
     cl_queue := Some (snd (psq_push 0 (sample_audio 7) (psq_new ''a'')))\<rparr>"

definition sample_scheduler :: mix_scheduler where
  "sample_scheduler = scheduler_new (new_channel_setup False)
     \<lparr>serverIncomingJitterBuffer = 0, serverIncomingMaximumBuffer = 5, serverBufferPrefillOnConnect = 0\<rparr>"

lemma sample_client_queue:
  "psq_packetQueue (snd (psq_push 0 (sample_audio 7) (psq_new ''a''))) = [sample_audio 7]"
  "psq_size (snd (psq_push 0 (sample_audio 7) (psq_new ''a''))) = 1"
  "psq_lastPoppedMessageData (snd (psq_push 0 (sample_audio 7) (psq_new ''a''))) = None"
proof -
  have "acceptable (sample_audio 7) (psq_new ''a'')" by (simp add: acceptable_def psq_new_def)
  then show "psq_packetQueue (snd (psq_push 0 (sample_audio 7) (psq_new ''a''))) = [sample_audio 7]"
    "psq_lastPoppedMessageData (snd (psq_push 0 (sample_audio 7) (psq_new ''a''))) = None"
    by (simp_all add: psq_push_accepted pq_push_def psq_new_def)
  then show "psq_size (snd (psq_push 0 (sample_audio 7) (psq_new ''a''))) = 1" by (simp add: psq_size_def)
qed

lemma sample_client_inv: "cl_inv sample_client"
  by (simp add: sample_client_def cl_inv_def psq_push_inv)

lemma sample_client_relieved: "relieved (sch_config sample_scheduler) 0 sample_client = sample_client"
  by (simp add: relieved_def cl_disconnectIfGraceExpired_def cl_applyQueuePressure_def sample_client_def
      sample_scheduler_def scheduler_new_def maximum_depth_def sample_client_queue Let_def)

lemma sample_client_live: "live sample_client" "cl_queue_size sample_client = 1"
  by (simp_all add: live_def sample_client_def cl_queue_size_def sample_client_queue)

lemma sample_bundle:
  "relieved_bundle sample_scheduler 0 [(''a'', Some sample_client)] = [(''a'', Some sample_client)]"
proof -
  have "bundle_rel (\<lambda>c c'. c' = relieved (sch_config sample_scheduler) 0 c) [(''a'', Some sample_client)]
      (relieved_bundle sample_scheduler 0 [(''a'', Some sample_client)])"
    by (rule relieved_bundle_rel)
  then show ?thesis
    by (auto simp: bundle_rel_def list_all2_Cons1 option_rel_Some1 sample_client_relieved)
qed

lemma sample_process:
  "\<exists>r h' cs' s'. sched_process (\<lambda>d s g. d + s * g) 0 sample_heap [(''a'', Some sample_client)] sample_scheduler
     = Some (r, h', cs', s')"
proof -
  define pk where "pk = [(''a'', sample_audio 7)]"
  obtain b where b: "load_audio sample_heap (sample_audio 7) = Some b" "buffer_wf b"
    by (auto simp: load_audio_def sample_heap_def sample_audio_def empty_heap_def buffer_wf_def)
  have wf: "packets_wf sample_heap pk" using b by (simp add: pk_def packets_wf_def)
  have mix: "\<exists>m h' mixer. mixer_mix (\<lambda>d s g. d + s * g) pk sample_heap (sch_mixer sample_scheduler) = Some (m, h', mixer)"
    using mixer_mix_spec [OF _ wf _ pk_def b(1), of "\<lambda>d s g. d + s * g" "sch_mixer sample_scheduler"]
    by (simp add: adds_def) blast
  have pop: "psq_try_pop sample_heap (snd (psq_push 0 (sample_audio 7) (psq_new ''a''))) =
      (Some (sample_audio 7, False), sample_heap,
       psq_pop_in_order (sample_audio 7) [] (snd (psq_push 0 (sample_audio 7) (psq_new ''a''))))"
    by (simp add: psq_try_pop_def sample_client_queue)
  obtain c' where tp: "cl_tryPop sample_heap sample_client
      = ((Some (sample_audio 7, False), cl_generation sample_client), sample_heap, c')"
    by (simp add: cl_tryPop_def sample_client_def pop)
  obtain acc where rel: "relieve_clients (sch_config sample_scheduler) 0 [(''a'', Some sample_client)] relieve_start
      = ([(''a'', Some sample_client)], acc)"
    using sample_bundle by (metis prod.collapse relieved_bundle_def)
  have "ra_clientCount acc = 1" "sr_incoming (ra_result acc) = []"
    using relieve_counts [of sample_scheduler 0 "[(''a'', Some sample_client)]"]
    by (simp_all add: rel sample_bundle sample_client_live del: relieve_clients.simps)
  then show ?thesis
    using mix
    by (auto simp: sched_process_def rel Let_def pop_client_def tp mark_client_def pk_def simp del: relieve_clients.simps)
qed

text \<open>
  C11: a step of the scheduler keeps every client's invariant, keeps the set of clients, and leaves no
  client with more queued packets than the configured maximum, so a fast sender cannot build up latency.
\<close>

theorem scheduler_bounds_every_queue:
  assumes "sched_process mac now h cs s = Some (r, h', cs', s')" and "\<And>n c. (n, c) \<in> members cs \<Longrightarrow> cl_inv c"
  shows "names cs' = names cs
    \<and> (\<forall>(n, c) \<in> members cs'. cl_inv c \<and> cl_queue_size c \<le> maximum_depth (sch_config s))"
  using assms by (rule sched_process_bounded)

theorem scheduler_bounds_every_queue_witness:
  "\<exists>r h' cs' s'. sched_process (\<lambda>d s g. d + s * g) 0 sample_heap [(''a'', Some sample_client)] sample_scheduler
     = Some (r, h', cs', s') \<and> names cs' = [''a'']"
proof -
  obtain r h' cs' s' where p: "sched_process (\<lambda>d s g. d + s * g) 0 sample_heap [(''a'', Some sample_client)] sample_scheduler
     = Some (r, h', cs', s')"
    using sample_process by blast
  have "names cs' = [''a'']" using scheduler_bounds_every_queue [OF p] by (simp add: sample_client_inv)
  then show ?thesis using p by blast
qed

text \<open>
  while at least two clients are live and one of them has not buffered enough, the step takes no
  packet from anybody, marks nobody and leaves the mixer and the audio untouched.
\<close>

lemma scheduler_waits_for_slowest:
  assumes "(n1, c1) \<in> members (relieved_bundle s now cs)" and "(n2, c2) \<in> members (relieved_bundle s now cs)"
    and "n1 \<noteq> n2" and "live c1" and "live c2" and "\<not> ready (sch_config s) c2"
  shows "\<exists>r. sched_process mac now h cs s = Some (r, h, relieved_bundle s now cs, s)
    \<and> sr_incoming r = [] \<and> sr_trigger r = NoTrigger \<and> sr_underrunClients r = []"
proof -
  have "1 < count_clients live (relieved_bundle s now cs)"
    using count_clients_two [OF assms(1-5)] .
  moreover have "count_clients live (relieved_bundle s now cs)
      \<noteq> count_clients (ready (sch_config s)) (relieved_bundle s now cs)"
    using count_clients_eq assms(2,5,6) by blast
  ultimately have "must_wait s (relieved_bundle s now cs)" by (simp add: must_wait_def)
  then show ?thesis by (rule sched_process_wait)
qed

definition sample_waiting :: client_bundle where
  "sample_waiting = [(''a'', Some sample_client), (''b'', Some (cl_connect (cl_new ''b'')))]"

lemma sample_waiting_bundle: "relieved_bundle sample_scheduler 0 sample_waiting = sample_waiting"
proof -
  have b: "relieved (sch_config sample_scheduler) 0 (cl_connect (cl_new ''b'')) = cl_connect (cl_new ''b'')"
    by (simp add: relieved_def cl_disconnectIfGraceExpired_def cl_applyQueuePressure_def cl_connect_def cl_new_def
        maximum_depth_def Let_def)
  have "bundle_rel (\<lambda>c c'. c' = relieved (sch_config sample_scheduler) 0 c) sample_waiting
      (relieved_bundle sample_scheduler 0 sample_waiting)"
    by (rule relieved_bundle_rel)
  then show ?thesis
    by (auto simp: sample_waiting_def bundle_rel_def list_all2_Cons1 option_rel_Some1 sample_client_relieved b)
qed

lemma scheduler_waits_for_slowest_witness:
  "\<exists>r. sched_process (\<lambda>d s g. d + s * g) 0 sample_heap sample_waiting sample_scheduler
     = Some (r, sample_heap, sample_waiting, sample_scheduler)
    \<and> sr_incoming r = [] \<and> sr_trigger r = NoTrigger \<and> sr_underrunClients r = []"
proof -
  have m: "(''a'', sample_client) \<in> members sample_waiting" "(''b'', cl_connect (cl_new ''b'')) \<in> members sample_waiting"
    by (simp_all add: sample_waiting_def)
  have "live (cl_connect (cl_new ''b''))" "\<not> ready (sch_config sample_scheduler) (cl_connect (cl_new ''b''))"
    by (simp_all add: live_def ready_def cl_queue_size_def cl_new_def sample_scheduler_def scheduler_new_def)
  then show ?thesis
    using scheduler_waits_for_slowest [of "''a''" sample_client sample_scheduler 0 sample_waiting "''b''"] m
    by (simp add: sample_waiting_bundle sample_client_live)
qed

text \<open>
  when every live client has buffered more than the configured depth, the step takes exactly one
  packet or fill-in from each of them, from nobody else, and marks no underrun; and it asks to be woken
  again exactly when some client was served by a fill-in.
\<close>

lemma scheduler_serves_every_ready_client:
  assumes "sched_process mac now h cs s = Some (r, h', cs', s')"
    and "\<And>n c. (n, c) \<in> members (relieved_bundle s now cs) \<Longrightarrow> live c \<Longrightarrow> ready (sch_config s) c"
    and "0 \<le> serverIncomingJitterBuffer (sch_config s)"
  shows "fst ` set (sr_incoming r) = {n. \<exists>c. (n, c) \<in> members (relieved_bundle s now cs) \<and> live c}
    \<and> sr_underrunClients r = [] \<and> (sr_shouldWakeAgain r \<longleftrightarrow> sr_fillInClients r \<noteq> [])"
proof -
  have size: "0 < cl_queue_size c \<longleftrightarrow> live c" if "(n, c) \<in> members (relieved_bundle s now cs)" for n c
  proof
    assume "live c"
    then show "0 < cl_queue_size c" using assms(2) [OF that] assms(3) by (simp add: ready_def)
  qed (auto simp: cl_queue_size_def live_def)
  have "count_clients live (relieved_bundle s now cs) = count_clients (ready (sch_config s)) (relieved_bundle s now cs)"
    by (rule count_clients_all) (use assms(2) ready_def in blast)
  then have "\<not> must_wait s (relieved_bundle s now cs)" by (simp add: must_wait_def)
  note mix = sched_process_mix [OF this assms(1)]
  have "fst ` set (sr_incoming r) = {n. \<exists>c. (n, c) \<in> members (relieved_bundle s now cs) \<and> live c}"
    unfolding mix(2) using size by blast
  moreover have "n \<notin> set (sr_underrunClients r)" for n
    using subsetD [OF mix(3), of n] size by fastforce
  then have "sr_underrunClients r = []" by (cases "sr_underrunClients r") auto
  ultimately show ?thesis using mix(4) by simp
qed

lemma scheduler_serves_every_ready_client_witness:
  "\<exists>r h' cs' s'. sched_process (\<lambda>d s g. d + s * g) 0 sample_heap [(''a'', Some sample_client)] sample_scheduler
     = Some (r, h', cs', s') \<and> fst ` set (sr_incoming r) = {''a''}"
proof -
  obtain r h' cs' s' where p: "sched_process (\<lambda>d s g. d + s * g) 0 sample_heap [(''a'', Some sample_client)] sample_scheduler
     = Some (r, h', cs', s')"
    using sample_process by blast
  have "fst ` set (sr_incoming r) = {n. \<exists>c. (n, c) \<in> members [(''a'', Some sample_client)] \<and> live c}"
    using scheduler_serves_every_ready_client [OF p]
    by (simp add: sample_bundle ready_def sample_client_live) (simp add: sample_scheduler_def scheduler_new_def)
  then show ?thesis using p by (auto simp: sample_client_live)
qed

end
