(* ===== verification/Wire_Format_Props.thy ===== *)
theory Wire_Format_Props
  imports Wire_Format
begin

text \<open>
  Round trips of the messages through the wire, relative to a codec that decodes what it encoded; what
  the trip changes (16 bit samples, the halved rate of the redundant block, the echo flag, the jitter
  figures); and the messages that are rejected.
\<close>

section \<open>Small facts\<close>

lemma bind_outcome_Value [simp]: "bind_outcome r f = Value y \<longleftrightarrow> (\<exists>x. r = Value x \<and> f x = Value y)"
  by (cases r) auto

lemma deref_simps [simp]: "deref (Some x) = Value x" "deref None = UndefinedBehaviour"
  by (simp_all add: deref_def)

lemma channel_table_roundtrip [simp]: "channel_of_table (sc_name c) (channel_to_table c) = c"
  by (simp add: channel_of_table_def channel_to_table_def single_channel_def)

lemma channel_to_table_name [simp]: "pc_name (channel_to_table c) = Some (sc_name c)"
  by (simp add: channel_to_table_def)

lemma readChannelSetup_roundtrip [simp]:
  "readChannelSetup (Some (map channel_to_table cs)) = (new_channel_setup False)\<lparr>cs_channels := cs\<rparr>"
  by (simp add: readChannelSetup_def comp_def)

lemma session_channels_roundtrip [simp]: "session_channels (map channel_to_table cs) = Value cs"
  by (induction cs) auto

section \<open>Audio samples\<close>

definition quantize :: "codec \<Rightarrow> real \<Rightarrow> real" where
  "quantize k x = from_i16 k (to_i16 k x)"

text \<open>A buffer after the trip with a rate reduction: each sample is that of the start of its group.\<close>

definition transmitted :: "codec \<Rightarrow> nat \<Rightarrow> audio_buffer \<Rightarrow> audio_buffer" where
  "transmitted k rf b = b\<lparr>buf_channels :=
     map (\<lambda>ch. map (\<lambda>i. quantize k (ch ! (i - i mod rf))) [0..<buf_numSamples b]) (buf_channels b)\<rparr>"

lemma concat_replicate_nth:
  "0 < u \<Longrightarrow> i < n * u \<Longrightarrow> concat (map (\<lambda>j. replicate u (f j)) [0..<n]) ! i = f (i div u)"
proof (induction n)
  case (Suc n)
  have len: "length (concat (map (\<lambda>j. replicate u (f j)) [0..<n])) = n * u"
    by (simp add: length_concat comp_def sum_list_triv)
  show ?case
  proof (cases "i < n * u")
    case True
    then show ?thesis using Suc by (simp add: nth_append len)
  next
    case False
    then have "i - n * u < u" "i div u = n" using Suc.prems by (auto intro!: div_nat_eqI simp: algebra_simps)
    then show ?thesis using False by (simp add: nth_append len)
  qed
qed simp

lemma written_append_channel:
  assumes "rf = 1 \<or> rf = 2" and "rf dvd n" and "length ch = n"
  shows "written_channel k rf (append_channel k rf n ch) = map (\<lambda>i. quantize k (ch ! (i - i mod rf))) [0..<n]"
    and "length (append_channel k rf n ch) * rf = n"
proof -
  have ap: "append_channel k rf n ch = map (\<lambda>i. to_i16 k (ch ! (i * rf))) [0..<n div rf]"
    using assms(1,3) by (auto simp: append_channel_def intro: nth_equalityI)
  then show len: "length (append_channel k rf n ch) * rf = n" using assms(2) by simp
  have pos: "0 < rf" using assms(1) by auto
  have w: "written_channel k rf (append_channel k rf n ch)
      = concat (map (\<lambda>j. replicate rf (quantize k (ch ! (j * rf)))) [0..<n div rf])"
    by (simp add: written_channel_def ap comp_def quantize_def)
  show "written_channel k rf (append_channel k rf n ch) = map (\<lambda>i. quantize k (ch ! (i - i mod rf))) [0..<n]"
  proof (rule nth_equalityI)
    show l: "length (written_channel k rf (append_channel k rf n ch)) = length (map (\<lambda>i. quantize k (ch ! (i - i mod rf))) [0..<n])"
      using assms(2) by (simp add: w length_concat comp_def sum_list_triv)
    fix i assume "i < length (written_channel k rf (append_channel k rf n ch))"
    then have "i < n" "i < n div rf * rf" using l assms(2) by simp_all
    then show "written_channel k rf (append_channel k rf n ch) ! i
        = map (\<lambda>i. quantize k (ch ! (i - i mod rf))) [0..<n] ! i"
      unfolding w using concat_replicate_nth [OF pos, of i "n div rf" "\<lambda>j. quantize k (ch ! (j * rf))"]
      by (simp add: minus_mod_eq_div_mult)
  qed
qed

lemma read_channels_all:
  "length dest = c + length chs \<Longrightarrow> (\<And>row. row \<in> set dest \<Longrightarrow> length row = n) \<Longrightarrow>
   (\<And>s. s \<in> set chs \<Longrightarrow> length s * u = n) \<Longrightarrow>
   read_channels k u c (map Some chs) dest = Value (take c dest @ map (written_channel k u) chs)"
proof (induction chs arbitrary: c dest)
  case (Cons s chs)
  have c: "c < length dest" using Cons.prems(1) by simp
  have row: "length (dest ! c) = n" using Cons.prems(2) c nth_mem by blast
  have s: "length s * u = n" using Cons.prems(3) by simp
  have w: "length (written_channel k u s) = n"
    using s by (simp add: written_channel_def length_concat comp_def sum_list_triv)
  define dest' where "dest' = dest[c := written_channel k u s]"
  have "read_channels k u (c + 1) (map Some chs) dest' = Value (take (c + 1) dest' @ map (written_channel k u) chs)"
  proof (rule Cons.IH)
    show "length dest' = c + 1 + length chs" using Cons.prems(1) by (simp add: dest'_def)
    show "length r = n" if "r \<in> set dest'" for r
      using that w Cons.prems(2) set_update_subset_insert unfolding dest'_def by fastforce
    show "length x * u = n" if "x \<in> set chs" for x using Cons.prems(3) that by simp
  qed
  moreover have "take (c + 1) dest' = take c dest @ [written_channel k u s]"
    using c by (simp add: dest'_def take_Suc_conv_app_nth)
  ultimately show ?case
    using c s row by (simp add: dest'_def)
qed simp

section \<open>One block\<close>

definition sendable :: "nat \<Rightarrow> audio_buffer \<Rightarrow> bool" where
  "sendable rf b \<longleftrightarrow> buffer_wf b \<and> rf dvd buf_numSamples b \<and> buf_numSamples b < 2 ^ 16 \<and> buf_numChannels b < 2 ^ 8"

definition received_block :: "audio_block \<Rightarrow> nat \<Rightarrow> audio_block" where
  "received_block src a = src\<lparr>ab_sampleRate := 48000,
     ab_channelSetup := (new_channel_setup False)\<lparr>cs_channels := cs_channels (ab_channelSetup src)\<rparr>,
     ab_audioBuffer := Some a\<rparr>"

lemma unat_u16: "n < 2 ^ 16 \<Longrightarrow> unat (word_of_nat n :: u16) = n"
  by (simp add: unat_of_nat)

lemma unat_u8: "n < 2 ^ 8 \<Longrightarrow> unat (word_of_nat n :: u8) = n"
  by (simp add: unat_of_nat)

lemma upsample_rate_reduced:
  "rf = 1 \<or> rf = 2 \<Longrightarrow> upsample_rate (word_of_nat (unat (48000 :: u16) div rf)) = rf"
  by (auto simp: upsample_rate_def)

lemma block_roundtrip:
  assumes "rf = 1 \<or> rf = 2" and "sendable rf b"
  shows "readAudioHeaderAndBytes k garbage (serializeAudioBlock k src b 48000 rf legacy) h
    = Value (received_block src (next_addr h), snd (heap_alloc (transmitted k rf b) h))"
proof -
  define n where "n = buf_numSamples b"
  define t where "t = serializeAudioBlock k src b 48000 rf legacy"
  have b: "rf dvd n" "n < 2 ^ 16" "length (buf_channels b) < 2 ^ 8" "\<And>ch. ch \<in> set (buf_channels b) \<Longrightarrow> length ch = n"
    using assms(2) by (auto simp: sendable_def n_def buf_numChannels_def buffer_wf_def)
  have up: "upsample_rate (pb_sampleRate t) = rf"
    using upsample_rate_reduced [OF assms(1)] by (simp add: t_def serializeAudioBlock_def)
  have "n div rf < 2 ^ 16" using b(2) by (meson div_le_dividend le_less_trans)
  then have num: "unat (pb_numberOfSamples t) * rf = n" "unat (pb_numChannels t) = length (buf_channels b)"
    using b(1-3) by (simp_all add: t_def serializeAudioBlock_def n_def [symmetric] unat_u16 unat_u8 buf_numChannels_def)
  have small: "\<not> INT_MAX < int n" using b(2) by (simp add: INT_MAX_def)
  define dest where "dest = map (fresh_channel garbage n) [0..<length (buf_channels b)]"
  have "read_channels k rf 0 (map Some (map (append_channel k rf n) (buf_channels b))) dest
      = Value (take 0 dest @ map (written_channel k rf) (map (append_channel k rf n) (buf_channels b)))"
    by (rule read_channels_all [where n = n])
      (use written_append_channel(2) [OF assms(1) b(1) b(4)] in \<open>auto simp: dest_def fresh_channel_def\<close>)
  moreover have "map (written_channel k rf) (map (append_channel k rf n) (buf_channels b)) = buf_channels (transmitted k rf b)"
    using written_append_channel(1) [OF assms(1) b(1) b(4)] by (simp add: transmitted_def n_def)
  moreover have "pb_channels t = Some (map Some (map (append_channel k rf n) (buf_channels b)))"
    by (simp add: t_def serializeAudioBlock_def appendAudioBuffer_def n_def)
  moreover have "\<lparr>buf_numSamples = n, buf_channels = buf_channels (transmitted k rf b)\<rparr> = transmitted k rf b"
    by (simp add: transmitted_def n_def)
  ultimately have "readAudioHeaderAndBytes k garbage t h
      = Value (\<lparr>ab_timestamp = pb_timestamp t, ab_messageCounter = pb_messageCounter t,
                        ab_serverTime = pb_serverTime t, ab_bpm = pb_bpm t,
                        ab_midiSignal = pb_midiSignal t, ab_sampleRate = 48000,
                        ab_channelSetup = readChannelSetup (pb_channelSetup t), ab_audioBuffer = Some (next_addr h)\<rparr>,
          snd (heap_alloc (transmitted k rf b) h))"
    unfolding readAudioHeaderAndBytes_def up num Let_def dest_def if_not_P [OF small]
    by (simp add: split_beta)
  then show ?thesis
    by (simp add: t_def [symmetric] received_block_def) (simp add: t_def serializeAudioBlock_def)
qed

section \<open>Audio messages\<close>

definition legacy_sent :: "audio_data \<Rightarrow> channel_setup" where
  "legacy_sent p = (case ad_legacySessionSetup p of None \<Rightarrow> new_channel_setup False | Some s \<Rightarrow> s)"

definition fec_table :: "codec \<Rightarrow> audio_data \<Rightarrow> audio_buffer \<Rightarrow> audio_block \<times> audio_buffer \<Rightarrow> pnp_audio_data" where
  "fec_table k p b fec = \<lparr>pd_audioBlocks = Some
      [serializeAudioBlock k (ad_audioBlock p) b 48000 1 (legacy_sent p),
       serializeAudioBlock k (fst fec) (snd fec) 48000 2 (legacy_sent p)],
     pd_protocolVersion = ad_protocolVersion p\<rparr>"

lemma audio_table_fec:
  assumes "Option.bind (ab_audioBuffer (ad_audioBlock p)) (mem h) = Some b" and "ad_fecBlock p = Some fec"
    and "Option.bind (ab_audioBuffer fec) (mem h) = Some fb"
  shows "audio_table k h p = Value (fec_table k p b (fec, fb))"
  using assms
  by (simp add: audio_table_def Let_def block_audio_def fec_table_def legacy_sent_def FEC_SAMPLERATE_REDUCTION_def)

lemma deserialize_header:
  "deserialize k garbage (writeHeader ty @ body) stale h =
     (case message_of k garbage ty (writeHeader ty @ body) stale h of ParseException \<Rightarrow> Value (None, h) | r \<Rightarrow> r)"
  by (simp add: deserialize_def writeHeader_def)

lemma read_blocks_fec:
  assumes "sendable 1 b" and "sendable 2 fb"
  shows "read_blocks k garbage v [serializeAudioBlock k src b 48000 1 legacy, serializeAudioBlock k fec fb 48000 2 legacy] h
    = Value (Some \<lparr>ad_audioBlock = received_block src (next_addr h),
         ad_fecBlock = Some (received_block fec (Suc (next_addr h))), ad_protocolVersion = v,
         ad_legacySessionSetup = Some ((new_channel_setup False)\<lparr>cs_channels := cs_channels legacy\<rparr>)\<rparr>,
       snd (heap_alloc (transmitted k 2 fb) (snd (heap_alloc (transmitted k 1 b) h))))"
proof -
  have legacy: "pb_allChannels (serializeAudioBlock k src b 48000 rf legacy) = Some (map channel_to_table (cs_channels legacy))" for rf
    by (simp add: serializeAudioBlock_def)
  show ?thesis
    unfolding read_blocks_def list.case block_roundtrip [OF disjI1 [OF refl] assms(1)]
    by (simp add: block_roundtrip [OF disjI2 [OF refl] assms(2)] legacy Let_def)
qed

lemma readChannelSetup_echo [simp]: "\<not> cs_dontSendEcho (readChannelSetup cs)"
  by (auto simp: readChannelSetup_def new_channel_setup_def split: option.splits)

lemma audio_roundtrip:
  assumes audio: "Option.bind (ab_audioBuffer (ad_audioBlock p)) (mem h) = Some b" "sendable 1 b"
    and redundant: "ad_fecBlock p = Some fec" "Option.bind (ab_audioBuffer fec) (mem h) = Some fb" "sendable 2 fb"
    and codec: "fb_dec_audio k (fb_enc_audio k (fec_table k p b (fec, fb))) = Some (fec_table k p b (fec, fb))"
      "60 \<le> length (fb_enc_audio k (fec_table k p b (fec, fb)))"
  shows "\<exists>d. serialize_audio k h p = Value d \<and> deserialize k garbage d stale h2
    = Value (Some (AudioMessage (Some \<lparr>ad_audioBlock = received_block (ad_audioBlock p) (next_addr h2),
         ad_fecBlock = Some (received_block fec (Suc (next_addr h2))), ad_protocolVersion = ad_protocolVersion p,
         ad_legacySessionSetup = Some ((new_channel_setup False)\<lparr>cs_channels := cs_channels (legacy_sent p)\<rparr>)\<rparr>)),
       snd (heap_alloc (transmitted k 2 fb) (snd (heap_alloc (transmitted k 1 b) h2))))"
proof -
  have "serialize_audio k h p = Value (writeHeader AUDIODATA @ fb_enc_audio k (fec_table k p b (fec, fb)))"
    by (simp add: serialize_audio_def audio_table_fec [OF audio(1) redundant(1,2)])
  moreover have "deserialize_audio k garbage (writeHeader AUDIODATA @ fb_enc_audio k (fec_table k p b (fec, fb))) h2
      = read_blocks k garbage (ad_protocolVersion p)
          [serializeAudioBlock k (ad_audioBlock p) b 48000 1 (legacy_sent p),
           serializeAudioBlock k fec fb 48000 2 (legacy_sent p)] h2"
    using codec by (simp add: deserialize_audio_def sizeof_JammerNetzAudioHeader_def writeHeader_def fec_table_def)
  ultimately show ?thesis
    by (simp add: deserialize_header message_of_def read_blocks_fec [OF audio(2) redundant(3), unfolded One_nat_def])
qed

section \<open>Client information\<close>

text \<open>What remains of a quality report on the wire: the figures about jitter do not travel.\<close>

definition transmitted_quality :: "stream_quality_info \<Rightarrow> stream_quality_info" where
  "transmitted_quality q = q\<lparr>qi_wallClockDelta := 0, qi_jitterMeanMillis := 0, qi_jitterSDMillis := FFin 0\<rparr>"

definition transmitted_client :: "client_info \<Rightarrow> client_info" where
  "transmitted_client c = c\<lparr>ci_qualityInfo := transmitted_quality (ci_qualityInfo c)\<rparr>"

lemma infos_roundtrip:
  "list_all (\<lambda>c. length (ci_ipAddress c) = 16) cs \<Longrightarrow>
   infos_of_tables (map info_to_table cs) = Value (map transmitted_client cs)"
  by (induction cs)
    (auto simp: info_to_table_def Let_def quality_of_table_def empty_quality_info_def transmitted_client_def transmitted_quality_def)

text \<open>The first row that does not fit its buffer makes the reading of a block undefined.\<close>

lemma read_channels_too_many:
  "list_all (\<lambda>ch. ch \<noteq> None) chs \<Longrightarrow> length dest < c + length chs \<Longrightarrow> c \<le> length dest \<Longrightarrow>
   read_channels k u c chs dest = UndefinedBehaviour"
  by (induction k u c chs dest rule: read_channels.induct) (auto simp: deref_def split: option.splits)

section \<open>The properties\<close>

text \<open>A codec for the concrete messages below: it decodes everything to the one table it is made for.\<close>

definition sample_codec :: "pnp_audio_data \<Rightarrow> pnp_client_info_package \<Rightarrow> pnp_session_info \<Rightarrow> codec" where
  "sample_codec a c i =
     \<lparr>fb_enc_audio = (\<lambda>_. replicate 64 0), fb_dec_audio = (\<lambda>_. Some a),
      fb_enc_info = (\<lambda>_. replicate 64 0), fb_dec_info = (\<lambda>_. Some c),
      fb_enc_session = (\<lambda>_. replicate 64 0), fb_dec_session = (\<lambda>_. Some i),
      fb_enc_control = (\<lambda>_. []), fb_dec_control = (\<lambda>_. None), fb_dump = (\<lambda>_. []), fb_parse = (\<lambda>_. None),
      to_i16 = (\<lambda>_. 0), from_i16 = (\<lambda>_. 0)\<rparr>"

definition wire_block :: "u64 \<Rightarrow> audio_block" where
  "wire_block n = ad_audioBlock (make_audio_data n 0 (new_channel_setup False) 48000 None MidiSignal_None (Some 0) None)"

definition wire_heap :: heap where
  "wire_heap = snd (heap_alloc (buf_silent 1 2) empty_heap)"

definition wire_packet :: audio_data where
  "wire_packet = audio_data_of_block (wire_block 9) (Some (wire_block 8))"

definition zero_codec :: codec where
  "zero_codec = sample_codec \<lparr>pd_audioBlocks = None, pd_protocolVersion = 0\<rparr>
     \<lparr>pp_clientInfos = None, pp_capabilities = None\<rparr> \<lparr>pn_allChannels = None, pn_capabilities = None\<rparr>"

definition wire_table :: pnp_audio_data where
  "wire_table = fec_table zero_codec wire_packet (buf_silent 1 2) (wire_block 8, buf_silent 1 2)"

definition wire_codec :: codec where
  "wire_codec = zero_codec\<lparr>fb_dec_audio := \<lambda>_. Some wire_table\<rparr>"

lemma wire_table_codec: "fec_table wire_codec wire_packet (buf_silent 1 2) (wire_block 8, buf_silent 1 2) = wire_table"
  by (simp add: wire_table_def fec_table_def serializeAudioBlock_def appendAudioBuffer_def append_channel_def wire_codec_def)

lemma wire_sample:
  "\<exists>d m h'. serialize_audio wire_codec wire_heap wire_packet = Value d
    \<and> deserialize wire_codec (\<lambda>c i. 0) d [] empty_heap = Value (Some (AudioMessage (Some m)), h')
    \<and> messageCounter m = 9"
proof -
  have b: "Option.bind (ab_audioBuffer (wire_block n)) (mem wire_heap) = Some (buf_silent 1 2)" for n
    by (simp add: wire_block_def make_audio_data_def wire_heap_def empty_heap_def)
  have s: "sendable 1 (buf_silent 1 2)" "sendable 2 (buf_silent 1 2)"
    by (simp_all add: sendable_def)
  have p: "ad_audioBlock wire_packet = wire_block 9" "ad_fecBlock wire_packet = Some (wire_block 8)"
    by (simp_all add: wire_packet_def audio_data_of_block_def)
  have c: "fb_dec_audio wire_codec x = Some wire_table" "length (fb_enc_audio wire_codec y) = 64" for x y
    by (simp_all add: wire_codec_def zero_codec_def sample_codec_def)
  have c1: "fb_dec_audio wire_codec (fb_enc_audio wire_codec (fec_table wire_codec wire_packet (buf_silent 1 2) (wire_block 8, buf_silent 1 2)))
      = Some (fec_table wire_codec wire_packet (buf_silent 1 2) (wire_block 8, buf_silent 1 2))"
    and c2: "60 \<le> length (fb_enc_audio wire_codec (fec_table wire_codec wire_packet (buf_silent 1 2) (wire_block 8, buf_silent 1 2)))"
    unfolding wire_table_codec c by simp_all
  have b9: "Option.bind (ab_audioBuffer (ad_audioBlock wire_packet)) (mem wire_heap) = Some (buf_silent 1 2)"
    unfolding p(1) by (rule b)
  have m: "messageCounter \<lparr>ad_audioBlock = received_block (ad_audioBlock wire_packet) a, ad_fecBlock = f,
      ad_protocolVersion = v, ad_legacySessionSetup = l\<rparr> = 9" for a f v l
    by (simp add: messageCounter_def received_block_def p(1) wire_block_def make_audio_data_def)
  show ?thesis
    using audio_roundtrip [OF b9 s(1) p(2) b s(2) c1 c2, of "\<lambda>c i. 0" "[]" empty_heap] m by blast
qed



text \<open>What a received block is: a new buffer of whole rows, the fixed sample rate, and no word about the echo.\<close>

definition received_ok :: "heap \<Rightarrow> heap \<Rightarrow> audio_block \<Rightarrow> bool" where
  "received_ok h h' blk \<longleftrightarrow> (\<exists>a b. ab_audioBuffer blk = Some a \<and> mem h a = None \<and> mem h' a = Some b \<and> buffer_wf b
     \<and> buf_numChannels b < 256 \<and> int (buf_numSamples b) \<le> INT_MAX) \<and> ab_sampleRate blk = 48000
     \<and> \<not> cs_dontSendEcho (ab_channelSetup blk)"

lemma read_channels_shape:
  "read_channels k u c chs dest = Value rows \<Longrightarrow> map length rows = map length dest"
proof (induction k u c chs dest rule: read_channels.induct)
  case (2 k u c ch chs dest)
  then obtain samples where s: "ch = Some samples" "c < length dest" "length samples * u \<le> length (dest ! c)"
      "read_channels k u (c + 1) chs (dest[c := written_channel k u samples @ drop (length samples * u) (dest ! c)]) = Value rows"
    by (cases ch) (auto split: if_splits)
  then have "map length rows = map length (dest[c := written_channel k u samples @ drop (length samples * u) (dest ! c)])"
    using "2.IH" by simp
  then show ?case
    using s by (simp add: map_update list_update_same_conv written_channel_def length_concat comp_def sum_list_triv)
qed simp

lemma read_block_ok:
  assumes "readAudioHeaderAndBytes k garbage t h = Value (blk, h')" "heap_wf h"
  shows "heap_wf h' \<and> mem h \<subseteq>\<^sub>m mem h' \<and> received_ok h h' blk"
proof -
  let ?u = "upsample_rate (pb_sampleRate t)"
  let ?n = "unat (pb_numberOfSamples t) * ?u"
  let ?dest = "map (fresh_channel garbage ?n) [0..<unat (pb_numChannels t)]"
  obtain samples rows where r: "pb_channels t = Some samples" "read_channels k ?u 0 samples ?dest = Value rows"
    and n: "int ?n \<le> INT_MAX" and h': "h' = snd (heap_alloc \<lparr>buf_numSamples = ?n, buf_channels = rows\<rparr> h)"
    and blk: "ab_audioBuffer blk = Some (next_addr h)" "ab_sampleRate blk = 48000" "ab_channelSetup blk = readChannelSetup (pb_channelSetup t)"
    using assms(1) by (cases "pb_channels t") (auto simp: readAudioHeaderAndBytes_def Let_def split_beta split: if_splits)
  have shape: "map length rows = replicate (unat (pb_numChannels t)) ?n"
    using read_channels_shape [OF r(2)] by (simp add: fresh_channel_def comp_def map_replicate_const)
  then have "length rows = unat (pb_numChannels t)" by (metis length_map length_replicate)
  moreover have "\<forall>row \<in> set rows. length row = ?n" using shape by (metis in_set_replicate image_eqI list.set_map)
  moreover have "unat (pb_numChannels t) < 256" using unsigned_less [where w = "pb_numChannels t" and 'a = nat] by simp
  ultimately have "buffer_wf \<lparr>buf_numSamples = ?n, buf_channels = rows\<rparr>" "buf_numChannels \<lparr>buf_numSamples = ?n, buf_channels = rows\<rparr> < 256"
    by (simp_all add: buffer_wf_def buf_numChannels_def)
  moreover have "mem h \<subseteq>\<^sub>m mem h'" using heap_wf_fresh [OF assms(2)] by (auto simp: h' map_le_def)
  ultimately show ?thesis
    using n blk heap_wf_fresh [OF assms(2)] heap_wf_alloc [OF assms(2)] by (auto simp: received_ok_def h')
qed

lemma received_ok_later: "received_ok h h' blk \<Longrightarrow> mem h' \<subseteq>\<^sub>m mem h'' \<Longrightarrow> received_ok h h'' blk"
  by (auto simp: received_ok_def map_le_def dom_def)

lemma received_ok_earlier: "received_ok h1 h' blk \<Longrightarrow> mem h \<subseteq>\<^sub>m mem h1 \<Longrightarrow> received_ok h h' blk"
  by (auto simp: received_ok_def map_le_def dom_def)

lemma read_blocks_ok:
  assumes "read_blocks k garbage v blocks h = Value (Some p, h')" "heap_wf h"
  shows "heap_wf h' \<and> mem h \<subseteq>\<^sub>m mem h' \<and> (\<forall>blk \<in> insert (ad_audioBlock p) (set_option (ad_fecBlock p)). received_ok h h' blk)"
proof -
  obtain b1 rest where blocks: "blocks = b1 # rest" using assms by (cases blocks) (auto simp: read_blocks_def)
  then obtain audio h1 where one: "readAudioHeaderAndBytes k garbage b1 h = Value (audio, h1)"
    using assms(1) by (auto simp: read_blocks_def)
  note ok1 = read_block_ok [OF one assms(2)]
  show ?thesis
  proof (cases rest)
    case Nil
    then show ?thesis using assms(1) blocks one ok1 by (auto simp: read_blocks_def Let_def)
  next
    case (Cons b2 others)
    then obtain fec h2 where two: "readAudioHeaderAndBytes k garbage b2 h1 = Value (fec, h2)"
      and p: "ad_audioBlock p = audio" "ad_fecBlock p = Some fec" "h' = h2"
      using assms(1) blocks one by (auto simp: read_blocks_def Let_def split: if_splits)
    note ok2 = read_block_ok [OF two conjunct1 [OF ok1]]
    then show ?thesis
      using ok1 p received_ok_later [of h h1 audio h2] received_ok_earlier [of h1 h2 fec h]
      by (auto intro: map_le_trans)
  qed
qed



text \<open>
  bytes that do not start with the magic number and a known message type give no message and
  change nothing.
\<close>

lemma foreign_bytes_are_ignored:
  assumes "\<And>ty body. data = 49 # 50 # 51 # ty # body \<Longrightarrow> ty \<notin> {AUDIODATA, CLIENTINFO, SESSIONSETUP, GENERIC_JSON}"
  shows "deserialize k garbage data stale h = Value (None, h)"
  using assms by (auto simp: deserialize_def message_of_def split: list.splits)

lemma foreign_bytes_are_ignored_witness:
  "deserialize wire_codec (\<lambda>c i. 0) [49, 50, 51, 99] [] empty_heap = Value (None, empty_heap)"
  by (rule foreign_bytes_are_ignored) (auto simp: message_types)

text \<open>
  the server's report about its clients survives the wire with every counter, address and
  capability; only the three jitter figures of each stream are lost and read as zero.
\<close>

lemma client_info_roundtrip:
  assumes "list_all (\<lambda>c. length (ci_ipAddress c) = 16) (cm_clientInfos m)"
    and "fb_dec_info k (fb_enc_info k (client_info_table m) @ take 4 stale) = Some (client_info_table m)"
  shows "deserialize k garbage (serialize_client_info k m) stale h
    = Value (Some (ClientInfoMessage (m\<lparr>cm_clientInfos := map transmitted_client (cm_clientInfos m)\<rparr>)), h)"
proof -
  have "deserialize_client_info k (writeHeader CLIENTINFO @ fb_enc_info k (client_info_table m)) stale
      = Value (m\<lparr>cm_clientInfos := map transmitted_client (cm_clientInfos m)\<rparr>)"
    using assms(2) infos_roundtrip [OF assms(1)]
    by (simp add: deserialize_client_info_def writeHeader_def) (simp add: client_info_table_def)
  then show ?thesis
    by (simp add: serialize_client_info_def deserialize_header message_of_def AUDIODATA_def CLIENTINFO_def)
qed

definition wire_info :: client_info_message where
  "wire_info = addCapability MtuProbeV1 (addClientInfo (replicate 16 7, False) 5000 empty_quality_info client_info_new)"

lemma client_info_roundtrip_witness:
  "\<exists>k. deserialize k (\<lambda>c i. 0) (serialize_client_info k wire_info) [1, 2, 3, 4] empty_heap
    = Value (Some (ClientInfoMessage (wire_info\<lparr>cm_clientInfos := map transmitted_client (cm_clientInfos wire_info)\<rparr>)), empty_heap)"
proof -
  have "list_all (\<lambda>c. length (ci_ipAddress c) = 16) (cm_clientInfos wire_info)"
    by (simp add: wire_info_def addCapability_def addClientInfo_def client_info_new_def)
  from client_info_roundtrip [OF this, of "zero_codec\<lparr>fb_dec_info := \<lambda>_. Some (client_info_table wire_info)\<rparr>"]
  show ?thesis by (intro exI [of _ "zero_codec\<lparr>fb_dec_info := \<lambda>_. Some (client_info_table wire_info)\<rparr>"]) simp
qed

text \<open>
  the number of clients of a report is kept in one byte: with 256 clients the report counts none,
  and the quality of every stream reads as empty.
\<close>

lemma client_count_wraps:
  assumes "length (cm_clientInfos m) = 256"
  shows "getNumClients m = 0 \<and> (\<forall>n. getStreamQuality n m = empty_quality_info)"
proof -
  have "getNumClients m = 0" using assms by (simp add: getNumClients_def)
  then show ?thesis by (simp add: getStreamQuality_def)
qed

lemma client_count_wraps_witness:
  "getNumClients (client_info_new\<lparr>cm_clientInfos := replicate 256
     \<lparr>ci_ipAddress = replicate 16 7, ci_isIPV6 = False, ci_portNumber = 1, ci_qualityInfo = empty_quality_info\<rparr>\<rparr>) = 0"
  by (rule client_count_wraps [THEN conjunct1]) simp

text \<open>
  a verified audio block that carries more channels than it declares makes the receiver write
  outside its buffer: reading it is undefined behaviour, because no count is checked.
\<close>

lemma surplus_channels_overflow:
  assumes "pb_channels block = Some chs" and "list_all (\<lambda>ch. ch \<noteq> None) chs"
    and "unat (pb_numChannels block) < length chs"
  shows "readAudioHeaderAndBytes k garbage block h = UndefinedBehaviour"
proof -
  define n where "n = unat (pb_numberOfSamples block) * upsample_rate (pb_sampleRate block)"
  have "read_channels k (upsample_rate (pb_sampleRate block)) 0 chs
      (map (fresh_channel garbage n) [0..<unat (pb_numChannels block)]) = UndefinedBehaviour"
    by (rule read_channels_too_many) (use assms(2,3) in simp_all)
  then show ?thesis
    by (simp add: readAudioHeaderAndBytes_def Let_def assms(1) n_def)
qed

lemma surplus_channels_overflow_witness:
  "readAudioHeaderAndBytes zero_codec (\<lambda>c i. 0)
     ((serializeAudioBlock zero_codec (wire_block 9) (buf_silent 2 2) 48000 1 (new_channel_setup False))\<lparr>pb_numChannels := 1\<rparr>)
     empty_heap = UndefinedBehaviour"
  by (rule surplus_channels_overflow [where chs = "replicate 2 (Some (append_channel zero_codec 1 2 (replicate 2 0)))"])
    (simp_all add: serializeAudioBlock_def appendAudioBuffer_def list_all_iff)

text \<open>
  the session message survives the wire: the channels and the capabilities of the sender arrive
  unchanged.
\<close>

lemma session_info_roundtrip:
  assumes "fb_dec_session k (fb_enc_session k \<lparr>pn_allChannels = Some (map channel_to_table (cs_channels (sm_channels m))),
        pn_capabilities = Some (sm_capabilities m)\<rparr>)
      = Some \<lparr>pn_allChannels = Some (map channel_to_table (cs_channels (sm_channels m))), pn_capabilities = Some (sm_capabilities m)\<rparr>"
  shows "\<exists>m'. deserialize k garbage (serialize_session_info k m) stale h = Value (Some (SessionInfoMessage m'), h)
    \<and> cs_channels (sm_channels m') = cs_channels (sm_channels m) \<and> sm_capabilities m' = sm_capabilities m"
  using assms
  by (simp add: serialize_session_info_def deserialize_header message_of_def message_types deserialize_session_info_def)
    (simp add: writeHeader_def)

lemma session_info_roundtrip_witness:
  "\<exists>k m'. deserialize k (\<lambda>c i. 0) (serialize_session_info k (session_addCapability MtuProbeV1 session_info_new)) [] empty_heap
      = Value (Some (SessionInfoMessage m'), empty_heap) \<and> sm_capabilities m' = [MtuProbeV1]"
proof -
  let ?m = "session_addCapability MtuProbeV1 session_info_new"
  let ?k = "zero_codec\<lparr>fb_dec_session := \<lambda>_. Some
    \<lparr>pn_allChannels = Some (map channel_to_table (cs_channels (sm_channels ?m))), pn_capabilities = Some (sm_capabilities ?m)\<rparr>\<rparr>"
  have "sm_capabilities ?m = [MtuProbeV1]" by (simp add: session_addCapability_def session_info_new_def)
  with session_info_roundtrip [of ?k ?m "\<lambda>c i. 0" "[]" empty_heap] show ?thesis by auto
qed

end
