(* ===== verification/Server_Threads_Props.thy ===== *)
theory Server_Threads_Props
  imports Server_Threads Mix_Scheduler_Props Wire_Format_Props
begin

text \<open>
  The server as a whole: the invariant of its shared state over any interleaving of its threads, the
  redundancy the send thread adds, the addresses it answers to, and the ways the process can end.
\<close>

lemma bind_run_Continue [simp]: "bind_run r f = Continue y \<longleftrightarrow> (\<exists>x. r = Continue x \<and> f x = Continue y)"
  by (cases r) auto

lemma json_bool_Continue [simp]: "json_bool v = Continue b \<longleftrightarrow> v = JBool b"
  by (cases v) auto

section \<open>The sender's history\<close>

definition sender_wf :: "sender \<Rightarrow> bool" where
  "sender_wf sd \<longleftrightarrow> smap_wf (sd_fecData sd) \<and> (\<forall>(t, r) \<in> set (sd_fecData sd). ring_wf 16 r)"

lemma sender_new_wf [simp]: "sender_wf sender_new"
  by (simp add: sender_wf_def sender_new_def)

lemma ring_for_wf: "sender_wf sd \<Longrightarrow> ring_wf 16 (ring_for t sd)"
  by (auto simp: ring_for_def sender_wf_def FEC_RINGBUFFER_SIZE_def ring_new_wf dest: map_of_SomeD split: option.splits)

lemma smap_update_set: "(k', v') \<in> set (smap_update k v m) \<Longrightarrow> (k', v') \<in> set m \<or> v' = v"
  by (induction k v m rule: smap_update.induct) (auto split: if_splits)

lemma smap_emplace_set: "(k', v') \<in> set (smap_emplace k v m) \<Longrightarrow> (k', v') \<in> set m \<or> v' = v"
  by (induction k v m rule: smap_emplace.induct) (auto split: if_splits)

lemma smap_update_wf: "smap_wf (smap_update k v m) = smap_wf m"
  by (simp add: smap_wf_def)

lemma ring_for_remember:
  assumes "sender_wf sd"
  shows "ring_for t (remember_block p sd)
    = (if og_targetAddress p = t then ring_push (og_audioBlock p) (ring_for t sd) else ring_for t sd)"
  using assms
  by (auto simp: ring_for_def remember_block_def Let_def smap_update_lookup smap_emplace_lookup sender_wf_def
      split: option.splits)

lemma remember_block_wf [inv_intros]:
  assumes "sender_wf sd"
  shows "sender_wf (remember_block p sd)"
proof -
  have "ring_wf 16 r" if "(t, r) \<in> set (sd_fecData (remember_block p sd))" for t r
  proof -
    have "(t, r) \<in> set (sd_fecData sd) \<or> r = ring_new FEC_RINGBUFFER_SIZE
        \<or> r = ring_push (og_audioBlock p) (ring_for (og_targetAddress p) sd)"
      using that smap_update_set smap_emplace_set by (fastforce simp: remember_block_def Let_def)
    then show ?thesis
      using assms ring_for_wf [OF assms] by (auto simp: sender_wf_def FEC_RINGBUFFER_SIZE_def ring_push_wf)
  qed
  moreover have "smap_wf (sd_fecData (remember_block p sd))"
    using assms by (simp add: remember_block_def Let_def sender_wf_def smap_update_wf)
  ultimately show ?thesis by (auto simp: sender_wf_def)
qed

lemma remember_all_wf: "sender_wf sd \<Longrightarrow> sender_wf (fold remember_block ps sd)"
  by (induction ps arbitrary: sd) (auto intro: remember_block_wf)

lemma ring_for_others:
  "sender_wf sd \<Longrightarrow> (\<And>p. p \<in> set ps \<Longrightarrow> og_targetAddress p \<noteq> t) \<Longrightarrow>
   ring_for t (fold remember_block ps sd) = ring_for t sd"
  by (induction ps arbitrary: sd) (auto simp: ring_for_remember remember_block_wf)

lemma fec_block_newest:
  assumes "sender_wf sd" and "og_targetAddress p = t" and "\<And>q. q \<in> set ys \<Longrightarrow> og_targetAddress q \<noteq> t"
  shows "fec_block_for True (ring_for t (fold remember_block (p # ys) sd)) = Some (og_audioBlock p)"
proof -
  have "ring_for t (fold remember_block (p # ys) sd) = ring_push (og_audioBlock p) (ring_for t sd)"
    using ring_for_others [OF remember_block_wf [OF assms(1)] assms(3)] assms(1,2) by (simp add: ring_for_remember)
  moreover have "\<not> ring_isEmpty (ring_push (og_audioBlock p) (ring_for t sd))"
    "ring_getLast default_block (ring_push (og_audioBlock p) (ring_for t sd)) = Some (og_audioBlock p)"
    by (rule fec_ring.push_not_empty [OF ring_for_wf [OF assms(1)]], rule fec_ring.newest_push [OF ring_for_wf [OF assms(1)]])
  ultimately show ?thesis by (simp add: fec_block_for_def)
qed

section \<open>The invariant of the shared state\<close>

definition server_inv :: "server_state \<Rightarrow> bool" where
  "server_inv s \<longleftrightarrow> distinct (names (sv_clients s)) \<and> (\<forall>(n, c) \<in> members (sv_clients s). cl_inv c)
     \<and> length (sv_sendQueue s) \<le> sendQueueCapacity"

lemma insert_client_names: "names (insert_client n cs) = (if n \<in> set (names cs) then names cs else names cs @ [n])"
  by (simp add: insert_client_def names_def)

lemma insert_client_members:
  "(m, c) \<in> members (insert_client n cs) \<Longrightarrow> (m, c) \<in> members cs \<or> c = cl_new n"
  by (auto simp: insert_client_def members_def split: if_splits)

lemma smap_update_names: "names (smap_update n v cs) = names cs"
  by (simp add: names_def)

lemma processAudio_inv:
  assumes "processAudioMessage clock prefill m n s = Continue s'" and "server_inv s"
  shows "server_inv s' \<and> sv_sendQueue s' = sv_sendQueue s"
proof -
  obtain p c r h' c' where m: "m = Some p" and c: "map_of (insert_client n (sv_clients s)) n = Some (Some c)"
    and p: "cl_push clock p (nat (max 0 prefill)) (sv_heap s) c = Some (r, h', c')"
    and s': "sv_clients s' = smap_update n (Some c') (insert_client n (sv_clients s))"
      "sv_sendQueue s' = sv_sendQueue s"
    using assms(1) by (auto simp: processAudioMessage_def Let_def split: option.splits)
  have inv: "cl_inv d" if "(k, d) \<in> members (insert_client n (sv_clients s))" for k d
    using insert_client_members [OF that] assms(2) by (auto simp: server_inv_def)
  have "(n, Some c) \<in> set (insert_client n (sv_clients s))" using c by (rule map_of_SomeD)
  then have "cl_inv c" using inv by (simp add: members_def)
  then have "cl_inv c'" by (rule cl_push_inv [OF p])
  then have "cl_inv d" if "(k, d) \<in> members (sv_clients s')" for k d
    using that inv smap_update_set by (fastforce simp: s' members_def)
  moreover have "distinct (names (sv_clients s'))"
    using assms(2) by (auto simp: s' smap_update_names insert_client_names server_inv_def)
  ultimately show ?thesis using assms(2) s'(2) by (auto simp: server_inv_def)
qed

lemma processControl_frame:
  assumes "processControlMessage k c j ip port n s = Continue (s', out)"
  shows "sv_clients s' = sv_clients s" and "sv_sendQueue s' = sv_sendQueue s"
  using assms by (auto simp: processControlMessage_def split: option.splits)

lemma accept_step_inv:
  assumes "accept_step k garbage c stale clock prefill e s = Continue (s', out)" and "server_inv s"
  shows "server_inv s'"
proof -
  have keep: "server_inv (s\<lparr>sv_heap := h\<rparr>)" "server_inv (s\<lparr>sv_wakeUpQueue := w\<rparr>)" for h w
    using assms(2) by (simp_all add: server_inv_def)
  have "server_inv s2" if d: "dispatch_message k c clock prefill ip port n m (s\<lparr>sv_heap := h\<rparr>) = Continue (s2, out')"
    for ip port n m h s2 out'
  proof (cases m)
    case (AudioMessage p)
    then obtain s3 where "processAudioMessage clock prefill p (client_name ip port) (s\<lparr>sv_heap := h\<rparr>) = Continue s3" "s2 = s3"
      using d by (auto simp: dispatch_message_def)
    then show ?thesis using processAudio_inv keep(1) by blast
  next
    case (ControlMessage j)
    then have "processControlMessage k c j ip port n (s\<lparr>sv_heap := h\<rparr>) = Continue (s2, out')"
      using that by (simp add: dispatch_message_def)
    from processControl_frame [OF this] show ?thesis using assms(2) by (simp add: server_inv_def)
  qed (use that keep in \<open>auto simp: dispatch_message_def\<close>)
  then show ?thesis
    using assms keep
    by (auto simp: accept_step_def split: socket_event.splits if_splits option.splits outcome.splits prod.splits)
qed

lemma push_outgoing_bound:
  "push_outgoing ps queue = Continue queue' \<Longrightarrow> length queue \<le> sendQueueCapacity \<Longrightarrow>
   queue' = queue @ ps \<and> length queue' \<le> sendQueueCapacity"
  by (induction ps queue rule: push_outgoing.induct) (auto split: if_splits)

lemma push_outgoing_full:
  "sendQueueCapacity < length queue + length ps \<Longrightarrow> length queue \<le> sendQueueCapacity \<Longrightarrow> push_outgoing ps queue = Exit"
  by (induction ps queue rule: push_outgoing.induct) auto

lemma mixer_step_inv:
  assumes "mixer_step mac now (s, sched) = Some (Continue (s', sched'))" and "server_inv s"
  shows "server_inv s'"
proof -
  obtain w wake r h' cs' sc where p: "sched_process mac now (sv_heap s) (sv_clients s) sched = Some (r, h', cs', sc)"
    and s': "sv_clients s' = cs'"
      "(if sr_incoming r \<noteq> [] then push_outgoing (ms_outgoing (sr_mix r)) (sv_sendQueue s) else Continue (sv_sendQueue s))
        = Continue (sv_sendQueue s')"
    using assms(1) by (auto simp: mixer_step_def split: list.splits option.splits)
  have inv: "cl_inv c" if "(n, c) \<in> members (sv_clients s)" for n c using assms(2) that by (auto simp: server_inv_def)
  have clients: "names cs' = names (sv_clients s) \<and> (\<forall>(n, c) \<in> members cs'. cl_inv c)"
    using sched_process_inv [OF p inv] .
  have "length (sv_sendQueue s') \<le> sendQueueCapacity"
    using s'(2) push_outgoing_bound assms(2) by (auto simp: server_inv_def split: if_splits)
  then show ?thesis using clients assms(2) by (simp add: server_inv_def s'(1))
qed

text \<open>Any interleaving of the accept thread, the mixer thread and the send thread taking a package.\<close>

inductive server_step :: "server_state \<times> mix_scheduler \<Rightarrow> server_state \<times> mix_scheduler \<Rightarrow> bool" where
  step_accepts: "accept_step k garbage c stale clock prefill e s = Continue (s', out) \<Longrightarrow> server_step (s, sched) (s', sched)"
| step_mixes: "mixer_step mac now (s, sched) = Some (Continue st') \<Longrightarrow> server_step (s, sched) st'"
| step_sends: "sv_sendQueue s = p # ps \<Longrightarrow> server_step (s, sched) (s\<lparr>sv_sendQueue := ps\<rparr>, sched)"

definition server_new :: "bool \<Rightarrow> server_state" where
  "server_new useFEC = \<lparr>sv_clients = [], sv_wakeUpQueue = [], sv_sendQueue = [], sv_fec = useFEC, sv_heap = empty_heap\<rparr>"

lemma server_step_inv: "server_step st st' \<Longrightarrow> server_inv (fst st) \<Longrightarrow> server_inv (fst st')"
proof (induction rule: server_step.induct)
  case (step_mixes mac now s sched st')
  obtain s' sched' where "st' = (s', sched')" by (cases st')
  then show ?case using mixer_step_inv step_mixes by simp
next
  case (step_accepts k garbage c stale clock prefill e s s' out sched)
  then show ?case using accept_step_inv by simp
qed (simp add: server_inv_def)

lemma server_steps_inv: "server_step\<^sup>*\<^sup>* st st' \<Longrightarrow> server_inv (fst st) \<Longrightarrow> server_inv (fst st')"
  by (induction rule: rtranclp_induct) (auto intro: server_step_inv)

section \<open>Addresses\<close>

lemma decimal_no_space: "decimal n = c # cs \<Longrightarrow> c \<noteq> CHR '' '' \<and> c \<noteq> CHR 0x09 \<and> c \<noteq> CHR 0x0A \<and> c \<noteq> CHR ''-'' \<and> c \<noteq> CHR ''+''"
  using decimal_head [of n] by (auto simp: is_digit_def)

lemma atoi_decimal: "atoi (decimal n) = int n"
proof -
  obtain c cs where d: "decimal n = c # cs" using decimal_head by blast
  show ?thesis
    using decimal_no_space [OF d] read_decimal [of n] by (simp add: atoi_def d del: read_digits.simps)
qed

lemma target_of_client_name:
  assumes "CHR '':'' \<notin> set ip" and "0 \<le> port"
  shows "determineTargetIP (client_name ip port) = (ip, port)"
proof -
  have t: "takeWhile (\<lambda>c. c \<noteq> CHR '':'') (ip @ '':'' @ decimal (nat port)) = ip"
    using assms(1) by (subst takeWhile_append2) auto
  show ?thesis
    using assms(2) by (simp add: client_name_def determineTargetIP_def Let_def t [simplified] atoi_decimal)
qed

text \<open>A package for a client, and a codec that transports one control message, for the witnesses.\<close>

definition wire_outgoing :: "string \<Rightarrow> u64 \<Rightarrow> outgoing_package" where
  "wire_outgoing target n = \<lparr>og_targetAddress = target, og_audioBlock = wire_block n,
     og_sessionSetup = new_channel_setup False, og_receiverProtocolVersion = 6\<rparr>"

definition text_codec :: codec where
  "text_codec = zero_codec\<lparr>fb_enc_control := \<lambda>m. [1], fb_dec_control := \<lambda>b. Some (Some ''FEC''),
     fb_dump := \<lambda>j. ''FEC'', fb_parse := \<lambda>s. Some (JObject [(''FEC'', JUnsigned 1)])\<rparr>"

section \<open>Properties\<close>





text \<open>
  An accepted audio package wakes the mixer exactly once and a refused one does not; either way the
  package's sender is a client afterwards and no other client changes.
\<close>

lemma audio_package_wakes_mixer_once:
  assumes "processAudioMessage clock prefill (Some p) name s = Continue s'"
  shows "\<exists>c r h' c'. map_of (insert_client name (sv_clients s)) name = Some (Some c)
    \<and> cl_push clock p (nat (max 0 prefill)) (sv_heap s) c = Some (r, h', c')
    \<and> map_of (sv_clients s') name = Some (Some c')
    \<and> (\<forall>other. other \<noteq> name \<longrightarrow> map_of (sv_clients s') other = map_of (sv_clients s) other)
    \<and> sv_wakeUpQueue s' = sv_wakeUpQueue s @ (if pr_queued r then [1] else [])"
proof -
  have new: "map_of (insert_client name cs) other = map_of cs other" if "other \<noteq> name" for other cs
    using that by (auto simp: insert_client_def map_add_def split: option.splits)
  show ?thesis
    using assms
    by (auto simp: processAudioMessage_def Let_def smap_update_lookup new split: option.splits)
qed

lemma audio_package_wakes_mixer_once_witness:
  "\<exists>s'. processAudioMessage (\<lambda>i. 0) 0 (Some wire_packet) ''a:1'' (server_new True) = Continue s'
    \<and> map_of (sv_clients s') ''b:2'' = None"
proof -
  have "cl_push (\<lambda>i. 0) wire_packet 0 empty_heap (cl_new ''a:1'') \<noteq> None"
    by (simp add: cl_push_def cl_new_def split_beta Let_def)
  then obtain s' where s': "processAudioMessage (\<lambda>i. 0) 0 (Some wire_packet) ''a:1'' (server_new True) = Continue s'"
    by (auto simp: processAudioMessage_def insert_client_def server_new_def Let_def split: option.splits)
  from audio_package_wakes_mixer_once [OF s'] show ?thesis
    using s' by (intro exI [of _ s']) (auto simp: server_new_def)
qed



text \<open>
  A mixed package goes to where its client's packages came from: the address the accept thread
  writes down for a datagram is read back by the send thread as the same IP address and port.
\<close>

lemma replies_reach_the_sender:
  assumes "CHR '':'' \<notin> set ip" and "0 \<le> port"
  shows "determineTargetIP (client_name ip port) = (ip, port)"
  by (rule target_of_client_name [OF assms])

lemma replies_reach_the_sender_witness:
  "determineTargetIP (client_name ''192.168.1.4'' 49152) = (''192.168.1.4'', 49152)"
  by (rule replies_reach_the_sender) simp_all

text \<open>
  The mixer's packages are queued all and in order, or the process ends: nothing is dropped when the
  send queue is full.
\<close>

lemma send_queue_full_ends_server:
  assumes "length queue \<le> sendQueueCapacity"
  shows "push_outgoing packages queue
    = (if length queue + length packages \<le> sendQueueCapacity then Continue (queue @ packages) else Exit)"
  using assms by (induction packages queue rule: push_outgoing.induct) auto

lemma send_queue_full_ends_server_witness:
  "push_outgoing (replicate 2 (wire_outgoing ''a:1'' 1)) (replicate 127 (wire_outgoing ''a:1'' 1)) = Exit"
  using send_queue_full_ends_server [of "replicate 127 (wire_outgoing ''a:1'' 1)" "replicate 2 (wire_outgoing ''a:1'' 1)"]
  by (simp add: sendQueueCapacity_def)

end
