(* ===== verification/Path_Mtu_Props.thy ===== *)
theory Path_Mtu_Props
  imports Path_Mtu
begin

text \<open>
  The search keeps its bounds in every reachable state, never reports a size that was not
  acknowledged, and finds the limit of a path to within the alignment of the probes.
\<close>

section \<open>The invariant\<close>

definition safe_ok :: "int \<Rightarrow> bool" where
  "safe_ok a \<longleftrightarrow> a = 0 \<or> 1200 \<le> a \<and> a \<le> 16384 \<and> 8 dvd a"

definition growing :: "int \<Rightarrow> int \<Rightarrow> int \<Rightarrow> bool" where
  "growing a c u \<longleftrightarrow> u = 0 \<and> first_above a growthTargets = Some c"

definition halving :: "int \<Rightarrow> int \<Rightarrow> int \<Rightarrow> bool" where
  "halving a c u \<longleftrightarrow> 1200 \<le> a \<and> 8 dvd u \<and> u < 16384 \<and> u - a \<le> 8184 \<and> a + 8 \<le> u
     \<and> c = a + 8 * max 1 ((u - a) div 8 div 2)"

definition mtu_inv :: "path_mtu \<Rightarrow> bool" where
  "mtu_inv s \<longleftrightarrow> safe_ok (pm_safePayloadBytes s)
     \<and> (pm_status s = Searching \<longrightarrow>
          growing (pm_safePayloadBytes s) (pm_candidatePayloadBytes s) (pm_upperBoundPayloadBytes s)
          \<or> halving (pm_safePayloadBytes s) (pm_candidatePayloadBytes s) (pm_upperBoundPayloadBytes s))
     \<and> (pm_awaitingAcknowledgement s \<longrightarrow> mp_payloadBytes (pm_activeProbe s) = pm_candidatePayloadBytes s
          \<and> 1 \<le> pm_attempts s \<and> pm_attempts s \<le> 3)"

lemma growth_cases:
  "first_above n growthTargets =
    (if n < 1200 then Some 1200 else if n < 1472 then Some 1472 else if n < 2048 then Some 2048
     else if n < 4096 then Some 4096 else if n < 8192 then Some 8192 else if n < 16384 then Some 16384 else None)"
  by (simp add: growthTargets_def)

lemma growing_bounds:
  assumes "growing a c u"
  shows "a < c" "1200 \<le> c" "c \<le> 16384" "8 dvd c" "1200 \<le> a \<Longrightarrow> c - a \<le> 8192" "u = 0"
  using assms by (auto simp: growing_def growth_cases split: if_splits)

lemma halving_bounds:
  assumes "halving a c u" and "8 dvd a"
  shows "a < c" "c \<le> u" "8 dvd c" "0 < u"
proof -
  show "a < c" "0 < u" using assms by (auto simp: halving_def)
  show "c \<le> u" using assms by (auto simp: halving_def max_def)
  show "8 dvd c" using assms by (auto simp: halving_def)
qed

lemma halving_range: "halving a c u \<Longrightarrow> 1200 \<le> a \<and> 8 dvd u \<and> u < 16384 \<and> u - a \<le> 8184 \<and> a + 8 \<le> u"
  unfolding halving_def by (elim conjE) (intro conjI)

lemma half_span:
  assumes "8 dvd a" and "8 dvd (u::int)"
  shows "(u - a) div 2 div 8 * 8 = 8 * ((u - a) div 8 div 2)"
proof -
  have "(u - a) div 2 div 8 = (u - a) div 8 div 2"
    by (simp only: zdiv_zmult2_eq [symmetric] mult.commute [of 2])
  then show ?thesis by simp
qed

lemma binary_continues:
  assumes "safe_ok (pm_safePayloadBytes s)" and "1200 \<le> pm_safePayloadBytes s"
    and "8 dvd pm_upperBoundPayloadBytes s" and "pm_safePayloadBytes s + 8 \<le> pm_upperBoundPayloadBytes s"
    and "pm_upperBoundPayloadBytes s < 16384" and "pm_upperBoundPayloadBytes s - pm_safePayloadBytes s \<le> 8184"
  shows "\<exists>c. selectBinarySearchTarget s = s\<lparr>pm_candidatePayloadBytes := c\<rparr>
    \<and> halving (pm_safePayloadBytes s) c (pm_upperBoundPayloadBytes s)"
proof -
  let ?a = "pm_safePayloadBytes s" and ?u = "pm_upperBoundPayloadBytes s"
  let ?c = "?a + 8 * max 1 ((?u - ?a) div 8 div 2)"
  have "8 dvd ?a" using assms(1,2) by (auto simp: safe_ok_def)
  from half_span [OF this assms(3)] have half: "(?u - ?a) div 2 div 8 * 8 = 8 * ((?u - ?a) div 8 div 2)" .
  moreover have "0 \<le> (?u - ?a) div 8 div 2" using assms(4) by simp
  ultimately have "selectBinarySearchTarget s = s\<lparr>pm_candidatePayloadBytes := ?c\<rparr>"
    using assms(4) unfolding selectBinarySearchTarget_def probeAlignmentBytes_def Let_def half by (simp add: max_def)
  moreover have "halving ?a ?c ?u" using assms by (simp add: halving_def)
  ultimately show ?thesis by blast
qed

lemma binary_complete:
  "pm_upperBoundPayloadBytes s < pm_safePayloadBytes s + 8 \<Longrightarrow> selectBinarySearchTarget s = s\<lparr>pm_status := Complete\<rparr>"
  by (simp add: selectBinarySearchTarget_def probeAlignmentBytes_def)

lemma binary_inv:
  assumes "safe_ok (pm_safePayloadBytes s)" and "1200 \<le> pm_safePayloadBytes s"
    and "8 dvd pm_upperBoundPayloadBytes s"
    and "pm_upperBoundPayloadBytes s < 16384" and "pm_upperBoundPayloadBytes s - pm_safePayloadBytes s \<le> 8184"
    and "\<not> pm_awaitingAcknowledgement s"
  shows "mtu_inv (selectBinarySearchTarget s)"
proof (cases "pm_safePayloadBytes s + 8 \<le> pm_upperBoundPayloadBytes s")
  case True
  with binary_continues [OF assms(1-3) True assms(4,5)] assms show ?thesis by (auto simp: mtu_inv_def)
next
  case False
  then show ?thesis using assms by (simp add: binary_complete mtu_inv_def)
qed

lemma candidate_ok:
  assumes "mtu_inv s" and "pm_status s = Searching"
  shows "pm_safePayloadBytes s < pm_candidatePayloadBytes s" "1200 \<le> pm_candidatePayloadBytes s"
    "pm_candidatePayloadBytes s \<le> 16384" "8 dvd pm_candidatePayloadBytes s"
proof -
  consider "growing (pm_safePayloadBytes s) (pm_candidatePayloadBytes s) (pm_upperBoundPayloadBytes s)"
    | "halving (pm_safePayloadBytes s) (pm_candidatePayloadBytes s) (pm_upperBoundPayloadBytes s)" "8 dvd pm_safePayloadBytes s"
    using assms by (auto simp: mtu_inv_def safe_ok_def)
  then have "pm_safePayloadBytes s < pm_candidatePayloadBytes s \<and> 1200 \<le> pm_candidatePayloadBytes s
    \<and> pm_candidatePayloadBytes s \<le> 16384 \<and> 8 dvd pm_candidatePayloadBytes s"
  proof cases
    case 1 then show ?thesis using growing_bounds by blast
  next
    case 2
    from halving_bounds [OF this] halving_range [OF 2(1)] show ?thesis by simp
  qed
  then show "pm_safePayloadBytes s < pm_candidatePayloadBytes s" "1200 \<le> pm_candidatePayloadBytes s"
    "pm_candidatePayloadBytes s \<le> 16384" "8 dvd pm_candidatePayloadBytes s" by simp_all
qed

lemma recordSuccess_inv:
  assumes "mtu_inv s" "pm_status s = Searching" "\<not> pm_awaitingAcknowledgement s"
  shows "mtu_inv (recordSuccess s)"
proof -
  let ?s = "s\<lparr>pm_safePayloadBytes := pm_candidatePayloadBytes s\<rparr>"
  have ok: "safe_ok (pm_candidatePayloadBytes s)"
    using candidate_ok [OF assms(1,2)] by (simp add: safe_ok_def)
  show ?thesis
  proof (cases "0 < pm_upperBoundPayloadBytes s")
    case True
    then have "halving (pm_safePayloadBytes s) (pm_candidatePayloadBytes s) (pm_upperBoundPayloadBytes s)"
      using assms(1,2) by (auto simp: mtu_inv_def growing_def)
    then have "mtu_inv (selectBinarySearchTarget ?s)"
      using ok candidate_ok [OF assms(1,2)] assms(3) halving_range by (intro binary_inv) fastforce+
    then show ?thesis using True by (simp add: recordSuccess_def Let_def)
  next
    case False
    then have "growing (pm_safePayloadBytes s) (pm_candidatePayloadBytes s) (pm_upperBoundPayloadBytes s)"
      using assms(1,2) halving_range by (fastforce simp: mtu_inv_def)
    then have "pm_upperBoundPayloadBytes s = 0" by (simp add: growing_def)
    then show ?thesis
      using ok assms(3)
      by (auto simp: recordSuccess_def Let_def selectNextGrowthTarget_def mtu_inv_def growing_def split: option.splits)
  qed
qed

lemma recordFailure_inv:
  assumes "mtu_inv s" "pm_status s = Searching" "\<not> pm_awaitingAcknowledgement s"
  shows "mtu_inv (recordFailure s)"
proof (cases "pm_safePayloadBytes s = 0")
  case True
  then show ?thesis using assms by (simp add: recordFailure_def mtu_inv_def)
next
  case False
  then have a: "1200 \<le> pm_safePayloadBytes s" "safe_ok (pm_safePayloadBytes s)"
    using assms(1) by (auto simp: mtu_inv_def safe_ok_def)
  have "pm_candidatePayloadBytes s - pm_safePayloadBytes s \<le> 8192"
  proof -
    consider "growing (pm_safePayloadBytes s) (pm_candidatePayloadBytes s) (pm_upperBoundPayloadBytes s)"
      | "halving (pm_safePayloadBytes s) (pm_candidatePayloadBytes s) (pm_upperBoundPayloadBytes s)"
      using assms(1,2) by (auto simp: mtu_inv_def)
    then show ?thesis
    proof cases
      case 1 then show ?thesis using growing_bounds(5) a(1) by blast
    next
      case 2
      have "8 dvd pm_safePayloadBytes s" using a by (auto simp: safe_ok_def)
      then have "pm_candidatePayloadBytes s \<le> pm_upperBoundPayloadBytes s" using halving_bounds(2) [OF 2] by simp
      moreover have "pm_upperBoundPayloadBytes s - pm_safePayloadBytes s \<le> 8184" using halving_range [OF 2] by simp
      ultimately show ?thesis by simp
    qed
  qed
  then have "mtu_inv (selectBinarySearchTarget (s\<lparr>pm_upperBoundPayloadBytes := pm_candidatePayloadBytes s - 8\<rparr>))"
    using a candidate_ok [OF assms(1,2)] assms(3) by (intro binary_inv) auto
  then show ?thesis using False by (simp add: recordFailure_def probeAlignmentBytes_def)
qed

lemma overdue_inv:
  assumes "mtu_inv s" "pm_status s = Searching"
  shows "mtu_inv (mtu_overdue s)"
proof (cases "pm_awaitingAcknowledgement s \<and> maximumAttempts \<le> pm_attempts s")
  case True
  have "mtu_inv (s\<lparr>pm_awaitingAcknowledgement := False\<rparr>)" using assms by (simp add: mtu_inv_def)
  then show ?thesis using True assms recordFailure_inv by (simp add: mtu_overdue_def)
qed (use assms in \<open>auto simp: mtu_overdue_def\<close>)

lemma begin_frame [simp]:
  "pm_status (mtu_begin s) = pm_status s" "pm_safePayloadBytes (mtu_begin s) = pm_safePayloadBytes s"
  "pm_candidatePayloadBytes (mtu_begin s) = pm_candidatePayloadBytes s"
  "pm_upperBoundPayloadBytes (mtu_begin s) = pm_upperBoundPayloadBytes s"
  "pm_awaitingAcknowledgement (mtu_begin s)"
  "pm_earliestNextProbe (mtu_begin s) = pm_earliestNextProbe s"
  by (simp_all add: mtu_begin_def)

lemma overdue_waiting:
  "pm_awaitingAcknowledgement (mtu_overdue s) \<Longrightarrow> mtu_overdue s = s \<and> pm_attempts s < 3 \<and> pm_awaitingAcknowledgement s"
  by (auto simp: mtu_overdue_def maximumAttempts_def recordFailure_def selectBinarySearchTarget_def Let_def split: if_splits)

lemma poll_inv [inv_intros]:
  assumes "mtu_inv s"
  shows "mtu_inv (snd (mtu_poll now s))"
    and "fst (mtu_poll now s) = Some p \<Longrightarrow> mp_payloadBytes p = pm_candidatePayloadBytes (snd (mtu_poll now s))
      \<and> pm_status (snd (mtu_poll now s)) = Searching \<and> pm_activeProbe (snd (mtu_poll now s)) = p
      \<and> pm_awaitingAcknowledgement (snd (mtu_poll now s))"
proof -
  let ?o = "mtu_overdue s"
  have send: "mtu_inv (mtu_begin ?o\<lparr>pm_attempts := pm_attempts (mtu_begin ?o) + 1, pm_deadline := d\<rparr>)
      \<and> mp_payloadBytes (pm_activeProbe (mtu_begin ?o)) = pm_candidatePayloadBytes ?o"
    if "pm_status s = Searching" for d
  proof (cases "pm_awaitingAcknowledgement ?o")
    case True
    from overdue_waiting [OF True] show ?thesis using assms by (auto simp: mtu_begin_def mtu_inv_def)
  next
    case False
    then show ?thesis using overdue_inv [OF assms that] by (simp add: mtu_begin_def mtu_inv_def)
  qed
  show "mtu_inv (snd (mtu_poll now s))"
    using assms send overdue_inv [OF assms] by (simp add: mtu_poll_def Let_def)
  show "mp_payloadBytes p = pm_candidatePayloadBytes (snd (mtu_poll now s))
      \<and> pm_status (snd (mtu_poll now s)) = Searching \<and> pm_activeProbe (snd (mtu_poll now s)) = p
      \<and> pm_awaitingAcknowledgement (snd (mtu_poll now s))"
    if "fst (mtu_poll now s) = Some p"
    using that send by (auto simp: mtu_poll_def Let_def split: if_splits)
qed

lemma acknowledge_inv [inv_intros]:
  assumes "mtu_inv s"
  shows "mtu_inv (snd (mtu_acknowledge n b now s))"
proof -
  have "mtu_inv (s\<lparr>pm_awaitingAcknowledgement := False, pm_attempts := 0, pm_earliestNextProbe := e\<rparr>)" for e
    using assms by (simp add: mtu_inv_def)
  then show ?thesis using assms recordSuccess_inv by (simp add: mtu_acknowledge_def)
qed

lemma setSupported_inv [inv_intros]: "mtu_inv s \<Longrightarrow> mtu_inv (mtu_setSupported b s)"
  by (auto simp: mtu_setSupported_def mtu_inv_def safe_ok_def growing_def growth_cases fallbackPayloadBytes_def)

lemma markFailed_inv [inv_intros]: "mtu_inv s \<Longrightarrow> mtu_inv (mtu_markFailed s)"
  by (simp add: mtu_markFailed_def mtu_inv_def)

lemma mtu_new_inv [simp]: "mtu_inv mtu_new"
  by (simp add: mtu_inv_def mtu_new_def safe_ok_def)

section \<open>Runs\<close>

datatype mtu_event = Supported bool | Gave_Up | Polled timepoint | Acknowledged u64 int timepoint

fun mtu_apply :: "mtu_event \<Rightarrow> path_mtu \<Rightarrow> path_mtu" where
  "mtu_apply (Supported b) s = mtu_setSupported b s"
| "mtu_apply Gave_Up s = mtu_markFailed s"
| "mtu_apply (Polled now) s = snd (mtu_poll now s)"
| "mtu_apply (Acknowledged n b now) s = snd (mtu_acknowledge n b now s)"

lemma apply_inv: "mtu_inv s \<Longrightarrow> mtu_inv (mtu_apply e s)"
  by (cases e) (auto intro: inv_intros)

lemma run_inv: "mtu_inv s \<Longrightarrow> mtu_inv (fold mtu_apply es s)"
  by (induction es arbitrary: s) (auto intro: apply_inv)

lemma select_safe [simp]:
  "pm_safePayloadBytes (selectBinarySearchTarget s) = pm_safePayloadBytes s"
  "pm_safePayloadBytes (selectNextGrowthTarget s) = pm_safePayloadBytes s"
  "pm_safePayloadBytes (recordFailure s) = pm_safePayloadBytes s"
  "pm_safePayloadBytes (mtu_overdue s) = pm_safePayloadBytes s"
  "pm_safePayloadBytes (recordSuccess s) = pm_candidatePayloadBytes s"
  by (simp_all add: selectBinarySearchTarget_def selectNextGrowthTarget_def recordFailure_def mtu_overdue_def
      recordSuccess_def Let_def split: option.splits)

lemma poll_safe [simp]: "pm_safePayloadBytes (snd (mtu_poll now s)) = pm_safePayloadBytes s"
  by (simp add: mtu_poll_def Let_def)

lemma acknowledge_safe:
  "mtu_inv s \<Longrightarrow> pm_safePayloadBytes (snd (mtu_acknowledge n b now s))
    = (if fst (mtu_acknowledge n b now s) then b else pm_safePayloadBytes s)"
  by (auto simp: mtu_acknowledge_def mtu_inv_def)

lemma run_safe:
  "mtu_inv s \<Longrightarrow> pm_safePayloadBytes s = 0 \<or> pm_safePayloadBytes s \<in> B \<Longrightarrow>
   (\<And>n b now. Acknowledged n b now \<in> set es \<Longrightarrow> b \<in> B) \<Longrightarrow>
   pm_safePayloadBytes (fold mtu_apply es s) = 0 \<or> pm_safePayloadBytes (fold mtu_apply es s) \<in> B"
proof (induction es arbitrary: s)
  case (Cons e es)
  have "pm_safePayloadBytes (mtu_apply e s) = 0 \<or> pm_safePayloadBytes (mtu_apply e s) \<in> B"
    using Cons.prems by (cases e) (auto simp: acknowledge_safe mtu_setSupported_def mtu_markFailed_def)
  with Cons.IH [OF apply_inv [OF Cons.prems(1)] this] Cons.prems(3) show ?case
    by (metis fold_simps(2) list.set_intros(2))
qed simp

section \<open>A path with a limit\<close>

text \<open>
  The path delivers and acknowledges every probe of at most \<open>limit\<close> bytes and loses the larger ones;
  the search is polled once per probe timeout.
\<close>

definition mtu_round :: "int \<Rightarrow> timepoint \<Rightarrow> path_mtu \<Rightarrow> path_mtu" where
  "mtu_round limit now s =
     (case mtu_poll now s of
        (None, s') \<Rightarrow> s'
      | (Some p, s') \<Rightarrow>
          if mp_payloadBytes p \<le> limit then snd (mtu_acknowledge (mp_id p) (mp_payloadBytes p) now s') else s')"

fun mtu_rounds :: "int \<Rightarrow> timepoint \<Rightarrow> nat \<Rightarrow> path_mtu \<Rightarrow> path_mtu" where
  "mtu_rounds limit now 0 s = s"
| "mtu_rounds limit now (Suc n) s = mtu_rounds limit (now + probeTimeout) n (mtu_round limit now s)"

text \<open>How many verdicts on a candidate are left, and what they establish.\<close>

fun halvings :: "nat \<Rightarrow> nat" where
  "halvings u = (if u \<le> 1 then u else 1 + halvings ((u + 1) div 2))"

declare halvings.simps [simp del]

lemma halvings_small [simp]: "halvings 0 = 0" "halvings (Suc 0) = 1"
  by (simp_all add: halvings.simps)

lemma halvings_step: "2 \<le> u \<Longrightarrow> halvings u = 1 + halvings ((u + 1) div 2)"
  by (simp add: halvings.simps)

lemma halvings_mono: "u \<le> v \<Longrightarrow> halvings u \<le> halvings v"
proof (induction v arbitrary: u rule: less_induct)
  case (less v)
  show ?case
  proof (cases "u \<le> 1")
    case True
    then consider "u = 0" | "u = 1" by linarith
    then show ?thesis
    proof cases
      case 2
      then show ?thesis using less.prems by (cases "v = 1") (auto simp: halvings_step)
    qed simp
  next
    case False
    then have "halvings ((u + 1) div 2) \<le> halvings ((v + 1) div 2)" using less.prems by (intro less.IH) auto
    then show ?thesis using False less.prems by (simp add: halvings_step)
  qed
qed

lemma halvings_1023: "halvings 1023 = 11"
  by (simp add: halvings.simps)

definition span :: "path_mtu \<Rightarrow> nat" where
  "span s = nat ((pm_upperBoundPayloadBytes s - pm_safePayloadBytes s) div 8)"

definition verdicts_left :: "path_mtu \<Rightarrow> nat" where
  "verdicts_left s =
     (if pm_status s \<noteq> Searching then 0
      else if pm_upperBoundPayloadBytes s = 0
           then 11 + length (filter (\<lambda>t. pm_safePayloadBytes s < t) growthTargets)
      else halvings (span s))"

definition bracketed :: "int \<Rightarrow> path_mtu \<Rightarrow> bool" where
  "bracketed limit s \<longleftrightarrow> mtu_inv s \<and> pm_safePayloadBytes s \<le> max 0 limit
     \<and> pm_status s \<noteq> Unavailable
     \<and> (pm_status s = Searching \<and> 0 < pm_upperBoundPayloadBytes s \<longrightarrow> limit < pm_upperBoundPayloadBytes s + 8)
     \<and> (pm_status s = Complete \<longrightarrow> 1200 \<le> limit \<and> 1200 \<le> pm_safePayloadBytes s
          \<and> (limit < pm_safePayloadBytes s + 8 \<or> pm_safePayloadBytes s = 16384))
     \<and> (pm_status s = Failed \<longrightarrow> limit < 1200 \<and> pm_safePayloadBytes s = 0)"

lemma halvings_half:
  assumes "1 \<le> u"
  shows "halvings (u - max 1 (u div 2)) < halvings u" and "halvings (max 1 (u div 2) - 1) < halvings u"
proof -
  have "halvings k < halvings u" if "k \<le> (u + 1) div 2" "u = 1 \<longrightarrow> k = 0" for k
  proof (cases "u = 1")
    case False
    then show ?thesis using assms halvings_mono [OF that(1)] by (simp add: halvings_step)
  qed (use that in simp)
  from this [of "u - max 1 (u div 2)"] this [of "max 1 (u div 2) - 1"]
  show "halvings (u - max 1 (u div 2)) < halvings u" "halvings (max 1 (u div 2) - 1) < halvings u"
    using assms by (auto simp: max_def)
qed

text \<open>The bracket in units of eight bytes.\<close>

lemma halving_units:
  assumes "halving a c u" and "8 dvd a"
  obtains U :: nat where "1 \<le> U" "u = a + 8 * int U" "c = a + 8 * int (max 1 (U div 2))" "nat ((u - a) div 8) = U"
proof -
  have u: "8 dvd u - a" "8 \<le> u - a" using halving_range [OF assms(1)] assms(2) by auto
  define U where "U = nat ((u - a) div 8)"
  have U: "u - a = 8 * int U" using u by (simp add: U_def)
  then have "c = a + 8 * max 1 (int U div 2)" using assms(1) by (simp add: halving_def)
  also have "max 1 (int U div 2) = int (max 1 (U div 2))" by (simp add: max_def zdiv_int)
  finally have "c = a + 8 * int (max 1 (U div 2))" .
  moreover have "1 \<le> U" "u = a + 8 * int U" using U u(2) by linarith+
  ultimately show thesis using that [of U] by (simp add: U_def [symmetric])
qed

lemma searchBinary_verdict:
  assumes "safe_ok (pm_safePayloadBytes s)" "1200 \<le> pm_safePayloadBytes s" "pm_safePayloadBytes s \<le> limit"
    and "pm_upperBoundPayloadBytes s = pm_safePayloadBytes s + 8 * int k" "k \<le> 1023"
    and "pm_upperBoundPayloadBytes s < 16384" "limit < pm_upperBoundPayloadBytes s + 8"
    and "pm_status s = Searching" "\<not> pm_awaitingAcknowledgement s"
  shows "bracketed limit (selectBinarySearchTarget s) \<and> verdicts_left (selectBinarySearchTarget s) = halvings k"
proof -
  have u: "8 dvd pm_upperBoundPayloadBytes s" using assms(1,2,4) by (auto simp: safe_ok_def)
  have inv: "mtu_inv (selectBinarySearchTarget s)" using assms u by (intro binary_inv) auto
  show ?thesis
  proof (cases "k = 0")
    case True
    then have "selectBinarySearchTarget s = s\<lparr>pm_status := Complete\<rparr>" using assms by (simp add: binary_complete)
    then show ?thesis using True assms inv by (simp add: bracketed_def verdicts_left_def)
  next
    case False
    then obtain c where "selectBinarySearchTarget s = s\<lparr>pm_candidatePayloadBytes := c\<rparr>"
      using binary_continues [OF assms(1,2) u] assms(4-6) by auto
    then show ?thesis using assms inv by (simp add: bracketed_def verdicts_left_def span_def)
  qed
qed

lemma binary_verdict:
  assumes "bracketed limit s" "pm_status s = Searching" "\<not> pm_awaitingAcknowledgement s"
    and h: "halving (pm_safePayloadBytes s) (pm_candidatePayloadBytes s) (pm_upperBoundPayloadBytes s)"
    and "s' = (if pm_candidatePayloadBytes s \<le> limit then recordSuccess s else recordFailure s)"
  shows "bracketed limit s' \<and> verdicts_left s' < verdicts_left s"
proof -
  let ?a = "pm_safePayloadBytes s" and ?c = "pm_candidatePayloadBytes s" and ?u = "pm_upperBoundPayloadBytes s"
  have inv: "mtu_inv s" and lim: "?a \<le> limit" "limit < ?u + 8"
    using assms(1,2) halving_range [OF h] by (auto simp: bracketed_def)
  have a: "safe_ok ?a" "1200 \<le> ?a" "8 dvd ?a" using inv halving_range [OF h] by (auto simp: mtu_inv_def safe_ok_def)
  obtain U where U: "1 \<le> U" "?u = ?a + 8 * int U" "?c = ?a + 8 * int (max 1 (U div 2))" "nat ((?u - ?a) div 8) = U"
    using halving_units [OF h a(3)] by blast
  have left: "verdicts_left s = halvings U"
    using assms(2) halving_range [OF h] U(4) by (simp add: verdicts_left_def span_def)
  have U1: "U \<le> 1023" "max 1 (U div 2) \<le> U" using halving_range [OF h] U(1,2) by auto
  show ?thesis
  proof (cases "?c \<le> limit")
    case True
    let ?s = "s\<lparr>pm_safePayloadBytes := ?c\<rparr>"
    have "safe_ok ?c" using candidate_ok [OF inv assms(2)] by (simp add: safe_ok_def)
    then have "bracketed limit (selectBinarySearchTarget ?s)
        \<and> verdicts_left (selectBinarySearchTarget ?s) = halvings (U - max 1 (U div 2))"
      using True U U1 lim a halving_range [OF h] assms(2,3)
      by (intro searchBinary_verdict) (auto simp: of_nat_diff)
    then show ?thesis
      using assms(5) True halving_range [OF h] halvings_half(1) [OF U(1)] left by (simp add: recordSuccess_def Let_def)
  next
    case False
    let ?s = "s\<lparr>pm_upperBoundPayloadBytes := ?c - 8\<rparr>"
    have "bracketed limit (selectBinarySearchTarget ?s)
        \<and> verdicts_left (selectBinarySearchTarget ?s) = halvings (max 1 (U div 2) - 1)"
      using False U U1 lim a halving_range [OF h] assms(2,3) halving_bounds(2) [OF h a(3)]
      by (intro searchBinary_verdict) (auto simp: of_nat_diff)
    then show ?thesis
      using assms(5) False a halvings_half(2) [OF U(1)] left
      by (simp add: recordFailure_def probeAlignmentBytes_def)
  qed
qed

lemma fewer_targets:
  "first_above a growthTargets = Some c \<Longrightarrow>
   length (filter (\<lambda>t. c < t) growthTargets) < length (filter (\<lambda>t. a < t) growthTargets)"
  by (simp add: growthTargets_def split: if_splits)

lemma growth_success:
  assumes "bracketed limit s" "pm_status s = Searching" "\<not> pm_awaitingAcknowledgement s"
    and g: "growing (pm_safePayloadBytes s) (pm_candidatePayloadBytes s) (pm_upperBoundPayloadBytes s)"
    and c: "pm_candidatePayloadBytes s \<le> limit"
  shows "bracketed limit (recordSuccess s) \<and> verdicts_left (recordSuccess s) < verdicts_left s"
proof -
  let ?c = "pm_candidatePayloadBytes s"
  have u: "pm_upperBoundPayloadBytes s = 0" and f: "first_above (pm_safePayloadBytes s) growthTargets = Some ?c"
    using g by (auto simp: growing_def)
  have inv: "mtu_inv (recordSuccess s)" using assms(1-3) recordSuccess_inv by (simp add: bracketed_def)
  have r: "recordSuccess s = selectNextGrowthTarget (s\<lparr>pm_safePayloadBytes := ?c\<rparr>)"
    using u by (simp add: recordSuccess_def Let_def)
  have c': "1200 \<le> ?c" using growing_bounds(2) [OF g] .
  show ?thesis
  proof (cases "first_above ?c growthTargets")
    case None
    then have "?c = 16384" using growing_bounds(3) [OF g] by (auto simp: growth_cases split: if_splits)
    then show ?thesis
      using None inv c c' u assms(2)
      by (auto simp: r selectNextGrowthTarget_def bracketed_def verdicts_left_def)
  next
    case (Some c1)
    then show ?thesis
      using inv c u assms(2) fewer_targets [OF f]
      by (auto simp: r selectNextGrowthTarget_def bracketed_def verdicts_left_def)
  qed
qed

lemma growth_failure:
  assumes "bracketed limit s" "pm_status s = Searching" "\<not> pm_awaitingAcknowledgement s"
    and g: "growing (pm_safePayloadBytes s) (pm_candidatePayloadBytes s) (pm_upperBoundPayloadBytes s)"
    and c: "limit < pm_candidatePayloadBytes s"
  shows "bracketed limit (recordFailure s) \<and> verdicts_left (recordFailure s) < verdicts_left s"
proof -
  let ?a = "pm_safePayloadBytes s" and ?c = "pm_candidatePayloadBytes s"
  have inv: "mtu_inv s" and a: "?a \<le> max 0 limit" using assms(1) by (auto simp: bracketed_def)
  have f: "first_above ?a growthTargets = Some ?c" using g by (simp add: growing_def)
  have left: "11 < verdicts_left s"
    using growing_bounds(6) [OF g] assms(2) fewer_targets [OF f] by (auto simp: verdicts_left_def)
  show ?thesis
  proof (cases "?a = 0")
    case True
    then have "recordFailure s = s\<lparr>pm_status := Failed\<rparr>" "?c = 1200"
      using f by (auto simp: recordFailure_def growth_cases)
    then show ?thesis
      using recordFailure_inv [OF inv assms(2,3)] c left True assms(2) by (simp add: bracketed_def verdicts_left_def)
  next
    case False
    then have ok: "safe_ok ?a" "1200 \<le> ?a" "8 dvd ?a" using inv by (auto simp: mtu_inv_def safe_ok_def)
    define k where "k = nat ((?c - 8 - ?a) div 8)"
    have k: "?c - 8 = ?a + 8 * int k" "k \<le> 1023"
      using ok growing_bounds(1,4) [OF g] growing_bounds(5) [OF g ok(2)] by (auto simp: k_def)
    let ?s = "s\<lparr>pm_upperBoundPayloadBytes := ?c - 8\<rparr>"
    have "bracketed limit (selectBinarySearchTarget ?s) \<and> verdicts_left (selectBinarySearchTarget ?s) = halvings k"
      using k ok a c growing_bounds(3) [OF g] assms(2,3) by (intro searchBinary_verdict) auto
    moreover have "halvings k \<le> 11" using halvings_mono [OF k(2)] by (simp add: halvings_1023)
    ultimately show ?thesis using False left by (simp add: recordFailure_def probeAlignmentBytes_def)
  qed
qed

lemma verdict:
  assumes "bracketed limit s" "pm_status s = Searching" "\<not> pm_awaitingAcknowledgement s"
    and s': "s' = (if pm_candidatePayloadBytes s \<le> limit then recordSuccess s else recordFailure s)"
  shows "bracketed limit s' \<and> verdicts_left s' < verdicts_left s"
proof -
  consider "growing (pm_safePayloadBytes s) (pm_candidatePayloadBytes s) (pm_upperBoundPayloadBytes s)"
    | "halving (pm_safePayloadBytes s) (pm_candidatePayloadBytes s) (pm_upperBoundPayloadBytes s)"
    using assms(1,2) by (auto simp: bracketed_def mtu_inv_def)
  then show ?thesis
  proof cases
    case 1 then show ?thesis using growth_success [OF assms(1-3) 1] growth_failure [OF assms(1-3) 1] s' by simp
  next
    case 2 then show ?thesis using binary_verdict [OF assms(1-3) 2 s'] by simp
  qed
qed

text \<open>Rounds: three lost transmissions make a failed candidate, a delivered one a success.\<close>

definition effort :: "path_mtu \<Rightarrow> nat" where
  "effort s =
     (if pm_status s \<noteq> Searching then 0
      else 4 * verdicts_left s + (if pm_awaitingAcknowledgement s then 3 - nat (pm_attempts s) else 3))"

definition on_time :: "int \<Rightarrow> timepoint \<Rightarrow> path_mtu \<Rightarrow> bool" where
  "on_time limit now s \<longleftrightarrow> bracketed limit s \<and> (pm_status s = Searching \<longrightarrow> pm_earliestNextProbe s \<le> now
     \<and> (pm_awaitingAcknowledgement s \<longrightarrow> limit < pm_candidatePayloadBytes s \<and> pm_deadline s \<le> now))"

lemma select_frame [simp]:
  "pm_awaitingAcknowledgement (recordSuccess s) = pm_awaitingAcknowledgement s"
  "pm_earliestNextProbe (recordSuccess s) = pm_earliestNextProbe s"
  "pm_awaitingAcknowledgement (recordFailure s) = pm_awaitingAcknowledgement s"
  "pm_earliestNextProbe (recordFailure s) = pm_earliestNextProbe s"
  by (simp_all add: recordSuccess_def recordFailure_def selectBinarySearchTarget_def selectNextGrowthTarget_def
      Let_def split: option.splits)

lemma bracketed_cong:
  assumes "bracketed limit s" "pm_status s' = pm_status s" "pm_safePayloadBytes s' = pm_safePayloadBytes s"
    "pm_candidatePayloadBytes s' = pm_candidatePayloadBytes s"
    "pm_upperBoundPayloadBytes s' = pm_upperBoundPayloadBytes s"
    "pm_awaitingAcknowledgement s' \<Longrightarrow> mp_payloadBytes (pm_activeProbe s') = pm_candidatePayloadBytes s'
       \<and> 1 \<le> pm_attempts s' \<and> pm_attempts s' \<le> 3"
  shows "bracketed limit s'" and "verdicts_left s' = verdicts_left s"
  using assms by (auto simp: bracketed_def mtu_inv_def verdicts_left_def span_def)

lemma round_sends:
  assumes "bracketed limit s" "pm_status s = Searching" "\<not> pm_awaitingAcknowledgement s" "pm_earliestNextProbe s \<le> now"
  shows "on_time limit (now + probeTimeout) (mtu_round limit now s)" and "effort (mtu_round limit now s) \<le> 4 * verdicts_left s + 2"
proof -
  let ?s2 = "mtu_begin s"
  let ?s3 = "?s2\<lparr>pm_attempts := pm_attempts ?s2 + 1, pm_deadline := now + probeTimeout\<rparr>"
  let ?s4 = "?s3\<lparr>pm_awaitingAcknowledgement := False, pm_attempts := 0, pm_earliestNextProbe := now + probeTimeout\<rparr>"
  have p: "mtu_poll now s = (Some (pm_activeProbe ?s2), ?s3)"
    using assms(2-4) by (simp add: mtu_poll_def mtu_overdue_def Let_def)
  have a: "mp_payloadBytes (pm_activeProbe ?s2) = pm_candidatePayloadBytes s" "pm_attempts ?s3 = 1"
    using assms(3) by (simp_all add: mtu_begin_def)
  have pt: "0 \<le> probeTimeout" by (simp add: probeTimeout_def milliseconds_def)
  have "on_time limit (now + probeTimeout) (mtu_round limit now s) \<and> effort (mtu_round limit now s) \<le> 4 * verdicts_left s + 2"
  proof (cases "pm_candidatePayloadBytes s \<le> limit")
    case True
    then have r: "mtu_round limit now s = recordSuccess ?s4"
      using assms(2) by (simp add: mtu_round_def p a mtu_acknowledge_def)
    have b: "bracketed limit ?s4" "verdicts_left ?s4 = verdicts_left s"
      by (rule bracketed_cong [OF assms(1)]; simp)+
    have "bracketed limit (recordSuccess ?s4) \<and> verdicts_left (recordSuccess ?s4) < verdicts_left ?s4"
      using True assms(2) by (intro verdict [OF b(1)]) simp_all
    then show ?thesis using b(2) by (auto simp: r on_time_def effort_def)
  next
    case False
    then have r: "mtu_round limit now s = ?s3" by (simp add: mtu_round_def p a)
    have b: "bracketed limit ?s3" "verdicts_left ?s3 = verdicts_left s"
      using a by (intro bracketed_cong [OF assms(1)]; simp)+
    then show ?thesis using assms(2,4) False a(2) pt unfolding r by (simp add: on_time_def effort_def)
  qed
  then show "on_time limit (now + probeTimeout) (mtu_round limit now s)"
    and "effort (mtu_round limit now s) \<le> 4 * verdicts_left s + 2" by simp_all
qed

lemma round_resends:
  assumes "on_time limit now s" "pm_status s = Searching" "pm_awaitingAcknowledgement s" "pm_attempts s < 3"
  shows "on_time limit (now + probeTimeout) (mtu_round limit now s)" and "effort (mtu_round limit now s) < effort s"
proof -
  let ?s3 = "s\<lparr>pm_attempts := pm_attempts s + 1, pm_deadline := now + probeTimeout\<rparr>"
  have t: "bracketed limit s" "limit < pm_candidatePayloadBytes s" "pm_deadline s \<le> now" "pm_earliestNextProbe s \<le> now"
    using assms by (auto simp: on_time_def)
  have a: "mp_payloadBytes (pm_activeProbe s) = pm_candidatePayloadBytes s" "1 \<le> pm_attempts s"
    using t(1) assms(3) by (auto simp: bracketed_def mtu_inv_def)
  have r: "mtu_round limit now s = ?s3"
    using assms(2-4) t a by (simp add: mtu_round_def mtu_poll_def mtu_overdue_def mtu_begin_def maximumAttempts_def Let_def)
  have b: "bracketed limit ?s3" "verdicts_left ?s3 = verdicts_left s"
    using a assms(4) by (intro bracketed_cong [OF t(1)]; simp)+
  have pt: "0 \<le> probeTimeout" by (simp add: probeTimeout_def milliseconds_def)
  show "on_time limit (now + probeTimeout) (mtu_round limit now s)"
    using b t assms(2) pt unfolding r by (simp add: on_time_def)
  show "effort (mtu_round limit now s) < effort s"
    using b a assms(2-4) unfolding r by (simp add: effort_def)
qed

lemma round_fails:
  assumes "on_time limit now s" "pm_status s = Searching" "pm_awaitingAcknowledgement s" "\<not> pm_attempts s < 3"
  shows "on_time limit (now + probeTimeout) (mtu_round limit now s) \<and> effort (mtu_round limit now s) < effort s"
proof -
  let ?s0 = "s\<lparr>pm_awaitingAcknowledgement := False\<rparr>"
  let ?s1 = "recordFailure ?s0"
  have t: "bracketed limit s" "limit < pm_candidatePayloadBytes s" "pm_deadline s \<le> now" "pm_earliestNextProbe s \<le> now"
    using assms by (auto simp: on_time_def)
  have b: "bracketed limit ?s0" "verdicts_left ?s0 = verdicts_left s"
    by (rule bracketed_cong [OF t(1)]; simp)+
  have v: "bracketed limit ?s1 \<and> verdicts_left ?s1 < verdicts_left s"
    using t(2) assms(2) b(2) verdict [OF b(1), of ?s1] by simp
  have o: "mtu_overdue s = ?s1" using assms(3,4) by (simp add: mtu_overdue_def maximumAttempts_def)
  have left: "4 * verdicts_left s \<le> effort s" using assms(2) by (simp add: effort_def)
  show ?thesis
  proof (cases "pm_status ?s1 = Searching")
    case False
    then have "mtu_round limit now s = ?s1"
      using assms(2) t(3) o by (simp add: mtu_round_def mtu_poll_def Let_def)
    then show ?thesis using v False left by (simp add: on_time_def effort_def)
  next
    case True
    then have "mtu_poll now s = mtu_poll now ?s1"
      using assms(2,3) t(3) o by (simp add: mtu_poll_def Let_def mtu_overdue_def [of ?s1])
    then have "mtu_round limit now s = mtu_round limit now ?s1" by (simp add: mtu_round_def)
    then show ?thesis
      using round_sends [of limit ?s1 now] v True t(4) left by simp
  qed
qed

lemma round_progress:
  assumes "on_time limit now s" "pm_status s = Searching"
  shows "on_time limit (now + probeTimeout) (mtu_round limit now s) \<and> effort (mtu_round limit now s) < effort s"
proof (cases "pm_awaitingAcknowledgement s")
  case True
  then show ?thesis using round_resends [OF assms True] round_fails [OF assms True] by blast
next
  case False
  then show ?thesis using round_sends [of limit s now] assms by (auto simp: on_time_def effort_def)
qed

lemma round_idle: "pm_status s \<noteq> Searching \<Longrightarrow> mtu_round limit now s = s"
  by (simp add: mtu_round_def mtu_poll_def)

lemma rounds_finish:
  "on_time limit now s \<Longrightarrow> effort s \<le> n \<Longrightarrow>
   bracketed limit (mtu_rounds limit now n s) \<and> pm_status (mtu_rounds limit now n s) \<noteq> Searching"
proof (induction n arbitrary: now s)
  case 0
  then show ?case using round_progress [of limit now s] by (auto simp: on_time_def)
next
  case (Suc n)
  show ?case
  proof (cases "pm_status s = Searching")
    case True
    then show ?thesis using Suc round_progress [OF Suc.prems(1) True] by simp
  next
    case False
    then have "on_time limit (now + probeTimeout) s" "effort s = 0"
      using Suc.prems(1) by (simp_all add: on_time_def effort_def)
    then show ?thesis using Suc.IH [of "now + probeTimeout" s] False by (simp add: round_idle)
  qed
qed

section \<open>Properties\<close>


text \<open>
  C18: On a path that carries datagrams of at most \<open>limit\<close> bytes the search ends within 72 probe
  timeouts (36 seconds): it fails when the path does not even carry the fallback size, and otherwise
  completes with a size the path carries that is less than eight bytes below the limit (or the maximum).
\<close>

theorem mtu_search_finds_limit:
  assumes "0 \<le> now" and "72 \<le> n"
  shows "let s = mtu_rounds limit now n (mtu_setSupported True mtu_new)
    in if limit < 1200 then pm_status s = Failed \<and> mtu_safePayloadBytes s = 1200
       else pm_status s = Complete \<and> mtu_safePayloadBytes s \<le> limit
         \<and> (limit < mtu_safePayloadBytes s + 8 \<or> mtu_safePayloadBytes s = 16384)"
proof -
  let ?s0 = "mtu_setSupported True mtu_new"
  have "on_time limit now ?s0"
    using assms(1) setSupported_inv [OF mtu_new_inv, of True]
    by (simp add: on_time_def bracketed_def mtu_setSupported_def mtu_new_def)
  moreover have "effort ?s0 \<le> n"
    using assms(2) by (simp add: effort_def verdicts_left_def mtu_setSupported_def mtu_new_def growthTargets_def)
  ultimately have "bracketed limit (mtu_rounds limit now n ?s0)" "pm_status (mtu_rounds limit now n ?s0) \<noteq> Searching"
    using rounds_finish by blast+
  then show ?thesis
    by (cases "pm_status (mtu_rounds limit now n ?s0)")
      (auto simp: bracketed_def Let_def mtu_safePayloadBytes_def fallbackPayloadBytes_def)
qed

theorem mtu_search_finds_limit_witness:
  "let s = mtu_rounds 1500 0 72 (mtu_setSupported True mtu_new)
   in pm_status s = Complete \<and> mtu_safePayloadBytes s \<le> 1500 \<and> 1492 < mtu_safePayloadBytes s"
  using mtu_search_finds_limit [of 0 72 1500] by (auto simp: Let_def)

end
