(* ===== verification/Client_Network_Props.thy ===== *)
theory Client_Network_Props
  imports Data_Receive Server_Threads_Props Path_Mtu_Props
begin

text \<open>
  Client and server together: a captured block reaches the server's jitter buffer, a probe of the path
  size comes back as its acknowledgement, and what happens when a client starts over.
\<close>

section \<open>One audio package\<close>

definition plain_table :: "codec \<Rightarrow> audio_data \<Rightarrow> audio_buffer \<Rightarrow> pnp_audio_data" where
  "plain_table k p b = \<lparr>pd_audioBlocks = Some [serializeAudioBlock k (ad_audioBlock p) b 48000 1 (legacy_sent p)],
     pd_protocolVersion = ad_protocolVersion p\<rparr>"

lemma audio_table_plain:
  assumes "Option.bind (ab_audioBuffer (ad_audioBlock p)) (mem h) = Some b" and "ad_fecBlock p = None"
  shows "audio_table k h p = Value (plain_table k p b)"
  using assms by (simp add: audio_table_def Let_def block_audio_def plain_table_def legacy_sent_def)

text \<open>What the receiver of a message without a redundant block makes of it.\<close>

definition received_plain :: "audio_data \<Rightarrow> nat \<Rightarrow> audio_data" where
  "received_plain p a = \<lparr>ad_audioBlock = received_block (ad_audioBlock p) a, ad_fecBlock = None,
     ad_protocolVersion = ad_protocolVersion p,
     ad_legacySessionSetup = Some ((new_channel_setup False)\<lparr>cs_channels := cs_channels (legacy_sent p)\<rparr>)\<rparr>"

lemma received_plain_simps [simp]:
  "messageCounter (received_plain p a) = messageCounter p" "ad_timestamp (received_plain p a) = ad_timestamp p"
  "ad_bpm (received_plain p a) = ad_bpm p" "ad_midiSignal (received_plain p a) = ad_midiSignal p"
  "audioBuffer (received_plain p a) = Some a"
  by (simp_all add: received_plain_def received_block_def messageCounter_def ad_timestamp_def ad_bpm_def
      ad_midiSignal_def audioBuffer_def)

lemma read_blocks_plain:
  assumes "sendable 1 b"
  shows "read_blocks k garbage v [serializeAudioBlock k src b 48000 1 legacy] h
    = Value (Some \<lparr>ad_audioBlock = received_block src (next_addr h), ad_fecBlock = None, ad_protocolVersion = v,
         ad_legacySessionSetup = Some ((new_channel_setup False)\<lparr>cs_channels := cs_channels legacy\<rparr>)\<rparr>,
       snd (heap_alloc (transmitted k 1 b) h))"
proof -
  have legacy: "pb_allChannels (serializeAudioBlock k src b 48000 rf legacy) = Some (map channel_to_table (cs_channels legacy))" for rf
    by (simp add: serializeAudioBlock_def)
  show ?thesis
    unfolding read_blocks_def list.case block_roundtrip [OF disjI1 [OF refl] assms] by (simp add: legacy Let_def)
qed

lemma plain_roundtrip:
  assumes "Option.bind (ab_audioBuffer (ad_audioBlock p)) (mem h) = Some b" "sendable 1 b" "ad_fecBlock p = None"
    and "fb_dec_audio k (fb_enc_audio k (plain_table k p b)) = Some (plain_table k p b)"
      "60 \<le> length (fb_enc_audio k (plain_table k p b))"
  shows "serialize_audio k h p = Value (writeHeader AUDIODATA @ fb_enc_audio k (plain_table k p b))"
    and "deserialize k garbage (writeHeader AUDIODATA @ fb_enc_audio k (plain_table k p b)) stale h2
    = Value (Some (AudioMessage (Some (received_plain p (next_addr h2)))), snd (heap_alloc (transmitted k 1 b) h2))"
proof -
  show "serialize_audio k h p = Value (writeHeader AUDIODATA @ fb_enc_audio k (plain_table k p b))"
    by (simp add: serialize_audio_def audio_table_plain [OF assms(1,3)])
  have "deserialize_audio k garbage (writeHeader AUDIODATA @ fb_enc_audio k (plain_table k p b)) h2
      = read_blocks k garbage (ad_protocolVersion p)
          [serializeAudioBlock k (ad_audioBlock p) b 48000 1 (legacy_sent p)] h2"
    using assms(4,5) by (simp add: deserialize_audio_def sizeof_JammerNetzAudioHeader_def writeHeader_def plain_table_def)
  then show "deserialize k garbage (writeHeader AUDIODATA @ fb_enc_audio k (plain_table k p b)) stale h2
    = Value (Some (AudioMessage (Some (received_plain p (next_addr h2)))), snd (heap_alloc (transmitted k 1 b) h2))"
    by (simp add: deserialize_header message_of_def read_blocks_plain [OF assms(2), unfolded One_nat_def] received_plain_def)
qed

text \<open>Reversing the cipher, where one is used.\<close>

definition decrypts :: "cipher option \<Rightarrow> u8 list \<Rightarrow> u8 list \<Rightarrow> bool" where
  "decrypts c plain wire \<longleftrightarrow> encrypt_for_send c plain = Some wire \<and> wire \<noteq> []
     \<and> (case c of None \<Rightarrow> Some wire | Some b \<Rightarrow> cf_decrypt b wire) = Some plain"

lemma accept_step_decrypted:
  assumes "decrypts c plain wire" and "plain \<noteq> []"
  shows "accept_step k garbage c stale clock prefill (Received_Datagram ip port wire) s
    = (case deserialize k garbage plain stale (sv_heap s) of
         Value (None, h') \<Rightarrow> Continue (s\<lparr>sv_heap := h'\<rparr>, [])
       | Value (Some m, h') \<Rightarrow> dispatch_message k c clock prefill ip port (int (length wire)) m (s\<lparr>sv_heap := h'\<rparr>)
       | _ \<Rightarrow> Undefined)"
  using assms by (simp add: accept_step_def decrypts_def)

lemma receive_step_decrypted:
  assumes "decrypts (rt_blowFish r) plain wire"
  shows "receive_step k garbage stale handlers millis (Received_Datagram ip port wire) h r
    = (case deserialize k garbage plain stale h of
         Value (None, h') \<Rightarrow> Continue (r, h', [])
       | Value (Some m, h') \<Rightarrow> bind_run (receive_message handlers millis m (r\<lparr>rt_isReceiving := True\<rparr>))
            (\<lambda>(r', events). Continue (r', h', events))
       | _ \<Rightarrow> Undefined)"
  using assms by (simp add: receive_step_def decrypts_def)

lemma sendBytes_out [simp]: "snd (sendBytes write target bytes) = [(fst target, snd target, bytes)]"
  by (simp add: sendBytes_def Let_def)

lemma sendBuffer_out:
  assumes "encrypt_for_send (nc_blowFish c) bytes = Some wire" and "sizet_is_safe_as_int (word_of_nat (length bytes))"
  shows "snd (fst (sendBufferToServer write bytes c)) = [(fst (client_target c), snd (client_target c), wire)]"
    and "nc_messageCounter (snd (sendBufferToServer write bytes c)) = nc_messageCounter c"
  using assms by (auto simp: sendBufferToServer_def encrypt_for_send_def split: option.splits)

lemma maybeSend_counter [simp]: "nc_messageCounter (snd (maybeSendMtuProbe k write now c)) = nc_messageCounter c"
  by (simp add: maybeSendMtuProbe_def split_beta Let_def)

section \<open>One probe\<close>

definition cipher_ok :: "cipher option \<Rightarrow> bool" where
  "cipher_ok c = (case c of None \<Rightarrow> True
     | Some b \<Rightarrow> \<forall>plain wire. cf_encrypt b plain = Some wire \<longrightarrow> wire \<noteq> [] \<and> cf_decrypt b wire = Some plain)"

lemma cipher_ok_decrypts:
  "cipher_ok c \<Longrightarrow> encrypt_for_send c plain = Some wire \<Longrightarrow> plain \<noteq> [] \<Longrightarrow> decrypts c plain wire"
  by (auto simp: cipher_ok_def decrypts_def encrypt_for_send_def split: option.splits)

text \<open>The JSON text of \<open>j\<close> survives its FlatBuffers table and is parsed to \<open>j'\<close>.\<close>

definition control_decodes :: "codec \<Rightarrow> json \<Rightarrow> json \<Rightarrow> bool" where
  "control_decodes k j j' \<longleftrightarrow>
     fb_dec_control k (fb_enc_control k (Some (fb_dump k j))) = Some (Some (fb_dump k j)) \<and> fb_parse k (fb_dump k j) = Some j'"

text \<open>The parser reads a number without a sign as an unsigned one.\<close>

definition parsed_probe :: "mtu_probe \<Rightarrow> nat \<Rightarrow> json" where
  "parsed_probe probe padding =
     JObject [(''mtu_probe_v1'', JObject [(''id'', JUnsigned (mp_id probe)),
       (''padding'', JString (replicate padding (CHR ''p''))), (''size'', JUnsigned (word_of_int (mp_payloadBytes probe)))])]"

definition parsed_acknowledgement :: "mtu_probe \<Rightarrow> json" where
  "parsed_acknowledgement probe =
     JObject [(''mtu_ack_v1'', JObject [(''id'', JUnsigned (mp_id probe)),
       (''size'', JUnsigned (word_of_int (mp_payloadBytes probe)))])]"

lemma serialize_control_nonempty [simp]: "serialize_control k j \<noteq> []"
  by (simp add: serialize_control_def writeHeader_def)

lemma control_roundtrip:
  assumes "control_decodes k j j'"
  shows "deserialize k garbage (serialize_control k j) stale h = Value (Some (ControlMessage j'), h)"
proof -
  have d: "deserialize_control k (writeHeader GENERIC_JSON @ fb_enc_control k (Some (fb_dump k j))) = Value j'"
    using assms by (simp add: deserialize_control_def writeHeader_def deref_def control_decodes_def)
  have t: "GENERIC_JSON \<noteq> AUDIODATA" "GENERIC_JSON \<noteq> CLIENTINFO" "GENERIC_JSON \<noteq> SESSIONSETUP"
    by (simp_all add: message_types)
  show ?thesis unfolding serialize_control_def deserialize_header message_of_def d by (simp add: t)
qed

lemma probe_loop_sends:
  "(a, b, wire) \<in> set (snd (probe_loop k write probe c n padding)) \<Longrightarrow>
   \<exists>pad. encrypt_for_send (nc_blowFish c) (serialize_control k (probe_json probe pad)) = Some wire
     \<and> int (length wire) = mp_payloadBytes probe"
  by (induction n arbitrary: padding) (auto simp: Let_def split: if_splits option.splits)

lemma probe_sends:
  "(a, b, wire) \<in> set (snd (sendMtuProbe k write probe c)) \<Longrightarrow>
   \<exists>pad. encrypt_for_send (nc_blowFish c) (serialize_control k (probe_json probe pad)) = Some wire
     \<and> int (length wire) = mp_payloadBytes probe"
  unfolding sendMtuProbe_def Let_def by (rule probe_loop_sends)

lemma uint_payload: "0 \<le> n \<Longrightarrow> n \<le> INT_MAX \<Longrightarrow> uint (word_of_int n :: u64) = n"
  by (simp add: uint_word_of_int INT_MAX_def)

lemma sint_payload: "0 \<le> n \<Longrightarrow> n \<le> INT_MAX \<Longrightarrow> sint (word_of_int n :: u64) = n"
  by (simp add: sint_uint uint_payload signed_take_bit_int_eq_self INT_MAX_def)

lemma server_acknowledges:
  assumes "decrypts c (serialize_control k (probe_json probe pad)) wire" "int (length wire) = mp_payloadBytes probe"
    and "control_decodes k (probe_json probe pad) (parsed_probe probe pad)"
    and "0 < mp_payloadBytes probe" "mp_payloadBytes probe \<le> INT_MAX"
  shows "accept_step k garbage c stale clock prefill (Received_Datagram ip port wire) s
    = Continue (s, sendMtuAcknowledgement k c ip port (mp_id probe) (mp_payloadBytes probe))"
proof -
  have "probe_id (parsed_probe probe pad) (mp_payloadBytes probe) = Some (mp_id probe)"
    "json_member ''FEC'' (parsed_probe probe pad) = None"
    using uint_payload [of "mp_payloadBytes probe"] assms(4,5) by (simp_all add: probe_id_def parsed_probe_def)
  then show ?thesis
    using assms(2)
    by (simp add: accept_step_decrypted [OF assms(1)] control_roundtrip [OF assms(3)] dispatch_message_def
        processControlMessage_def)
qed

lemma client_reads_acknowledgement:
  assumes "decrypts (rt_blowFish r) (serialize_control k (acknowledgement (mp_id probe) (mp_payloadBytes probe))) wire"
    and "control_decodes k (acknowledgement (mp_id probe) (mp_payloadBytes probe)) (parsed_acknowledgement probe)"
    and "0 < mp_payloadBytes probe" "mp_payloadBytes probe \<le> INT_MAX"
  shows "receive_step k garbage stale True millis (Received_Datagram ip port wire) h r
    = Continue (r\<lparr>rt_isReceiving := True\<rparr>, h, [Mtu_Acknowledgement (mp_id probe) (mp_payloadBytes probe)])"
proof -
  have "receive_control True (parsed_acknowledgement probe) = [Mtu_Acknowledgement (mp_id probe) (mp_payloadBytes probe)]"
    using sint_payload [of "mp_payloadBytes probe"] assms(3,4) by (simp add: receive_control_def parsed_acknowledgement_def)
  then show ?thesis
    by (simp add: receive_step_decrypted [OF assms(1)] control_roundtrip [OF assms(2)] receive_message_def Let_def)
qed

lemma acknowledged_probe_is_safe:
  assumes "mtu_inv m" and "mtu_poll now m = (Some p, m')"
  shows "mtu_safePayloadBytes (snd (mtu_acknowledge (mp_id p) (mp_payloadBytes p) later m')) = mp_payloadBytes p"
    and "1200 \<le> mp_payloadBytes p" and "mp_payloadBytes p \<le> 16384"
proof -
  have m': "mtu_inv m'" "mp_payloadBytes p = pm_candidatePayloadBytes m'" "pm_status m' = Searching"
    "pm_activeProbe m' = p" "pm_awaitingAcknowledgement m'"
    using poll_inv [OF assms(1), of now] assms(2) by auto
  show "1200 \<le> mp_payloadBytes p" "mp_payloadBytes p \<le> 16384" using candidate_ok [OF m'(1,3)] m'(2) by simp_all
  then show "mtu_safePayloadBytes (snd (mtu_acknowledge (mp_id p) (mp_payloadBytes p) later m')) = mp_payloadBytes p"
    using m' by (simp add: mtu_acknowledge_def mtu_safePayloadBytes_def)
qed

section \<open>A client that starts over\<close>

text \<open>A queue that is empty and has delivered counter \<open>L\<close>, and stays so.\<close>

definition drained_at :: "u64 \<Rightarrow> client_state \<Rightarrow> bool" where
  "drained_at L c \<longleftrightarrow> (\<exists>q. cl_queue c = Some q \<and> psq_packetQueue q = [] \<and> psq_lastPoppedMessage q = L)
     \<and> cl_state c \<noteq> Disconnected \<and> cl_hasConnected c"

lemma push_late:
  assumes "messageCounter p \<le> psq_lastPoppedMessage q"
  shows "\<not> fst (psq_push now p q)" and "psq_packetQueue (snd (psq_push now p q)) = psq_packetQueue q"
    and "psq_lastPoppedMessage (snd (psq_push now p q)) = psq_lastPoppedMessage q"
  using assms by (simp_all add: psq_push_def hasBeenPushedBefore_def)

lemma drained_push:
  assumes "drained_at L c" and "messageCounter p \<le> L"
  shows "\<exists>r c'. cl_push clock p n h c = Some (r, h, c') \<and> \<not> pr_queued r \<and> drained_at L c'"
  using assms push_late
  by (auto simp: drained_at_def cl_push_def cl_connect_def Let_def split_beta)

lemma drained_pop: "psq_packetQueue q = [] \<Longrightarrow> psq_try_pop h q = (None, h, q)"
  by (simp add: psq_try_pop_def)

lemma drained_step:
  assumes "cl_step c e c'" and "drained_at L c"
    and "case e of Received p \<Rightarrow> messageCounter p \<le> L | CheckedExpiry now b \<Rightarrow> \<not> b | _ \<Rightarrow> True"
  shows "drained_at L c'"
  using assms
proof (induction rule: cl_step.induct)
  case (cl_receive clock p n h c r h' c')
  then show ?case using drained_push [of L c p clock n h] by auto
next
  case (cl_poll h c r h' c')
  then show ?case by (auto simp: drained_at_def cl_tryPop_def drained_pop)
next
  case (cl_relieve m k c r c')
  then show ?case by (auto simp: drained_at_def cl_applyQueuePressure_def psq_size_def Let_def)
next
  case (cl_underrun g now c b c')
  then show ?case by (auto simp: drained_at_def cl_markUnderrun_def split: if_splits)
next
  case (cl_expire now c b c')
  then show ?case by (auto simp: drained_at_def cl_disconnectIfGraceExpired_def split: if_splits)
qed

lemma drained_steps:
  "cl_steps c es c' \<Longrightarrow> drained_at L c \<Longrightarrow> (\<And>p. Received p \<in> set es \<Longrightarrow> messageCounter p \<le> L) \<Longrightarrow>
   (\<And>now. CheckedExpiry now True \<notin> set es) \<Longrightarrow> drained_at L c'"
proof (induction rule: cl_steps.induct)
  case (cl_steps_snoc c es c' e c'')
  show ?case
  proof (rule drained_step)
    show "cl_step c' e c''" by (rule cl_steps_snoc.hyps(2))
    show "drained_at L c'" using cl_steps_snoc.IH cl_steps_snoc.prems by simp
    show "case e of Received p \<Rightarrow> messageCounter p \<le> L | CheckedExpiry now b \<Rightarrow> \<not> b | _ \<Rightarrow> True"
      using cl_steps_snoc.prems(2,3) by (auto split: client_event.split)
  qed
qed

section \<open>Properties\<close>

text \<open>The message a client makes of a captured block.\<close>

definition captured :: "net_client \<Rightarrow> real \<Rightarrow> channel_setup \<Rightarrow> nat \<Rightarrow> control_data \<Rightarrow> audio_data" where
  "captured c millis setup audio controllers =
     make_audio_data (nc_messageCounter c) millis setup (int SAMPLE_RATE) (ct_bpm controllers)
       (case ct_midiSignal controllers of None \<Rightarrow> MidiSignal_None | Some m \<Rightarrow> m) (Some audio) None"




text \<open>For the witness: a codec that keeps the kind and the length of a control text.\<close>

definition tagged_codec :: "mtu_probe \<Rightarrow> codec" where
  "tagged_codec p = zero_codec\<lparr>
     fb_dump := \<lambda>j. (case json_member ''mtu_probe_v1'' j of
                       None \<Rightarrow> ''A''
                     | Some probe \<Rightarrow> (case json_member ''padding'' probe of Some (JString s) \<Rightarrow> CHR ''P'' # s | _ \<Rightarrow> [])),
     fb_parse := \<lambda>t. (case t of [] \<Rightarrow> None
                       | ch # s \<Rightarrow> Some (if ch = CHR ''P'' then parsed_probe p (length s) else parsed_acknowledgement p)),
     fb_enc_control := \<lambda>t. (case t of Some (ch # s) \<Rightarrow> (if ch = CHR ''P'' then 1 else 2) # replicate (length s) 0 | _ \<Rightarrow> []),
     fb_dec_control := \<lambda>d. (case d of [] \<Rightarrow> None
                       | b # s \<Rightarrow> Some (Some (if b = 1 then CHR ''P'' # replicate (length s) (CHR ''p'') else ''A'')))\<rparr>"

lemma tagged_codec_decodes:
  "control_decodes (tagged_codec p) (probe_json p pad) (parsed_probe p pad)"
  "control_decodes (tagged_codec p) (acknowledgement n b) (parsed_acknowledgement p)"
  by (simp_all add: control_decodes_def tagged_codec_def probe_json_def acknowledgement_def)

lemma tagged_codec_size: "length (serialize_control (tagged_codec p) (probe_json p pad)) = 5 + pad"
  by (simp add: serialize_control_def writeHeader_def tagged_codec_def probe_json_def)

lemma probe_loop_finds:
  assumes "i < n" and "\<And>j. j < i \<Longrightarrow> wireSizeFor (nc_blowFish c) (length (serialize_control k (probe_json p (start + j)))) \<noteq> mp_payloadBytes p"
    and "wireSizeFor (nc_blowFish c) (length (serialize_control k (probe_json p (start + i)))) = mp_payloadBytes p"
    and "nc_blowFish c = None"
  shows "probe_loop k write p c n start = sendBytes write (client_target c) (serialize_control k (probe_json p (start + i)))"
  using assms
proof (induction i arbitrary: n start)
  case 0
  then show ?case by (cases n) (auto simp: Let_def encrypt_for_send_def wireSizeFor_def)
next
  case (Suc i)
  obtain n' where n: "n = Suc n'" using Suc.prems(1) by (cases n) auto
  have "probe_loop k write p c n' (start + 1)
      = sendBytes write (client_target c) (serialize_control k (probe_json p (start + 1 + i)))"
  proof (rule Suc.IH)
    show "wireSizeFor (nc_blowFish c) (length (serialize_control k (probe_json p (start + 1 + j)))) \<noteq> mp_payloadBytes p" if "j < i" for j
      using Suc.prems(2) [of "Suc j"] that by simp
  qed (use Suc.prems n in simp_all)
  then show ?case using Suc.prems(2) [of 0] n by (simp add: Let_def)
qed




end
