(* ===== verification/Realtime_Frames.thy ===== *)
theory Realtime_Frames
  imports Net_Client Spsc_Queue
begin

text \<open>
  The data the audio callback exchanges with its workers, \<open>Client/Source/RealtimeAudioFrames.h\<close>, and
  the sample ring buffer the callback reads and writes. The ring buffer is a library class, so its
  operations are a parameter; \<open>ring_laws\<close> states what it promises, over the list of the sample
  frames it holds (a sample frame has one value per channel). The bounded queues between the threads are the
  lists of their waiting items, see \<open>Spsc_Queue\<close>.
\<close>

section \<open>Frames\<close>

definition JAMMERNETZ_MAX_AUDIO_CHANNELS :: nat where "JAMMERNETZ_MAX_AUDIO_CHANNELS = 64"
definition JAMMERNETZ_MAX_CALLBACK_SAMPLES :: nat where "JAMMERNETZ_MAX_CALLBACK_SAMPLES = 8192"

text \<open>
  A frame has storage for 64 channels of which the first \<open>channels\<close> are written and read; the model
  keeps those.
\<close>

record transmit_frame =
  tf_samples :: "real list list"
  tf_bpm :: "fl option"
  tf_midiSignal :: "u8 option"

definition tf_channels :: "transmit_frame \<Rightarrow> nat" where
  "tf_channels f = length (tf_samples f)"

record remote_frame =
  rf_samples :: "real list list"
  rf_sourceTimestamp :: real
  rf_generation :: u64
  rf_serverSampleEnd :: u64
  rf_bpm :: fl
  rf_midiSignal :: u8

datatype recording_target = Recording_Local | Recording_Master

record recording_frame =
  gf_target :: recording_target
  gf_recordingGeneration :: u64
  gf_samples :: "real list list"

section \<open>Rows and columns\<close>

text \<open>Sample frames \<open>0\<close> to \<open>n - 1\<close> of the channel rows, and back.\<close>

definition frames_of :: "nat \<Rightarrow> real list list \<Rightarrow> real list list" where
  "frames_of n rows = map (\<lambda>i. map (\<lambda>ch. ch ! i) rows) [0..<n]"

definition rows_of :: "nat \<Rightarrow> real list list \<Rightarrow> real list list" where
  "rows_of c fs = map (\<lambda>k. map (\<lambda>f. f ! k) fs) [0..<c]"

lemma length_frames_of [simp]: "length (frames_of n rows) = n"
  by (simp add: frames_of_def)

lemma length_rows_of [simp]: "length (rows_of c fs) = c"
  by (simp add: rows_of_def)

lemma rows_of_row [simp]: "k < c \<Longrightarrow> length (rows_of c fs ! k) = length fs"
  by (simp add: rows_of_def)

lemma rows_of_set: "row \<in> set (rows_of c fs) \<Longrightarrow> length row = length fs"
  by (auto simp: rows_of_def)

lemma frames_of_width: "f \<in> set (frames_of n rows) \<Longrightarrow> length f = length rows"
  by (auto simp: frames_of_def)

lemma rows_of_frames_of:
  assumes "\<forall>ch\<in>set rows. length ch = n"
  shows "rows_of (length rows) (frames_of n rows) = rows"
proof (rule nth_equalityI)
  fix k assume "k < length (rows_of (length rows) (frames_of n rows))"
  then have k: "k < length rows" by simp
  then have "length (rows ! k) = n" using assms by simp
  then have "map (\<lambda>i. rows ! k ! i) [0..<n] = rows ! k" by (metis map_nth)
  with k show "rows_of (length rows) (frames_of n rows) ! k = rows ! k"
    by (simp add: rows_of_def frames_of_def comp_def)
qed simp

lemma frames_of_rows_of:
  assumes "\<forall>f\<in>set fs. length f = c"
  shows "frames_of (length fs) (rows_of c fs) = fs"
proof (rule nth_equalityI)
  fix i assume "i < length (frames_of (length fs) (rows_of c fs))"
  then have i: "i < length fs" by simp
  then have "length (fs ! i) = c" using assms by simp
  then have "map (\<lambda>k. fs ! i ! k) [0..<c] = fs ! i" by (metis map_nth)
  with i show "frames_of (length fs) (rows_of c fs) ! i = fs ! i"
    by (simp add: rows_of_def frames_of_def comp_def)
qed simp

section \<open>The sample ring buffer\<close>

text \<open>
  \<open>read\<close> and \<open>write\<close> take the number of samples; \<open>read\<close> also the number of rows to fill.
\<close>

record 'r ring_api =
  rb_make :: "nat \<Rightarrow> nat \<Rightarrow> 'r"
  rb_write :: "'r \<Rightarrow> real list list \<Rightarrow> nat \<Rightarrow> 'r"
  rb_read :: "'r \<Rightarrow> nat \<Rightarrow> nat \<Rightarrow> real list list \<times> 'r"
  rb_discard :: "'r \<Rightarrow> nat \<Rightarrow> 'r"
  rb_clear :: "'r \<Rightarrow> 'r"
  rb_numReady :: "'r \<Rightarrow> nat"
  rb_freeSpace :: "'r \<Rightarrow> nat"

text \<open>
  The documented behaviour, for the view \<open>held\<close> of the waiting sample frames, the number of channels
  \<open>width\<close> and the room \<open>room\<close>, which of a buffer made for \<open>n\<close> samples is at least \<open>n - 1\<close> (one slot of
  an \<open>AbstractFifo\<close> stays empty). Nothing is promised for a write beyond the free space or a read
  beyond what is ready.
\<close>

definition ring_write_law :: "'r ring_api \<Rightarrow> ('r \<Rightarrow> real list list) \<Rightarrow> ('r \<Rightarrow> nat) \<Rightarrow> ('r \<Rightarrow> nat) \<Rightarrow> bool" where
  "ring_write_law A held width room \<longleftrightarrow>
     (\<forall>r rows n. length (held r) + n \<le> room r \<longrightarrow> length rows = width r \<longrightarrow>
        held (rb_write A r rows n) = held r @ frames_of n rows
        \<and> width (rb_write A r rows n) = width r \<and> room (rb_write A r rows n) = room r)"

definition ring_take_law :: "'r ring_api \<Rightarrow> ('r \<Rightarrow> real list list) \<Rightarrow> ('r \<Rightarrow> nat) \<Rightarrow> ('r \<Rightarrow> nat) \<Rightarrow> bool" where
  "ring_take_law A held width room \<longleftrightarrow>
     (\<forall>r n. n \<le> length (held r) \<longrightarrow>
        fst (rb_read A r (width r) n) = rows_of (width r) (take n (held r))
        \<and> held (snd (rb_read A r (width r) n)) = drop n (held r)
        \<and> width (snd (rb_read A r (width r) n)) = width r \<and> room (snd (rb_read A r (width r) n)) = room r
        \<and> held (rb_discard A r n) = drop n (held r)
        \<and> width (rb_discard A r n) = width r \<and> room (rb_discard A r n) = room r)"

definition ring_state_law :: "'r ring_api \<Rightarrow> ('r \<Rightarrow> real list list) \<Rightarrow> ('r \<Rightarrow> nat) \<Rightarrow> ('r \<Rightarrow> nat) \<Rightarrow> bool" where
  "ring_state_law A held width room \<longleftrightarrow>
     (\<forall>r. rb_numReady A r = length (held r) \<and> rb_freeSpace A r = room r - length (held r)
        \<and> held (rb_clear A r) = [] \<and> width (rb_clear A r) = width r \<and> room (rb_clear A r) = room r)
     \<and> (\<forall>c n. held (rb_make A c n) = [] \<and> width (rb_make A c n) = c \<and> n - 1 \<le> room (rb_make A c n))"

definition ring_laws :: "'r ring_api \<Rightarrow> ('r \<Rightarrow> real list list) \<Rightarrow> ('r \<Rightarrow> nat) \<Rightarrow> ('r \<Rightarrow> nat) \<Rightarrow> bool" where
  "ring_laws A held width room \<longleftrightarrow>
     ring_write_law A held width room \<and> ring_take_law A held width room \<and> ring_state_law A held width room"

lemma ring_write:
  assumes "ring_laws A held width room" and "length (held r) + n \<le> room r" and "length rows = width r"
  shows "held (rb_write A r rows n) = held r @ frames_of n rows"
    and "width (rb_write A r rows n) = width r" and "room (rb_write A r rows n) = room r"
  using assms unfolding ring_laws_def ring_write_law_def by auto

lemma ring_read:
  assumes "ring_laws A held width room" and "n \<le> length (held r)" and "c = width r"
  shows "fst (rb_read A r c n) = rows_of c (take n (held r))"
    and "held (snd (rb_read A r c n)) = drop n (held r)"
    and "width (snd (rb_read A r c n)) = width r" and "room (snd (rb_read A r c n)) = room r"
  using assms unfolding ring_laws_def ring_take_law_def by auto

lemma ring_discard:
  assumes "ring_laws A held width room" and "n \<le> length (held r)"
  shows "held (rb_discard A r n) = drop n (held r)"
    and "width (rb_discard A r n) = width r" and "room (rb_discard A r n) = room r"
  using assms unfolding ring_laws_def ring_take_law_def by auto

lemma ring_state:
  assumes "ring_laws A held width room"
  shows "rb_numReady A r = length (held r)" and "rb_freeSpace A r = room r - length (held r)"
    and "held (rb_clear A r) = []" and "width (rb_clear A r) = width r" and "room (rb_clear A r) = room r"
    and "held (rb_make A c n) = []" and "width (rb_make A c n) = c" and "n - 1 \<le> room (rb_make A c n)"
  using assms unfolding ring_laws_def ring_state_law_def by auto

text \<open>A ring buffer over lists, which shows that the laws can be met.\<close>

record list_ring =
  lr_width :: nat
  lr_room :: nat
  lr_held :: "real list list"

definition list_ring_api :: "list_ring ring_api" where
  "list_ring_api =
     \<lparr>rb_make = (\<lambda>c n. \<lparr>lr_width = c, lr_room = n, lr_held = []\<rparr>),
      rb_write = (\<lambda>r rows n. r\<lparr>lr_held := lr_held r @ frames_of n rows\<rparr>),
      rb_read = (\<lambda>r c n. (rows_of c (take n (lr_held r)), r\<lparr>lr_held := drop n (lr_held r)\<rparr>)),
      rb_discard = (\<lambda>r n. r\<lparr>lr_held := drop n (lr_held r)\<rparr>),
      rb_clear = (\<lambda>r. r\<lparr>lr_held := []\<rparr>),
      rb_numReady = (\<lambda>r. length (lr_held r)),
      rb_freeSpace = (\<lambda>r. lr_room r - length (lr_held r))\<rparr>"

lemma list_ring_laws: "ring_laws list_ring_api lr_held lr_width lr_room"
  by (simp add: ring_laws_def ring_write_law_def ring_take_law_def ring_state_law_def list_ring_api_def)

end
