(* ===== verification/Audio_Receive.thy ===== *)
theory Audio_Receive
  imports Realtime_Frames Data_Receive Jitter_Buffer
begin

text \<open>
  The receiving worker of the audio engine, \<open>Client/Source/AudioReceiveWorker.cpp\<close>: packets from the
  network thread wait in a queue of 512, are put in order by a jitter queue, and become frames of
  two channels in a queue of 256 from which the audio callback plays. One pass of the worker is a function; sizes
  of containers are natural numbers, since no container holds anything near \<open>2 ^ 64\<close> items.
\<close>

section \<open>State\<close>

record receive_worker =
  rw_inbound :: "audio_data list"
  rw_packetQueue :: packet_stream_queue
  rw_output :: "remote_frame list"
  rw_meter :: "real list \<times> real list"
  rw_minimumFrames :: u64
  rw_maximumFrames :: u64
  rw_rebufferRequested :: bool
  rw_requestedGeneration :: u64
  rw_activeGeneration :: u64
  rw_streamStarted :: bool
  rw_latestServerBpm :: fl
  rw_serverBpmPending :: bool
  rw_discarded :: u64
  rw_inboundOverruns :: u64
  rw_outputOverruns :: u64
  rw_recoveringFromOverrun :: bool

definition inputCapacity :: nat where "inputCapacity = 512"
definition outputCapacity :: nat where "outputCapacity = 256"

definition receive_new :: receive_worker where
  "receive_new =
     \<lparr>rw_inbound = [], rw_packetQueue = psq_new ''server'', rw_output = [], rw_meter = ([], []),
      rw_minimumFrames = word_of_nat CLIENT_PLAYOUT_JITTER_BUFFER,
      rw_maximumFrames = word_of_nat CLIENT_PLAYOUT_MAX_BUFFER, rw_rebufferRequested = False,
      rw_requestedGeneration = 0, rw_activeGeneration = 0, rw_streamStarted = False,
      rw_latestServerBpm = FFin 0, rw_serverBpmPending = False, rw_discarded = 0, rw_inboundOverruns = 0,
      rw_outputOverruns = 0, rw_recoveringFromOverrun = False\<rparr>"

section \<open>Operations of the other threads\<close>

definition receive_shutdown :: "receive_worker \<Rightarrow> receive_worker" where
  "receive_shutdown w = w\<lparr>rw_inbound := [], rw_output := [], rw_packetQueue := psq_reset (rw_packetQueue w)\<rparr>"

text \<open>A null packet is ignored.\<close>

definition receive_enqueue :: "audio_data option \<Rightarrow> receive_worker \<Rightarrow> receive_worker" where
  "receive_enqueue packet w =
     (case packet of
        None \<Rightarrow> w
      | Some p \<Rightarrow>
          (let (written, q) = queue_write inputCapacity p (rw_inbound w)
           in if \<not> written then w\<lparr>rw_inboundOverruns := rw_inboundOverruns w + 1\<rparr> else w\<lparr>rw_inbound := q\<rparr>))"

definition receive_tryPop :: "receive_worker \<Rightarrow> remote_frame option \<times> receive_worker" where
  "receive_tryPop w = (let (frame, q) = queue_read (rw_output w) in (frame, w\<lparr>rw_output := q\<rparr>))"

definition readyFrames :: "receive_worker \<Rightarrow> nat" where
  "readyFrames w = length (rw_output w)"

definition setPlayoutRange :: "u64 \<Rightarrow> u64 \<Rightarrow> receive_worker \<Rightarrow> receive_worker" where
  "setPlayoutRange minimumFrames maximumFrames w =
     w\<lparr>rw_minimumFrames := minimumFrames, rw_maximumFrames := max minimumFrames maximumFrames\<rparr>"

definition requestRebuffer :: "receive_worker \<Rightarrow> receive_worker" where
  "requestRebuffer w = w\<lparr>rw_rebufferRequested := True\<rparr>"

definition requestReset :: "receive_worker \<Rightarrow> u64 \<times> receive_worker" where
  "requestReset w = (rw_requestedGeneration w + 1, w\<lparr>rw_requestedGeneration := rw_requestedGeneration w + 1\<rparr>)"

definition worker_takeServerBpmUpdate :: "receive_worker \<Rightarrow> fl option \<times> receive_worker" where
  "worker_takeServerBpmUpdate w =
     (if rw_serverBpmPending w then (Some (rw_latestServerBpm w), w\<lparr>rw_serverBpmPending := False\<rparr>) else (None, w))"

definition discardedFrames :: "receive_worker \<Rightarrow> u64" where
  "discardedFrames w = rw_discarded w + rw_inboundOverruns w"

definition outputQueueOverruns :: "receive_worker \<Rightarrow> u64" where
  "outputQueueOverruns w = rw_inboundOverruns w + rw_outputOverruns w"

section \<open>One pass of the worker\<close>

definition applyResetIfRequested :: "receive_worker \<Rightarrow> receive_worker" where
  "applyResetIfRequested w =
     (if rw_requestedGeneration w = rw_activeGeneration w then w
      else w\<lparr>rw_inbound := [], rw_packetQueue := psq_reset (rw_packetQueue w), rw_streamStarted := False,
             rw_recoveringFromOverrun := False, rw_activeGeneration := rw_requestedGeneration w\<rparr>)"

text \<open>Each push reads the clock; \<open>clock n\<close> is the reading of the \<open>n\<close>-th push.\<close>

fun push_all :: "(nat \<Rightarrow> real) \<Rightarrow> audio_data list \<Rightarrow> packet_stream_queue \<Rightarrow> packet_stream_queue" where
  "push_all clock [] q = q"
| "push_all clock (p # ps) q = push_all (clock \<circ> Suc) ps (snd (psq_push (clock 0) p q))"

definition drainInbound :: "(nat \<Rightarrow> real) \<Rightarrow> receive_worker \<Rightarrow> receive_worker" where
  "drainInbound clock w =
     w\<lparr>rw_inbound := [], rw_packetQueue := push_all clock (rw_inbound w) (rw_packetQueue w)\<rparr>"

text \<open>
  The discarding loop pops until no more than \<open>minimum\<close> frames wait, \<open>prepared\<close> of them already
  prepared. It ends because a packet is delivered after at most two fill-ins.
\<close>

definition pop_work :: "packet_stream_queue \<Rightarrow> nat" where
  "pop_work q =
     (case psq_packetQueue q of
        [] \<Rightarrow> 0
      | p # ps \<Rightarrow> 3 * length (p # ps)
          + (if psq_lastPoppedMessage q + 1 = messageCounter p \<or> psq_lastPoppedMessageData q = None then 0
             else if psq_currentGap q < 1 then 2 else 1))"

lemma pop_work_decreases:
  assumes "psq_try_pop h q = (Some x, h', q')"
  shows "pop_work q' < pop_work q"
proof (cases "psq_packetQueue q")
  case Nil
  with assms show ?thesis by (simp add: psq_try_pop_def)
next
  case (Cons p ps)
  show ?thesis
  proof (cases "psq_lastPoppedMessage q + 1 = messageCounter p \<or> psq_lastPoppedMessageData q = None")
    case True
    with assms Cons have "q' = psq_pop_in_order p ps q" by (auto simp: psq_try_pop_def)
    with Cons True show ?thesis
      by (auto simp: pop_work_def psq_pop_in_order_def split: list.splits)
  next
    case out_of_order: False
    show ?thesis
    proof (cases "psq_currentGap q < 1")
      case True
      with out_of_order assms Cons show ?thesis
        by (auto simp: psq_try_pop_def split_beta Let_def pop_work_def psq_after_fill_in_def count_healed_def word_less_1 split: if_splits)
    next
      case False
      with out_of_order assms Cons show ?thesis
        by (auto simp: psq_try_pop_def split_beta Let_def pop_work_def psq_after_fill_in_def)
    qed
  qed
qed

function discard_down ::
  "nat \<Rightarrow> nat \<Rightarrow> heap \<Rightarrow> packet_stream_queue \<Rightarrow> u64 \<Rightarrow> heap \<times> packet_stream_queue \<times> u64" where
  "discard_down minimum prepared h q discarded =
     (if minimum < prepared + psq_size q
      then (case psq_try_pop h q of
              (None, h', q') \<Rightarrow> (h', q', discarded)
            | (Some x, h', q') \<Rightarrow> discard_down minimum prepared h' q' (discarded + 1))
      else (h, q, discarded))"
  by auto
termination
  by (relation "measure (\<lambda>(minimum, prepared, h, q, discarded). pop_work q)") (auto dest: pop_work_decreases [OF sym])

declare discard_down.simps [simp del]

text \<open>Two channels of 128 samples: a shorter buffer is filled with silence, a missing channel is silent.\<close>

definition frame_row :: "audio_buffer \<Rightarrow> nat \<Rightarrow> real list" where
  "frame_row audio channel =
     (if channel < buf_numChannels audio
      then (let n = min SAMPLE_BUFFER_SIZE (buf_numSamples audio)
            in take n (buf_channels audio ! channel) @ replicate (SAMPLE_BUFFER_SIZE - n) 0)
      else replicate SAMPLE_BUFFER_SIZE 0)"

definition frame_of_packet :: "u64 \<Rightarrow> audio_data \<Rightarrow> audio_buffer \<Rightarrow> remote_frame" where
  "frame_of_packet generation packet audio =
     \<lparr>rf_samples = [frame_row audio 0, frame_row audio 1], rf_sourceTimestamp = ad_timestamp packet,
      rf_generation = generation, rf_serverSampleEnd = ad_serverTime packet, rf_bpm = ad_bpm packet,
      rf_midiSignal = ad_midiSignal packet\<rparr>"

definition updateSessionMeter :: "channel_setup \<Rightarrow> receive_worker \<Rightarrow> receive_worker" where
  "updateSessionMeter setup w = w\<lparr>rw_meter := (map sc_mag (cs_channels setup), map sc_rms (cs_channels setup))\<rparr>"

definition prepareOneFrame :: "channel_setup \<Rightarrow> heap \<Rightarrow> receive_worker \<Rightarrow> bool \<times> heap \<times> receive_worker" where
  "prepareOneFrame setup h w =
     (if \<not> length (rw_output w) < outputCapacity then (False, h, w)
      else (case psq_try_pop h (rw_packetQueue w) of
              (None, h', q) \<Rightarrow> (False, h', w\<lparr>rw_packetQueue := q\<rparr>)
            | (Some (packet, fillIn), h', q) \<Rightarrow>
                (let w1 = w\<lparr>rw_packetQueue := q\<rparr>
                 in (case Option.bind (audioBuffer packet) (mem h') of
                       None \<Rightarrow> (False, h', w1)
                     | Some audio \<Rightarrow>
                         (let (written, out) = queue_write outputCapacity
                                (frame_of_packet (rw_activeGeneration w1) packet audio) (rw_output w1)
                          in if \<not> written then (False, h', w1\<lparr>rw_outputOverruns := rw_outputOverruns w1 + 1\<rparr>)
                             else (True, h', updateSessionMeter setup
                               (w1\<lparr>rw_output := out, rw_latestServerBpm := ad_bpm packet,
                                  rw_serverBpmPending := True\<rparr>)))))))"

definition take_rebuffer :: "receive_worker \<Rightarrow> receive_worker" where
  "take_rebuffer w =
     (if rw_rebufferRequested w
      then w\<lparr>rw_rebufferRequested := False, rw_streamStarted := False, rw_recoveringFromOverrun := False\<rparr> else w)"

definition combinedReadyFrames :: "receive_worker \<Rightarrow> nat" where
  "combinedReadyFrames w = length (rw_output w) + psq_size (rw_packetQueue w)"

definition recover_overrun :: "heap \<Rightarrow> receive_worker \<Rightarrow> heap \<times> receive_worker" where
  "recover_overrun h w =
     (let w1 = (if unat (rw_maximumFrames w) < combinedReadyFrames w then w\<lparr>rw_recoveringFromOverrun := True\<rparr> else w)
      in if \<not> rw_recoveringFromOverrun w1 then (h, w1)
         else (let (h', q, discarded) = discard_down (unat (rw_minimumFrames w1)) (length (rw_output w1)) h
                     (rw_packetQueue w1) (rw_discarded w1);
                   w2 = w1\<lparr>rw_packetQueue := q, rw_discarded := discarded\<rparr>
               in (h', if combinedReadyFrames w2 \<le> unat (rw_minimumFrames w2)
                       then w2\<lparr>rw_recoveringFromOverrun := False\<rparr> else w2)))"

definition start_stream :: "receive_worker \<Rightarrow> receive_worker" where
  "start_stream w =
     (if \<not> rw_streamStarted w \<and> unat (rw_minimumFrames w) \<le> psq_size (rw_packetQueue w)
      then w\<lparr>rw_streamStarted := True\<rparr> else w)"

definition receive_processNextFrame ::
  "(nat \<Rightarrow> real) \<Rightarrow> channel_setup \<Rightarrow> heap \<Rightarrow> receive_worker \<Rightarrow> bool \<times> heap \<times> receive_worker" where
  "receive_processNextFrame clock setup h w =
     (let w1 = take_rebuffer (drainInbound clock (applyResetIfRequested w));
          (h2, w2) = recover_overrun h w1;
          w3 = start_stream w2
      in if rw_streamStarted w3 \<and> \<not> rw_recoveringFromOverrun w3
            \<and> length (rw_output w3) < unat (rw_maximumFrames w3)
         then prepareOneFrame setup h2 w3 else (False, h2, w3))"

definition receive_processNextPendingFrame ::
  "(nat \<Rightarrow> real) \<Rightarrow> channel_setup \<Rightarrow> bool \<Rightarrow> heap \<Rightarrow> receive_worker \<Rightarrow> bool \<times> heap \<times> receive_worker" where
  "receive_processNextPendingFrame clock setup threadRunning h w =
     (if threadRunning then (False, h, w) else receive_processNextFrame clock setup h w)"

end
