(* ===== verification/Audio_Receive_Props.thy ===== *)
theory Audio_Receive_Props
  imports Audio_Receive
begin

text \<open>
  What the receiving worker guarantees the audio callback: the amount of audio waiting is bounded,
  packets of a former server are never played after a reset, and packets in any order of arrival
  are played in the order they were sent.
\<close>

section \<open>The parts of a pass\<close>

lemma applyReset_simps [simp]:
  "rw_output (applyResetIfRequested w) = rw_output w"
  "rw_minimumFrames (applyResetIfRequested w) = rw_minimumFrames w"
  "rw_maximumFrames (applyResetIfRequested w) = rw_maximumFrames w"
  "rw_requestedGeneration (applyResetIfRequested w) = rw_requestedGeneration w"
  "rw_activeGeneration (applyResetIfRequested w) = rw_requestedGeneration w"
  by (simp_all add: applyResetIfRequested_def)

lemma drainInbound_simps [simp]:
  "rw_output (drainInbound clock w) = rw_output w"
  "rw_inbound (drainInbound clock w) = []"
  "rw_minimumFrames (drainInbound clock w) = rw_minimumFrames w"
  "rw_maximumFrames (drainInbound clock w) = rw_maximumFrames w"
  "rw_requestedGeneration (drainInbound clock w) = rw_requestedGeneration w"
  "rw_activeGeneration (drainInbound clock w) = rw_activeGeneration w"
  by (simp_all add: drainInbound_def)

lemma take_rebuffer_simps [simp]:
  "rw_output (take_rebuffer w) = rw_output w"
  "rw_inbound (take_rebuffer w) = rw_inbound w"
  "rw_packetQueue (take_rebuffer w) = rw_packetQueue w"
  "rw_minimumFrames (take_rebuffer w) = rw_minimumFrames w"
  "rw_maximumFrames (take_rebuffer w) = rw_maximumFrames w"
  "rw_requestedGeneration (take_rebuffer w) = rw_requestedGeneration w"
  "rw_activeGeneration (take_rebuffer w) = rw_activeGeneration w"
  by (simp_all add: take_rebuffer_def)

lemma recover_overrun_simps [simp]:
  "rw_output (snd (recover_overrun h w)) = rw_output w"
  "rw_inbound (snd (recover_overrun h w)) = rw_inbound w"
  "rw_minimumFrames (snd (recover_overrun h w)) = rw_minimumFrames w"
  "rw_maximumFrames (snd (recover_overrun h w)) = rw_maximumFrames w"
  "rw_requestedGeneration (snd (recover_overrun h w)) = rw_requestedGeneration w"
  "rw_activeGeneration (snd (recover_overrun h w)) = rw_activeGeneration w"
  "rw_streamStarted (snd (recover_overrun h w)) = rw_streamStarted w"
  by (simp_all add: recover_overrun_def Let_def split_beta)

lemma start_stream_simps [simp]:
  "rw_output (start_stream w) = rw_output w"
  "rw_inbound (start_stream w) = rw_inbound w"
  "rw_packetQueue (start_stream w) = rw_packetQueue w"
  "rw_minimumFrames (start_stream w) = rw_minimumFrames w"
  "rw_maximumFrames (start_stream w) = rw_maximumFrames w"
  "rw_requestedGeneration (start_stream w) = rw_requestedGeneration w"
  "rw_activeGeneration (start_stream w) = rw_activeGeneration w"
  "rw_recoveringFromOverrun (start_stream w) = rw_recoveringFromOverrun w"
  "combinedReadyFrames (start_stream w) = combinedReadyFrames w"
  by (simp_all add: start_stream_def combinedReadyFrames_def)

lemma updateSessionMeter_simps [simp]:
  "rw_output (updateSessionMeter s w) = rw_output w" "rw_inbound (updateSessionMeter s w) = rw_inbound w"
  "rw_packetQueue (updateSessionMeter s w) = rw_packetQueue w"
  "rw_minimumFrames (updateSessionMeter s w) = rw_minimumFrames w"
  "rw_maximumFrames (updateSessionMeter s w) = rw_maximumFrames w"
  "rw_requestedGeneration (updateSessionMeter s w) = rw_requestedGeneration w"
  "rw_activeGeneration (updateSessionMeter s w) = rw_activeGeneration w"
  "rw_streamStarted (updateSessionMeter s w) = rw_streamStarted w"
  "rw_rebufferRequested (updateSessionMeter s w) = rw_rebufferRequested w"
  "rw_recoveringFromOverrun (updateSessionMeter s w) = rw_recoveringFromOverrun w"
  by (simp_all add: updateSessionMeter_def)

text \<open>The state in which the worker decides whether to prepare a frame.\<close>

definition before_prepare :: "(nat \<Rightarrow> real) \<Rightarrow> heap \<Rightarrow> receive_worker \<Rightarrow> heap \<times> receive_worker" where
  "before_prepare clock h w =
     (let (h2, w2) = recover_overrun h (take_rebuffer (drainInbound clock (applyResetIfRequested w)))
      in (h2, start_stream w2))"

definition may_prepare :: "receive_worker \<Rightarrow> bool" where
  "may_prepare w \<longleftrightarrow> rw_streamStarted w \<and> \<not> rw_recoveringFromOverrun w
     \<and> length (rw_output w) < unat (rw_maximumFrames w)"

lemma pass_split:
  "receive_processNextFrame clock setup h w =
     (let (h3, w3) = before_prepare clock h w
      in if may_prepare w3 then prepareOneFrame setup h3 w3 else (False, h3, w3))"
  by (simp add: receive_processNextFrame_def before_prepare_def may_prepare_def Let_def split_beta)

lemma before_prepare_simps [simp]:
  "rw_output (snd (before_prepare clock h w)) = rw_output w"
  "rw_inbound (snd (before_prepare clock h w)) = []"
  "rw_minimumFrames (snd (before_prepare clock h w)) = rw_minimumFrames w"
  "rw_maximumFrames (snd (before_prepare clock h w)) = rw_maximumFrames w"
  "rw_requestedGeneration (snd (before_prepare clock h w)) = rw_requestedGeneration w"
  "rw_activeGeneration (snd (before_prepare clock h w)) = rw_requestedGeneration w"
  by (simp_all add: before_prepare_def Let_def split_beta)

section \<open>Discarding\<close>

lemma discard_down_result:
  "discard_down minimum prepared h q n = (h', q', n') \<Longrightarrow>
   prepared + psq_size q' \<le> minimum \<or> psq_packetQueue q' = []"
proof (induction minimum prepared h q n rule: discard_down.induct)
  case (1 minimum prepared h q n)
  show ?case
  proof (cases "minimum < prepared + psq_size q")
    case True
    obtain r h1 q1 where pop: "psq_try_pop h q = (r, h1, q1)" by (cases "psq_try_pop h q")
    show ?thesis
    proof (cases r)
      case None
      then have "psq_packetQueue q = []" "q1 = q"
        using pop popped_None [of h q] psq_pop_empty(3) [of q h] by (simp_all add: pop_parts)
      then show ?thesis using True None pop 1(2) by (simp add: discard_down.simps)
    next
      case (Some x)
      then show ?thesis using 1(1) [OF True pop [symmetric] Some refl] Some True pop 1(2) by (simp add: discard_down.simps)
    qed
  next
    case False
    then show ?thesis using 1(2) by (simp add: discard_down.simps)
  qed
qed

lemma discard_down_queue:
  "discard_down minimum prepared h q n = (h', q', n') \<Longrightarrow> set (psq_packetQueue q') \<subseteq> set (psq_packetQueue q)"
proof (induction minimum prepared h q n rule: discard_down.induct)
  case (1 minimum prepared h q n)
  show ?case
  proof (cases "minimum < prepared + psq_size q")
    case True
    obtain r h1 q1 where pop: "psq_try_pop h q = (r, h1, q1)" by (cases "psq_try_pop h q")
    then have "set (psq_packetQueue q1) \<subseteq> set (psq_packetQueue q)"
      using after_pop_queue [of h q] by (cases "psq_packetQueue q") (auto simp: pop_parts split: if_splits)
    then show ?thesis
      using 1(1) [OF True pop [symmetric] _ refl] True pop 1(2) by (cases r) (auto simp: discard_down.simps)
  next
    case False
    then show ?thesis using 1(2) by (simp add: discard_down.simps)
  qed
qed

lemma recover_overrun_bound:
  assumes "rw_minimumFrames w \<le> rw_maximumFrames w" and "recover_overrun h w = (h', w')"
  shows "if rw_recoveringFromOverrun w'
         then psq_packetQueue (rw_packetQueue w') = [] \<and> unat (rw_minimumFrames w) < length (rw_output w)
         else combinedReadyFrames w' \<le> unat (rw_maximumFrames w)"
proof -
  obtain h1 q n where d: "discard_down (unat (rw_minimumFrames w)) (length (rw_output w)) h (rw_packetQueue w) (rw_discarded w) = (h1, q, n)"
    by (cases "discard_down (unat (rw_minimumFrames w)) (length (rw_output w)) h (rw_packetQueue w) (rw_discarded w)")
  from discard_down_result [OF d] assms(2) d show ?thesis
    using word_le_nat_alt [THEN iffD1, OF assms(1)]
    by (auto simp: recover_overrun_def combinedReadyFrames_def psq_size_def Let_def split: if_splits)
qed

lemma recover_overrun_queue:
  "set (psq_packetQueue (rw_packetQueue (snd (recover_overrun h w)))) \<subseteq> set (psq_packetQueue (rw_packetQueue w))"
  using discard_down_queue [of "unat (rw_minimumFrames w)" "length (rw_output w)" h "rw_packetQueue w" "rw_discarded w"]
  by (auto simp: recover_overrun_def Let_def split_beta prod_eq_iff)

section \<open>Preparing\<close>

lemma prepareOneFrame_cases:
  obtains (none) h' where "prepareOneFrame setup h w = (False, h', w)"
  | (lost) h' where "prepareOneFrame setup h w = (False, h', w\<lparr>rw_packetQueue := after_pop h (rw_packetQueue w)\<rparr>)"
      "psq_packetQueue (rw_packetQueue w) \<noteq> []"
  | (made) p f audio where "popped h (rw_packetQueue w) = Some (p, f)"
      "Option.bind (audioBuffer p) (mem (heap_after_pop h (rw_packetQueue w))) = Some audio"
      "length (rw_output w) < outputCapacity"
      "prepareOneFrame setup h w = (True, heap_after_pop h (rw_packetQueue w), updateSessionMeter setup
         (w\<lparr>rw_packetQueue := after_pop h (rw_packetQueue w),
            rw_output := rw_output w @ [frame_of_packet (rw_activeGeneration w) p audio],
            rw_latestServerBpm := ad_bpm p, rw_serverBpmPending := True\<rparr>))"
proof (cases "length (rw_output w) < outputCapacity")
  case False
  then show thesis using none by (simp add: prepareOneFrame_def)
next
  case True
  obtain r h1 q1 where pop: "psq_try_pop h (rw_packetQueue w) = (r, h1, q1)" by (cases "psq_try_pop h (rw_packetQueue w)")
  show thesis
  proof (cases r)
    case None
    then have "q1 = rw_packetQueue w"
      using pop popped_None [of h "rw_packetQueue w"] psq_pop_empty(3) [of "rw_packetQueue w" h] by (simp add: pop_parts)
    then show thesis using none True None pop by (simp add: prepareOneFrame_def)
  next
    case (Some x)
    obtain p f where x: "x = (p, f)" by (cases x)
    have ne: "psq_packetQueue (rw_packetQueue w) \<noteq> []"
      using popped_None [of h "rw_packetQueue w"] pop Some by (simp add: popped_def)
    show thesis
    proof (cases "Option.bind (audioBuffer p) (mem h1)")
      case None
      then show thesis using lost [of h1] ne True Some x pop by (simp add: prepareOneFrame_def pop_parts Let_def)
    next
      case (Some audio)
      then show thesis
        using made [of p f audio] True \<open>r = Some x\<close> x pop
        by (simp add: prepareOneFrame_def pop_parts Let_def queue_write_def)
    qed
  qed
qed

lemma psq_size_after_pop: "psq_size (after_pop h q) \<le> psq_size q"
  by (simp add: psq_size_def after_pop_queue)

section \<open>The amount of waiting audio\<close>

lemma prepareOneFrame_bound:
  assumes "prepareOneFrame setup h w = (made, h', w')"
  shows "combinedReadyFrames w' \<le> combinedReadyFrames w + 1"
    and "length (rw_output w') = length (rw_output w) + (if made then 1 else 0)"
    and "rw_recoveringFromOverrun w' = rw_recoveringFromOverrun w"
  using assms psq_size_after_pop [of h "rw_packetQueue w"]
  by (cases rule: prepareOneFrame_cases [of "setup" h w]; auto simp: combinedReadyFrames_def)+


section \<open>Resets\<close>

datatype receive_op =
    Enqueue_Op audio_data
  | Pop_Op
  | Range_Op u64 u64
  | Rebuffer_Op
  | Reset_Request_Op
  | Take_Bpm_Op
  | Pass_Op "nat \<Rightarrow> real" channel_setup heap

fun receive_perform :: "receive_op \<Rightarrow> receive_worker \<Rightarrow> receive_worker" where
  "receive_perform (Enqueue_Op p) w = receive_enqueue (Some p) w"
| "receive_perform Pop_Op w = snd (receive_tryPop w)"
| "receive_perform (Range_Op a b) w = setPlayoutRange a b w"
| "receive_perform Rebuffer_Op w = requestRebuffer w"
| "receive_perform Reset_Request_Op w = snd (requestReset w)"
| "receive_perform Take_Bpm_Op w = snd (worker_takeServerBpmUpdate w)"
| "receive_perform (Pass_Op clock setup h) w = snd (snd (receive_processNextFrame clock setup h w))"

definition receive_run :: "receive_op list \<Rightarrow> receive_worker \<Rightarrow> receive_worker" where
  "receive_run ops w = foldl (\<lambda>w op. receive_perform op w) w ops"

text \<open>The packets put in since the last request for a reset, and the number of requests.\<close>

fun since_reset :: "receive_op list \<Rightarrow> audio_data set \<Rightarrow> audio_data set" where
  "since_reset [] S = S"
| "since_reset (Reset_Request_Op # ops) S = since_reset ops {}"
| "since_reset (Enqueue_Op p # ops) S = since_reset ops (insert p S)"
| "since_reset (op # ops) S = since_reset ops S"

definition reset_count :: "receive_op list \<Rightarrow> nat" where
  "reset_count ops = length (filter (\<lambda>op. op = Reset_Request_Op) ops)"

lemma since_reset_snoc:
  "since_reset (ops @ [op]) S =
     (case op of Reset_Request_Op \<Rightarrow> {} | Enqueue_Op p \<Rightarrow> insert p (since_reset ops S) | _ \<Rightarrow> since_reset ops S)"
  by (induction ops S rule: since_reset.induct) (cases op; simp)+

lemma receive_run_snoc [simp]: "receive_run (ops @ [op]) w = receive_perform op (receive_run ops w)"
  by (simp add: receive_run_def)

text \<open>A frame shows the time stamp, tempo and transport signal of a packet or of its redundant copy.\<close>

definition made_from :: "audio_data \<Rightarrow> remote_frame \<Rightarrow> bool" where
  "made_from p f \<longleftrightarrow> (\<exists>blk. (blk = ad_audioBlock p \<or> ad_fecBlock p = Some blk)
     \<and> rf_sourceTimestamp f = ab_timestamp blk \<and> rf_bpm f = ab_bpm blk)"

lemma popped_made_from:
  assumes "popped h q = Some (p, fill)"
  shows "\<exists>p0\<in>set (psq_packetQueue q). made_from p0 (frame_of_packet g p audio)"
proof -
  have ne: "psq_packetQueue q \<noteq> []" using assms popped_None [of h q] by auto
  then have "hd (psq_packetQueue q) \<in> set (psq_packetQueue q)" by simp
  moreover have "made_from (hd (psq_packetQueue q)) (frame_of_packet g p audio)"
    using assms
    by (cases q rule: pop_cases)
      (auto simp: psq_pop_empty psq_pop_in_order_step psq_pop_first_fill_in psq_pop_second_fill_in made_from_def
        frame_of_packet_def ad_timestamp_def ad_bpm_def createFillInPackage_def fill_in_of_def repeated_block_def
        Let_def split: option.splits if_splits)
  ultimately show ?thesis by blast
qed

definition generation_inv :: "audio_data set \<Rightarrow> nat \<Rightarrow> receive_worker \<Rightarrow> bool" where
  "generation_inv S n w \<longleftrightarrow>
     unat (rw_requestedGeneration w) = n \<and> rw_activeGeneration w \<le> rw_requestedGeneration w
     \<and> (\<forall>f\<in>set (rw_output w). rf_generation f \<le> rw_activeGeneration w
          \<and> (rf_generation f = rw_requestedGeneration w \<longrightarrow> (\<exists>p\<in>S. made_from p f)))
     \<and> (rw_activeGeneration w = rw_requestedGeneration w \<longrightarrow>
          set (rw_inbound w) \<subseteq> S \<and> set (psq_packetQueue (rw_packetQueue w)) \<subseteq> S)"

lemma push_all_set: "set (psq_packetQueue (push_all clock ps q)) \<subseteq> set ps \<union> set (psq_packetQueue q)"
proof (induction clock ps q rule: push_all.induct)
  case (2 clock p ps q)
  have "set (psq_packetQueue (snd (psq_push (clock 0) p q))) \<subseteq> insert p (set (psq_packetQueue q))"
    by (cases "acceptable p q") (auto simp: psq_push_accepted psq_push_rejected pq_push_def set_insort_key)
  with 2 show ?case by (auto simp: comp_def)
qed simp

lemma before_prepare_queue:
  assumes "rw_activeGeneration w = rw_requestedGeneration w \<longrightarrow>
    set (rw_inbound w) \<subseteq> S \<and> set (psq_packetQueue (rw_packetQueue w)) \<subseteq> S"
  shows "set (psq_packetQueue (rw_packetQueue (snd (before_prepare clock h w)))) \<subseteq> S"
proof -
  let ?w = "applyResetIfRequested w"
  have "set (rw_inbound ?w) \<subseteq> S" "set (psq_packetQueue (rw_packetQueue ?w)) \<subseteq> S"
    using assms by (auto simp: applyResetIfRequested_def psq_reset_def)
  then have "set (psq_packetQueue (rw_packetQueue (drainInbound clock ?w))) \<subseteq> S"
    using push_all_set [of clock "rw_inbound ?w" "rw_packetQueue ?w"] by (auto simp: drainInbound_def)
  then show ?thesis
    using recover_overrun_queue [of h "take_rebuffer (drainInbound clock ?w)"]
    by (auto simp: before_prepare_def Let_def split_beta)
qed

lemma prepare_generation_inv:
  assumes inv: "generation_inv S n w" and active: "rw_activeGeneration w = rw_requestedGeneration w"
  shows "generation_inv S n (snd (snd (prepareOneFrame setup h w)))"
proof (cases rule: prepareOneFrame_cases [of "setup" h w])
  case (none h')
  with inv show ?thesis by simp
next
  case (lost h')
  have "set (psq_packetQueue (after_pop h (rw_packetQueue w))) \<subseteq> set (psq_packetQueue (rw_packetQueue w))"
    by (cases "psq_packetQueue (rw_packetQueue w)") (auto simp: after_pop_queue)
  with inv lost show ?thesis by (auto simp: generation_inv_def)
next
  case (made p f audio)
  have "set (psq_packetQueue (after_pop h (rw_packetQueue w))) \<subseteq> set (psq_packetQueue (rw_packetQueue w))"
    by (cases "psq_packetQueue (rw_packetQueue w)") (auto simp: after_pop_queue)
  moreover have "\<exists>p0\<in>S. made_from p0 (frame_of_packet (rw_activeGeneration w) p audio)"
    using popped_made_from [OF made(1), of "rw_activeGeneration w" audio] inv active by (auto simp: generation_inv_def)
  ultimately show ?thesis
    using inv made active by (auto simp: generation_inv_def frame_of_packet_def)
qed

lemma pass_generation_inv:
  assumes inv: "generation_inv S n w"
  shows "generation_inv S n (snd (snd (receive_processNextFrame clock setup h w)))"
proof -
  obtain h3 w3 where b: "before_prepare clock h w = (h3, w3)" by (cases "before_prepare clock h w")
  have eqs: "rw_output w3 = rw_output w" "rw_requestedGeneration w3 = rw_requestedGeneration w"
    "rw_activeGeneration w3 = rw_requestedGeneration w" "rw_inbound w3 = []"
    using before_prepare_simps [of clock h w] b by simp_all
  have "set (psq_packetQueue (rw_packetQueue w3)) \<subseteq> S"
    using before_prepare_queue [of w S clock h] inv b by (simp add: generation_inv_def)
  then have "generation_inv S n w3"
    using inv by (fastforce simp: generation_inv_def eqs)
  then show ?thesis
    using b prepare_generation_inv [of S n w3 "setup" h3] by (simp add: pass_split eqs)
qed

lemma perform_generation_inv:
  assumes inv: "generation_inv S n w" and op: "op \<noteq> Reset_Request_Op"
  shows "generation_inv (case op of Enqueue_Op p \<Rightarrow> insert p S | _ \<Rightarrow> S) n (receive_perform op w)"
proof (cases op)
  case (Enqueue_Op p)
  with inv show ?thesis
    by (auto simp: generation_inv_def receive_enqueue_def queue_write_def Let_def)
next
  case Pop_Op
  with inv show ?thesis
    by (cases "rw_output w") (auto simp: generation_inv_def receive_tryPop_def Let_def split_beta)
next
  case (Pass_Op clock stp h)
  with pass_generation_inv [OF inv, of clock stp h] show ?thesis by simp
qed (use inv op in \<open>auto simp: generation_inv_def setPlayoutRange_def requestRebuffer_def
      worker_takeServerBpmUpdate_def\<close>)

lemma reset_generation_inv:
  assumes inv: "generation_inv S n w" and room: "Suc n < 2 ^ 64"
  shows "generation_inv {} (Suc n) (receive_perform Reset_Request_Op w)"
proof -
  have n: "unat (rw_requestedGeneration w) = n" using inv by (simp add: generation_inv_def)
  then have succ: "unat (rw_requestedGeneration w + 1) = Suc n"
    using room by (simp add: unat_word_ariths)
  then have less: "rw_requestedGeneration w < rw_requestedGeneration w + 1"
    using n by (simp add: word_less_nat_alt)
  have "rw_activeGeneration w < rw_requestedGeneration w + 1"
    using inv less by (auto simp: generation_inv_def)
  then show ?thesis
    using inv succ by (auto simp: generation_inv_def requestReset_def)
qed

lemma run_generation_inv:
  "reset_count ops < 2 ^ 64 \<Longrightarrow>
   generation_inv (since_reset ops {}) (reset_count ops) (receive_run ops receive_new)"
proof (induction ops rule: rev_induct)
  case Nil
  show ?case by (simp add: generation_inv_def receive_run_def receive_new_def reset_count_def psq_new_def)
next
  case (snoc op ops)
  then have inv: "generation_inv (since_reset ops {}) (reset_count ops) (receive_run ops receive_new)"
    by (simp add: reset_count_def split: if_splits)
  show ?case
  proof (cases "op = Reset_Request_Op")
    case True
    with snoc.prems reset_generation_inv [OF inv] show ?thesis
      by (simp add: since_reset_snoc reset_count_def del: receive_perform.simps)
  next
    case False
    with perform_generation_inv [OF inv False] show ?thesis
      by (cases op) (simp_all add: since_reset_snoc reset_count_def del: receive_perform.simps)
  qed
qed

text \<open>
  C24: Audio from before a reset is never mistaken for audio after it. However the network thread, the
  worker and the audio callback interleave, a frame the callback takes that carries the latest
  requested generation shows the time stamp and tempo of a packet that was put in after that request
  (or of the redundant copy in one).
\<close>

theorem stale_frames_are_recognised:
  assumes "reset_count ops < 2 ^ 64"
    and "fst (receive_tryPop (receive_run ops receive_new)) = Some f"
    and "rf_generation f = rw_requestedGeneration (receive_run ops receive_new)"
  shows "\<exists>p\<in>since_reset ops {}. made_from p f"
proof -
  let ?w = "receive_run ops receive_new"
  have "f \<in> set (rw_output ?w)"
    using assms(2) by (cases "rw_output ?w") (auto simp: receive_tryPop_def Let_def split_beta)
  then show ?thesis
    using run_generation_inv [OF assms(1)] assms(3) by (auto simp: generation_inv_def)
qed

section \<open>Packets in any order\<close>

lemma psq_new_fields:
  "psq_lastPoppedMessage (psq_new name) = 0" "psq_lastPoppedMessageData (psq_new name) = None"
  "psq_packetQueue (psq_new name) = []"
  by (simp_all add: psq_new_def)

lemma psq_reset_fields:
  "psq_lastPoppedMessage (psq_reset q) = 0" "psq_lastPoppedMessageData (psq_reset q) = None"
  "psq_packetQueue (psq_reset q) = []"
  by (simp_all add: psq_reset_def)

text \<open>Passes of the worker, each with its own readings of the clock and of the session.\<close>

fun receive_passes ::
  "((nat \<Rightarrow> real) \<times> channel_setup) list \<Rightarrow> heap \<Rightarrow> receive_worker \<Rightarrow> heap \<times> receive_worker" where
  "receive_passes [] h w = (h, w)"
| "receive_passes ((clock, session) # ps) h w =
     (let (made, h', w') = receive_processNextFrame clock session h w in receive_passes ps h' w')"

definition consecutive :: "u64 \<Rightarrow> audio_data list \<Rightarrow> bool" where
  "consecutive c ps \<longleftrightarrow> unat c + length ps < 2 ^ 64
     \<and> (\<forall>i < length ps. messageCounter (ps ! i) = c + 1 + word_of_nat i)"

lemma consecutive_Cons:
  assumes "consecutive c (p # ps)"
  shows "messageCounter p = c + 1" and "consecutive (c + 1) ps" and "c < c + 1"
proof -
  have "unat c + 1 < 2 ^ 64" using assms by (simp add: consecutive_def)
  then have u: "unat (c + 1) = unat c + 1" by (simp add: unat_word_ariths)
  show "messageCounter p = c + 1" using assms by (auto simp: consecutive_def)
  show "c < c + 1" using u by (simp add: word_less_nat_alt)
  show "consecutive (c + 1) ps"
    using assms u by (auto simp: consecutive_def algebra_simps nth_Cons split: nat.splits)
qed

lemma consecutive_sorted:
  "consecutive c ps \<Longrightarrow> sorted_wrt (<) (map messageCounter ps) \<and> (\<forall>p\<in>set ps. c < messageCounter p)"
proof (induction ps arbitrary: c)
  case (Cons p ps)
  note c = consecutive_Cons [OF Cons.prems]
  from Cons.IH [OF c(2)] c(1,3) show ?case by (auto intro: less_trans)
qed simp

lemma consecutive_keys:
  assumes "consecutive c qs" and "set ps = set qs" and "distinct ps"
  shows "distinct (map messageCounter ps)" and "0 \<notin> messageCounter ` set ps"
proof -
  note s = consecutive_sorted [OF assms(1)]
  then have "inj_on messageCounter (set qs)"
    by (metis distinct_map strict_sorted_iff)
  then show "distinct (map messageCounter ps)" using assms(2,3) by (simp add: distinct_map)
  show "0 \<notin> messageCounter ` set ps" using s assms(2) by fastforce
qed

lemma push_all_fresh:
  assumes "psq_inv q" and "distinct (map messageCounter ps)"
    and "\<forall>p\<in>set ps. psq_lastPoppedMessage q < messageCounter p \<and> messageCounter p \<notin> set (counters q)"
  shows "psq_inv (push_all clock ps q)
    \<and> set (psq_packetQueue (push_all clock ps q)) = set ps \<union> set (psq_packetQueue q)
    \<and> psq_lastPoppedMessage (push_all clock ps q) = psq_lastPoppedMessage q
    \<and> psq_lastPoppedMessageData (push_all clock ps q) = psq_lastPoppedMessageData q"
  using assms
proof (induction clock ps q rule: push_all.induct)
  case (2 clock p ps q)
  have ok: "acceptable p q" using 2(2,4) by (auto simp: acceptable_def psq_inv_def)
  have set: "set (psq_packetQueue (snd (psq_push (clock 0) p q))) = insert p (set (psq_packetQueue q))"
    by (simp add: psq_push_accepted [OF ok] pq_push_def set_insort_key)
  have "psq_inv (snd (psq_push (clock 0) p q))" by (rule psq_push_inv [OF 2(2)])
  moreover have "psq_lastPoppedMessage (snd (psq_push (clock 0) p q)) < messageCounter p'
      \<and> messageCounter p' \<notin> set (counters (snd (psq_push (clock 0) p q)))" if p': "p' \<in> set ps" for p'
  proof -
    have "messageCounter p' \<in> messageCounter ` set ps" using p' by (rule imageI)
    then have "messageCounter p' \<noteq> messageCounter p" using 2(3) by (metis distinct.simps(2) list.set_map list.simps(9))
    then show ?thesis using 2(4) p' unfolding counters_def set_map set by simp
  qed
  ultimately show ?case
    using 2(1,3) set by (auto simp: psq_push_accepted [OF ok] simp del: o_apply)
qed simp

lemma sorted_packets_unique:
  assumes "sorted_wrt (<) (map messageCounter ps)" and "sorted_wrt (<) (map messageCounter qs)" and "set ps = set qs"
  shows "ps = qs"
proof -
  have keys: "map messageCounter ps = map messageCounter qs"
    using assms by (intro strict_sorted_equal) simp_all
  then have "length ps = length qs" by (metis length_map)
  then show ?thesis
  proof (rule nth_equalityI)
    fix i assume i: "i < length ps"
    then have "i < length qs" using \<open>length ps = length qs\<close> by simp
    have "inj_on messageCounter (set qs)" using assms(2) by (metis distinct_map strict_sorted_iff)
    moreover have "messageCounter (ps ! i) = messageCounter (qs ! i)"
      using keys i \<open>i < length qs\<close> by (metis nth_map)
    moreover have "ps ! i \<in> set qs" using nth_mem [OF i] unfolding assms(3) .
    moreover have "qs ! i \<in> set qs" using \<open>i < length qs\<close> by (rule nth_mem)
    ultimately show "ps ! i = qs ! i" by (rule inj_onD)
  qed
qed

text \<open>The worker playing a stream without gaps: \<open>c\<close> is the last counter it has prepared.\<close>

definition streaming :: "u64 \<Rightarrow> remote_frame list \<Rightarrow> audio_data list \<Rightarrow> receive_worker \<Rightarrow> bool" where
  "streaming c out qs w \<longleftrightarrow>
     rw_inbound w = [] \<and> rw_activeGeneration w = rw_requestedGeneration w \<and> \<not> rw_rebufferRequested w
     \<and> \<not> rw_recoveringFromOverrun w \<and> rw_streamStarted w \<and> rw_output w = out
     \<and> psq_packetQueue (rw_packetQueue w) = qs
     \<and> (psq_lastPoppedMessage (rw_packetQueue w) = c \<or> psq_lastPoppedMessageData (rw_packetQueue w) = None)"

lemma streaming_before_prepare:
  assumes "streaming c out qs w" and "length out + length qs \<le> unat (rw_maximumFrames w)"
  shows "before_prepare clock h w = (h, w)"
proof -
  have "applyResetIfRequested w = w" using assms(1) by (simp add: applyResetIfRequested_def streaming_def)
  moreover have "drainInbound clock w = w" using assms(1) by (simp add: drainInbound_def streaming_def)
  moreover have "take_rebuffer w = w" using assms(1) by (simp add: take_rebuffer_def streaming_def)
  moreover have "recover_overrun h w = (h, w)"
    using assms by (simp add: recover_overrun_def streaming_def combinedReadyFrames_def psq_size_def)
  moreover have "start_stream w = w" using assms(1) by (simp add: start_stream_def streaming_def)
  ultimately show ?thesis by (simp add: before_prepare_def)
qed

lemma streaming_prepare:
  assumes s: "streaming c out (p # qs) w" and counter: "messageCounter p = c + 1"
    and audio: "Option.bind (audioBuffer p) (mem h) = Some audio" and room: "length out < outputCapacity"
  obtains w' where "prepareOneFrame session h w = (True, h, w')"
    and "streaming (c + 1) (out @ [frame_of_packet (rw_activeGeneration w) p audio]) qs w'"
    and "rw_activeGeneration w' = rw_activeGeneration w" and "rw_maximumFrames w' = rw_maximumFrames w"
proof -
  let ?q = "rw_packetQueue w"
  have q: "psq_packetQueue ?q = p # qs" and "pop_in_order ?q"
    using s counter by (auto simp: streaming_def pop_in_order_def counters_def)
  note pop = psq_pop_in_order_step [OF this(2), of h, unfolded q list.sel]
  have "prepareOneFrame session h w = (True, h, updateSessionMeter session
         (w\<lparr>rw_packetQueue := psq_pop_in_order p qs ?q,
            rw_output := out @ [frame_of_packet (rw_activeGeneration w) p audio],
            rw_latestServerBpm := ad_bpm p, rw_serverBpmPending := True\<rparr>))"
    using pop audio room s
    by (cases "psq_try_pop h ?q")
      (auto simp: prepareOneFrame_def pop_parts queue_write_def streaming_def)
  then show thesis
    by (rule that) (use s counter in \<open>auto simp: streaming_def psq_pop_in_order_def\<close>)
qed

lemma streaming_passes:
  assumes "streaming c out qs w" and "consecutive c qs" and "length steps = length qs"
    and "length out + length qs \<le> unat (rw_maximumFrames w)" and "length out + length qs \<le> outputCapacity"
    and "\<forall>p\<in>set qs. Option.bind (audioBuffer p) (mem h) = Some (audio p)"
  shows "\<exists>w'. receive_passes steps h w = (h, w')
    \<and> rw_output w' = out @ map (\<lambda>p. frame_of_packet (rw_activeGeneration w) p (audio p)) qs
    \<and> psq_packetQueue (rw_packetQueue w') = []"
  using assms
proof (induction qs arbitrary: c out w steps)
  case Nil
  then show ?case by (auto simp: streaming_def)
next
  case (Cons p qs)
  from Cons.prems(3) obtain clock session steps' where steps: "steps = (clock, session) # steps'" "length steps' = length qs"
    by (cases steps) auto
  note cons = consecutive_Cons [OF Cons.prems(2)]
  have idle: "before_prepare clock h w = (h, w)"
    by (rule streaming_before_prepare [OF Cons.prems(1,4)])
  obtain w' where w': "prepareOneFrame session h w = (True, h, w')"
      "streaming (c + 1) (out @ [frame_of_packet (rw_activeGeneration w) p (audio p)]) qs w'"
      "rw_activeGeneration w' = rw_activeGeneration w" "rw_maximumFrames w' = rw_maximumFrames w"
    using Cons.prems(5,6) by (auto intro: streaming_prepare [OF Cons.prems(1) cons(1), of h "audio p" session])
  have "may_prepare w" using Cons.prems(1,4) by (auto simp: may_prepare_def streaming_def)
  then have pass: "receive_processNextFrame clock session h w = (True, h, w')"
    by (simp add: pass_split idle w'(1))
  have "\<exists>w''. receive_passes steps' h w' = (h, w'')
    \<and> rw_output w'' = (out @ [frame_of_packet (rw_activeGeneration w) p (audio p)])
          @ map (\<lambda>p. frame_of_packet (rw_activeGeneration w') p (audio p)) qs
    \<and> psq_packetQueue (rw_packetQueue w'') = []"
    using Cons.prems(4-6) w'(4) by (intro Cons.IH [OF w'(2) cons(2) steps(2)]) simp_all
  then show ?case by (simp add: steps(1) pass w'(3) del: receive_passes.simps(1))
qed

lemma enqueue_all:
  assumes "length (rw_inbound w) + length ps \<le> inputCapacity"
  shows "receive_run (map Enqueue_Op ps) w = w\<lparr>rw_inbound := rw_inbound w @ ps\<rparr>"
  using assms
proof (induction ps rule: rev_induct)
  case Nil
  show ?case by (simp add: receive_run_def)
next
  case (snoc p ps)
  then show ?case by (simp add: receive_enqueue_def queue_write_def)
qed

text \<open>The first pass moves all packets into the jitter queue and starts the stream.\<close>

lemma first_pass_starts_stream:
  assumes qs: "consecutive c qs" "set ps = set qs" "distinct ps"
    and w: "rw_inbound w = ps" "rw_packetQueue w = q" "rw_output w = []"
      "rw_activeGeneration w = rw_requestedGeneration w" "\<not> rw_rebufferRequested w" "\<not> rw_recoveringFromOverrun w"
    and q0: "psq_inv q" "psq_lastPoppedMessage q = 0" "psq_lastPoppedMessageData q = None" "psq_packetQueue q = []"
    and n: "unat (rw_minimumFrames w) \<le> length qs" "length qs \<le> unat (rw_maximumFrames w)"
  obtains w0 where "before_prepare clock h w = (h, w0)" and "streaming c [] qs w0"
    and "rw_maximumFrames w0 = rw_maximumFrames w" and "rw_activeGeneration w0 = rw_activeGeneration w"
proof -
  let ?q = "push_all clock ps q"
  have counters: "counters q = []" using q0(4) by (simp add: counters_def)
  have "0 < messageCounter p" if "p \<in> set ps" for p
    using consecutive_keys(2) [OF qs] that by (metis image_eqI word_gt_0)
  then have q: "psq_inv ?q" "set (psq_packetQueue ?q) = set ps" "psq_lastPoppedMessageData ?q = None"
    using push_all_fresh [OF q0(1) consecutive_keys(1) [OF qs], of clock] by (simp_all add: q0 counters)
  have queue: "psq_packetQueue ?q = qs"
    using q consecutive_sorted [OF qs(1)] qs(2)
    by (intro sorted_packets_unique) (simp_all add: psq_inv_def counters_def)
  let ?w1 = "drainInbound clock w"
  have w1: "applyResetIfRequested w = w" "take_rebuffer ?w1 = ?w1"
    using w by (simp_all add: applyResetIfRequested_def take_rebuffer_def drainInbound_def)
  have "recover_overrun h ?w1 = (h, ?w1)"
    using w n by (simp add: recover_overrun_def drainInbound_def combinedReadyFrames_def psq_size_def queue)
  then have before: "before_prepare clock h w = (h, start_stream ?w1)" by (simp add: before_prepare_def w1)
  have "rw_packetQueue ?w1 = ?q" "rw_rebufferRequested (start_stream ?w1) = rw_rebufferRequested w"
    "rw_recoveringFromOverrun ?w1 = rw_recoveringFromOverrun w"
    using w by (simp_all add: drainInbound_def start_stream_def)
  moreover have "rw_streamStarted (start_stream ?w1)"
    using w n by (auto simp: start_stream_def drainInbound_def psq_size_def queue)
  ultimately have "streaming c [] qs (start_stream ?w1)"
    using w q(3) queue by (simp add: streaming_def)
  then show thesis by (rule that [OF before]) simp_all
qed

text \<open>
  C23: Packets are played in the order they were sent, whatever the order they arrive in. When packets
  with consecutive counters reach a new worker in any order, at least the minimum and at most the
  maximum it may hold, then as many passes prepare exactly one frame for each, in the order of the
  counters, with the first two channels of its samples, its time stamp, server time and tempo, and
  the generation of the worker; nothing is left in the jitter queue.
\<close>

theorem packets_play_in_sending_order:
  assumes "consecutive c qs" and "set ps = set qs" and "distinct ps"
    and "unat minimum \<le> length qs" and "length qs \<le> unat (max minimum maximum)" and "length qs \<le> outputCapacity"
    and "length steps = length qs"
    and "\<forall>p\<in>set qs. Option.bind (audioBuffer p) (mem h) = Some (audio p)"
  shows "\<exists>w'. receive_passes steps h (receive_run (Range_Op minimum maximum # map Enqueue_Op ps) receive_new) = (h, w')
    \<and> rw_output w' = map (\<lambda>p. frame_of_packet 0 p (audio p)) qs
    \<and> psq_packetQueue (rw_packetQueue w') = []"
proof -
  let ?w = "setPlayoutRange minimum maximum receive_new"
  have "length ps = length qs"
    using assms(2,3) consecutive_sorted [OF assms(1)]
    by (metis distinct_card distinct_map strict_sorted_iff)
  then have run: "receive_run (Range_Op minimum maximum # map Enqueue_Op ps) receive_new = ?w\<lparr>rw_inbound := ps\<rparr>"
    using enqueue_all [of ?w ps] assms(6)
    by (simp add: receive_run_def setPlayoutRange_def receive_new_def inputCapacity_def outputCapacity_def)
  have w: "rw_packetQueue (?w\<lparr>rw_inbound := ps\<rparr>) = psq_new ''server''" "rw_output (?w\<lparr>rw_inbound := ps\<rparr>) = []"
    "rw_activeGeneration (?w\<lparr>rw_inbound := ps\<rparr>) = rw_requestedGeneration (?w\<lparr>rw_inbound := ps\<rparr>)"
    "\<not> rw_rebufferRequested (?w\<lparr>rw_inbound := ps\<rparr>)" "\<not> rw_recoveringFromOverrun (?w\<lparr>rw_inbound := ps\<rparr>)"
    "rw_activeGeneration (?w\<lparr>rw_inbound := ps\<rparr>) = 0"
    "rw_minimumFrames (?w\<lparr>rw_inbound := ps\<rparr>) = minimum"
    "rw_maximumFrames (?w\<lparr>rw_inbound := ps\<rparr>) = max minimum maximum"
    by (simp_all add: setPlayoutRange_def receive_new_def)
  show ?thesis
  proof (cases steps)
    case Nil
    with assms(7) show ?thesis by (simp add: run w psq_new_def)
  next
    case (Cons step steps')
    obtain clock session where step: "step = (clock, session)" by (cases step)
    obtain w0 where w0: "before_prepare clock h (?w\<lparr>rw_inbound := ps\<rparr>) = (h, w0)" "streaming c [] qs w0"
        "rw_maximumFrames w0 = max minimum maximum" "rw_activeGeneration w0 = 0"
      using first_pass_starts_stream [OF assms(1-3), of "?w\<lparr>rw_inbound := ps\<rparr>" "psq_new ''server''" clock h] assms(4,5) w
      by (auto simp: psq_new_fields)
    have "before_prepare clock h w0 = (h, w0)"
      using streaming_before_prepare [OF w0(2)] w0(3) assms(5) by simp
    then have "receive_passes steps h (?w\<lparr>rw_inbound := ps\<rparr>) = receive_passes steps h w0"
      by (simp add: Cons step pass_split w0(1))
    then show ?thesis
      using streaming_passes [OF w0(2) assms(1,7), of h audio] w0(3,4) assms(5,6,8) by (simp add: run)
  qed
qed

section \<open>Instances\<close>

definition play_packet :: "u64 \<Rightarrow> audio_data" where
  "play_packet n = make_audio_data n (of_int (uint n)) (new_channel_setup False) 48000 (Some (FFin 120)) MidiSignal_None (Some 0) None"

definition play_heap :: heap where
  "play_heap = snd (heap_alloc (buf_silent 2 128) empty_heap)"

lemma play_packet_simps [simp]:
  "messageCounter (play_packet n) = n" "audioBuffer (play_packet n) = Some 0"
  "mem play_heap 0 = Some (buf_silent 2 128)" "play_packet n = play_packet k \<longleftrightarrow> n = k"
  "ad_timestamp (play_packet n) = of_int (uint n)" "ad_bpm (play_packet n) = FFin 120"
  by (auto simp: play_packet_def make_audio_data_def messageCounter_def audioBuffer_def play_heap_def
      empty_heap_def ad_timestamp_def ad_bpm_def)

definition crowded_worker :: receive_worker where
  "crowded_worker = receive_new\<lparr>rw_inbound := map play_packet [1, 2, 3], rw_minimumFrames := 1, rw_maximumFrames := 2\<rparr>"

lemma crowded_worker_simps [simp]:
  "rw_minimumFrames crowded_worker = 1" "rw_maximumFrames crowded_worker = 2" "rw_output crowded_worker = []"
  by (simp_all add: crowded_worker_def receive_new_def)


text \<open>The pass that applies a reset.\<close>

lemma pass_applies_reset:
  assumes "rw_requestedGeneration w \<noteq> rw_activeGeneration w" and "\<not> rw_rebufferRequested w"
    and "0 < rw_minimumFrames w" and "length (rw_output w) \<le> unat (rw_maximumFrames w)"
  shows "receive_processNextFrame clock session h w = (False, h, applyResetIfRequested w)"
  using assms
  by (simp add: pass_split before_prepare_def may_prepare_def drainInbound_def take_rebuffer_def recover_overrun_def
      start_stream_def combinedReadyFrames_def psq_size_def applyResetIfRequested_def psq_reset_def word_gt_0 unat_eq_zero)

lemma play_after_reset:
  "\<exists>w. receive_run [Range_Op 1 1, Enqueue_Op (play_packet 7), Reset_Request_Op,
      Pass_Op (\<lambda>n. 0) (new_channel_setup False) play_heap, Enqueue_Op (play_packet 9),
      Pass_Op (\<lambda>n. 0) (new_channel_setup False) play_heap] receive_new = w
    \<and> rw_output w = [frame_of_packet 1 (play_packet 9) (buf_silent 2 128)] \<and> rw_requestedGeneration w = 1"
proof -
  let ?w1 = "receive_new\<lparr>rw_minimumFrames := 1, rw_maximumFrames := 1, rw_inbound := [play_packet 7], rw_requestedGeneration := 1\<rparr>"
  let ?w3 = "(applyResetIfRequested ?w1)\<lparr>rw_inbound := [play_packet 9]\<rparr>"
  have w1: "receive_run [Range_Op 1 1, Enqueue_Op (play_packet 7), Reset_Request_Op] receive_new = ?w1"
    by (simp add: receive_run_def receive_enqueue_def queue_write_def inputCapacity_def setPlayoutRange_def requestReset_def receive_new_def)
  have pass: "receive_processNextFrame clock session h ?w1 = (False, h, applyResetIfRequested ?w1)" for clock session h
    by (rule pass_applies_reset) (simp_all add: receive_new_def)
  have w3: "receive_enqueue (Some (play_packet 9)) (applyResetIfRequested ?w1) = ?w3"
    by (simp add: receive_enqueue_def queue_write_def inputCapacity_def applyResetIfRequested_def receive_new_def)
  have fields: "rw_inbound ?w3 = [play_packet 9]" "rw_packetQueue ?w3 = psq_reset (psq_new ''server'')" "rw_output ?w3 = []"
    "rw_activeGeneration ?w3 = 1" "rw_requestedGeneration ?w3 = 1" "\<not> rw_rebufferRequested ?w3"
    "\<not> rw_recoveringFromOverrun ?w3" "rw_minimumFrames ?w3 = 1" "rw_maximumFrames ?w3 = 1"
    by (simp_all add: applyResetIfRequested_def receive_new_def)
  have one: "consecutive 8 [play_packet 9]" by (simp add: consecutive_def)
  obtain w0 where w0: "before_prepare (\<lambda>n. 0) play_heap ?w3 = (play_heap, w0)" "streaming 8 [] [play_packet 9] w0"
      "rw_maximumFrames w0 = 1" "rw_activeGeneration w0 = 1"
    using first_pass_starts_stream [OF one, of "[play_packet 9]" ?w3 "psq_reset (psq_new ''server'')" "\<lambda>n. 0" play_heap]
    by (auto simp: fields psq_reset_fields)
  obtain w4 where w4: "prepareOneFrame (new_channel_setup False) play_heap w0 = (True, play_heap, w4)"
      "streaming 9 [frame_of_packet 1 (play_packet 9) (buf_silent 2 128)] [] w4" "rw_activeGeneration w4 = 1"
    using streaming_prepare [OF w0(2), of play_heap "buf_silent 2 128" "new_channel_setup False"] w0(4)
    by (auto simp: outputCapacity_def)
  have "may_prepare w0" using w0 by (simp add: may_prepare_def streaming_def)
  then have "receive_processNextFrame (\<lambda>n. 0) (new_channel_setup False) play_heap ?w3 = (True, play_heap, w4)"
    by (simp add: pass_split w0(1) w4(1))
  then have "receive_run [Range_Op 1 1, Enqueue_Op (play_packet 7), Reset_Request_Op,
      Pass_Op (\<lambda>n. 0) (new_channel_setup False) play_heap, Enqueue_Op (play_packet 9),
      Pass_Op (\<lambda>n. 0) (new_channel_setup False) play_heap] receive_new = w4"
    using w1 by (simp add: receive_run_def pass w3)
  then show ?thesis using w4 by (auto simp: streaming_def)
qed

theorem stale_frames_are_recognised_witness:
  "let ops = [Range_Op 1 1, Enqueue_Op (play_packet 7), Reset_Request_Op,
              Pass_Op (\<lambda>n. 0) (new_channel_setup False) play_heap, Enqueue_Op (play_packet 9),
              Pass_Op (\<lambda>n. 0) (new_channel_setup False) play_heap];
       f = frame_of_packet 1 (play_packet 9) (buf_silent 2 128)
   in fst (receive_tryPop (receive_run ops receive_new)) = Some f \<and> (\<exists>p\<in>{play_packet 9}. made_from p f)"
proof -
  let ?ops = "[Range_Op 1 1, Enqueue_Op (play_packet 7), Reset_Request_Op,
              Pass_Op (\<lambda>n. 0) (new_channel_setup False) play_heap, Enqueue_Op (play_packet 9),
              Pass_Op (\<lambda>n. 0) (new_channel_setup False) play_heap]"
  let ?f = "frame_of_packet 1 (play_packet 9) (buf_silent 2 128)"
  have gen: "rf_generation ?f = rw_requestedGeneration (receive_run ?ops receive_new)"
    using play_after_reset by (auto simp: frame_of_packet_def)
  have pop: "fst (receive_tryPop (receive_run ?ops receive_new)) = Some ?f"
    using play_after_reset by (auto simp: receive_tryPop_def)
  have "\<exists>p\<in>since_reset ?ops {}. made_from p ?f"
    by (rule stale_frames_are_recognised [OF _ pop gen]) (simp add: reset_count_def)
  with pop show ?thesis by (simp add: Let_def)
qed

theorem packets_play_in_sending_order_witness:
  "\<exists>w'. receive_passes [(\<lambda>n. 0, new_channel_setup False), (\<lambda>n. 1, new_channel_setup False)] play_heap
        (receive_run [Range_Op 1 4, Enqueue_Op (play_packet 6), Enqueue_Op (play_packet 5)] receive_new) = (play_heap, w')
    \<and> rw_output w' = [frame_of_packet 0 (play_packet 5) (buf_silent 2 128), frame_of_packet 0 (play_packet 6) (buf_silent 2 128)]
    \<and> psq_packetQueue (rw_packetQueue w') = []"
proof -
  have "consecutive 4 [play_packet 5, play_packet 6]"
    by (auto simp: consecutive_def less_Suc_eq)
  from packets_play_in_sending_order [OF this, of "[play_packet 6, play_packet 5]" 1 4
      "[(\<lambda>n. 0, new_channel_setup False), (\<lambda>n. 1, new_channel_setup False)]" play_heap "\<lambda>p. buf_silent 2 128"]
  show ?thesis by (simp add: outputCapacity_def insert_commute max_def)
qed

end
