(* ===== verification/Audio_Transmit.thy ===== *)
theory Audio_Transmit
  imports Realtime_Frames
begin

text \<open>
  The sending worker of the audio engine, \<open>Client/Source/AudioTransmitWorker.cpp\<close>, with the tuner of
  \<open>Tuner.cpp\<close>. The audio callback puts blocks of 128 samples into a queue of 64; the worker measures each
  block and hands it to a packet sink. The pitch detector and the level meter are library classes, so
  their operations are parameters.
\<close>

section \<open>Tuner\<close>

record 'd pitch_api =
  pa_new :: 'd
  pa_feed :: "'d \<Rightarrow> real \<Rightarrow> 'd"
  pa_predict :: "'d \<Rightarrow> real"

record 'd tuner =
  tn_detectors :: "'d list"
  tn_lastPitches :: "real list"

definition tuner_new :: "'d tuner" where
  "tuner_new = \<lparr>tn_detectors = [], tn_lastPitches = replicate 64 0\<rparr>"

text \<open>The loop over the channels: a detector is made for a channel that has none yet.\<close>

fun detect_rows :: "'d pitch_api \<Rightarrow> nat \<Rightarrow> real list list \<Rightarrow> 'd tuner \<Rightarrow> 'd tuner" where
  "detect_rows A channel [] t = t"
| "detect_rows A channel (row # rows) t =
     (let detectors = (if length (tn_detectors t) \<le> channel then tn_detectors t @ [pa_new A] else tn_detectors t);
          d = foldl (pa_feed A) (detectors ! channel) row;
          pitches = (if channel < length (tn_lastPitches t) then (tn_lastPitches t)[channel := pa_predict A d]
                     else tn_lastPitches t)
      in detect_rows A (channel + 1) rows
           (t\<lparr>tn_detectors := detectors[channel := d], tn_lastPitches := pitches\<rparr>))"

definition detectPitch :: "'d pitch_api \<Rightarrow> audio_buffer \<Rightarrow> 'd tuner \<Rightarrow> 'd tuner" where
  "detectPitch A audioData t = detect_rows A 0 (buf_channels audioData) t"

definition getPitch :: "'d tuner \<Rightarrow> nat \<Rightarrow> real" where
  "getPitch t channel = (if channel < length (tn_lastPitches t) then tn_lastPitches t ! channel else 0)"

lemma detect_rows_pitches [simp]: "length (tn_lastPitches (detect_rows A c rows t)) = length (tn_lastPitches t)"
  by (induction A c rows t rule: detect_rows.induct) (simp_all add: Let_def)

section \<open>Worker\<close>

record 'm meter_api =
  ma_measure :: "'m \<Rightarrow> audio_buffer \<Rightarrow> 'm"
  ma_maxLevel :: "'m \<Rightarrow> nat \<Rightarrow> real"
  ma_rmsLevel :: "'m \<Rightarrow> nat \<Rightarrow> real"

record ('d, 'm) transmit_worker =
  tw_queue :: "transmit_frame list"
  tw_channelSetup :: channel_setup
  tw_tuner :: "'d tuner"
  tw_meter :: 'm
  tw_enqueued :: u64
  tw_sent :: u64
  tw_dropped :: u64

type_synonym 's packet_sink = "channel_setup \<Rightarrow> audio_buffer \<Rightarrow> control_data \<Rightarrow> 's \<Rightarrow> bool \<times> 's"

definition transmitQueueCapacity :: nat where "transmitQueueCapacity = 64"

definition transmit_new :: "'m \<Rightarrow> ('d, 'm) transmit_worker" where
  "transmit_new meter =
     \<lparr>tw_queue = [], tw_channelSetup = new_channel_setup False, tw_tuner = tuner_new, tw_meter = meter,
      tw_enqueued = 0, tw_sent = 0, tw_dropped = 0\<rparr>"

definition transmit_shutdown :: "('d, 'm) transmit_worker \<Rightarrow> ('d, 'm) transmit_worker" where
  "transmit_shutdown w = w\<lparr>tw_queue := []\<rparr>"

definition transmit_setChannelSetup :: "channel_setup \<Rightarrow> ('d, 'm) transmit_worker \<Rightarrow> ('d, 'm) transmit_worker" where
  "transmit_setChannelSetup setup w = w\<lparr>tw_channelSetup := setup\<rparr>"

definition hasCapacity :: "('d, 'm) transmit_worker \<Rightarrow> bool" where
  "hasCapacity w \<longleftrightarrow> length (tw_queue w) < transmitQueueCapacity"

definition recordDroppedFrame :: "('d, 'm) transmit_worker \<Rightarrow> ('d, 'm) transmit_worker" where
  "recordDroppedFrame w = w\<lparr>tw_dropped := tw_dropped w + 1\<rparr>"

text \<open>The writer callback reads the ring only when the queue has a slot.\<close>

definition enqueueFrom ::
  "'r ring_api \<Rightarrow> 'r \<Rightarrow> int \<Rightarrow> fl option \<Rightarrow> u8 option \<Rightarrow> ('d, 'm) transmit_worker \<Rightarrow> bool \<times> 'r \<times> ('d, 'm) transmit_worker" where
  "enqueueFrom A source channels bpm midiSignal w =
     (if channels \<le> 0 \<or> int JAMMERNETZ_MAX_AUDIO_CHANNELS < channels then (False, source, recordDroppedFrame w)
      else if length (tw_queue w) < transmitQueueCapacity
      then (let (samples, source') = rb_read A source (nat channels) SAMPLE_BUFFER_SIZE;
                frame = \<lparr>tf_samples = samples, tf_bpm = bpm, tf_midiSignal = midiSignal\<rparr>
            in (True, source', w\<lparr>tw_queue := snd (queue_write transmitQueueCapacity frame (tw_queue w)),
                                 tw_enqueued := tw_enqueued w + 1\<rparr>))
      else (False, source, recordDroppedFrame w))"

text \<open>The setup that is sent carries the levels and the pitch measured for this block.\<close>

definition measured_setup ::
  "'m meter_api \<Rightarrow> 'm \<Rightarrow> 'd tuner \<Rightarrow> channel_setup \<Rightarrow> channel_setup" where
  "measured_setup L meter tuner setup =
     setup\<lparr>cs_channels := map (\<lambda>(channel, details). details\<lparr>sc_mag := ma_maxLevel L meter channel,
       sc_rms := ma_rmsLevel L meter channel, sc_pitch := getPitch tuner channel\<rparr>)
       (enumerate 0 (cs_channels setup))\<rparr>"

definition transmit_processFrame ::
  "'d pitch_api \<Rightarrow> 'm meter_api \<Rightarrow> 's packet_sink option \<Rightarrow> transmit_frame \<Rightarrow> 's \<Rightarrow> ('d, 'm) transmit_worker
    \<Rightarrow> 's \<times> ('d, 'm) transmit_worker" where
  "transmit_processFrame P L sink frame s w =
     (let audio = \<lparr>buf_numSamples = SAMPLE_BUFFER_SIZE, buf_channels = tf_samples frame\<rparr>;
          w1 = w\<lparr>tw_tuner := detectPitch P audio (tw_tuner w), tw_meter := ma_measure L (tw_meter w) audio\<rparr>
      in if length (cs_channels (tw_channelSetup w1)) \<noteq> tf_channels frame then (s, recordDroppedFrame w1)
         else (case sink of
                 None \<Rightarrow> (s, w1)
               | Some packetSink \<Rightarrow>
                   let outgoing = measured_setup L (tw_meter w1) (tw_tuner w1) (tw_channelSetup w1);
                       (ok, s') = packetSink outgoing audio \<lparr>ct_bpm = tf_bpm frame, ct_midiSignal = tf_midiSignal frame\<rparr> s
                   in (s', if ok then w1\<lparr>tw_sent := tw_sent w1 + 1\<rparr> else w1)))"

text \<open>The sink given to the worker is preferred to the sender of the session, which may not exist.\<close>

definition chosen_sink :: "'s packet_sink option \<Rightarrow> 's packet_sink option \<Rightarrow> 's packet_sink option" where
  "chosen_sink packetSink sessionSender = (case packetSink of None \<Rightarrow> sessionSender | Some k \<Rightarrow> Some k)"

definition transmit_processNextFrame ::
  "'d pitch_api \<Rightarrow> 'm meter_api \<Rightarrow> 's packet_sink option \<Rightarrow> 's \<Rightarrow> ('d, 'm) transmit_worker
    \<Rightarrow> bool \<times> 's \<times> ('d, 'm) transmit_worker" where
  "transmit_processNextFrame P L sink s w =
     (case queue_read (tw_queue w) of
        (None, q) \<Rightarrow> (False, s, w)
      | (Some frame, q) \<Rightarrow> (True, transmit_processFrame P L sink frame s (w\<lparr>tw_queue := q\<rparr>)))"

definition transmit_processNextPendingFrame ::
  "'d pitch_api \<Rightarrow> 'm meter_api \<Rightarrow> 's packet_sink option \<Rightarrow> bool \<Rightarrow> 's \<Rightarrow> ('d, 'm) transmit_worker
    \<Rightarrow> bool \<times> 's \<times> ('d, 'm) transmit_worker" where
  "transmit_processNextPendingFrame P L sink threadRunning s w =
     (if threadRunning then (False, s, w) else transmit_processNextFrame P L sink s w)"

end
