(* ===== verification/Audio_Recording.thy ===== *)
theory Audio_Recording
  imports Realtime_Frames
begin

text \<open>
  Recording to disk: the recorder of \<open>common/Recorder.cpp\<close> and the worker of
  \<open>Client/Source/AudioRecordingWorker.cpp\<close> that hands it the blocks of the audio callback. The audio
  file formats and the file system are parameters: what formats, channel layouts and
  files can be created is an argument of the operations; a file is the number of its channels and the
  blocks written to it. A block goes into the current file when the writer's queue has room.
\<close>

section \<open>Recorder\<close>

record recording_file =
  fi_channels :: nat
  fi_blocks :: "real list list list"

record format_env =
  fe_bitDepthOk :: bool
  fe_rateOk :: "int \<Rightarrow> bool"
  fe_layoutOk :: "channel_target list \<Rightarrow> bool"
  fe_writerOk :: bool

record recorder =
  rc_samplesWritten :: u64
  rc_files :: "recording_file list"
  rc_writing :: bool
  rc_recording :: bool
  rc_recordingGeneration :: u64
  rc_nextRecordingGeneration :: u64
  rc_lastSampleRate :: int
  rc_lastChannelSetup :: channel_setup

definition recorder_new :: "int \<Rightarrow> recorder" where
  "recorder_new uninitialisedRate =
     \<lparr>rc_samplesWritten = 0, rc_files = [], rc_writing = False, rc_recording = False,
      rc_recordingGeneration = 0, rc_nextRecordingGeneration = 0, rc_lastSampleRate = uninitialisedRate,
      rc_lastChannelSetup = new_channel_setup False\<rparr>"

text \<open>The channels of the file: a channel set to mute, or to no known target, has none.\<close>

fun file_channel :: "channel_target option \<Rightarrow> channel_target list" where
  "file_channel (Some Left) = [Left]"
| "file_channel (Some SendLeft) = [Left]"
| "file_channel (Some Right) = [Right]"
| "file_channel (Some SendRight) = [Right]"
| "file_channel (Some Mono) = [Mono]"
| "file_channel (Some SendMono) = [Mono]"
| "file_channel _ = []"

definition file_layout :: "channel_setup \<Rightarrow> channel_target list" where
  "file_layout setup = concat (map (\<lambda>c. file_channel (target_of_u8 (sc_target c))) (cs_channels setup))"

definition updateChannelInfo :: "format_env \<Rightarrow> int \<Rightarrow> channel_setup \<Rightarrow> recorder \<Rightarrow> bool \<times> recorder" where
  "updateChannelInfo e sampleRate setup r =
     (let r1 = r\<lparr>rc_lastSampleRate := sampleRate, rc_lastChannelSetup := setup, rc_writing := False\<rparr>
      in if \<not> fe_bitDepthOk e \<or> \<not> fe_rateOk e sampleRate \<or> \<not> fe_layoutOk e (file_layout setup) \<or> \<not> fe_writerOk e
         then (False, r1)
         else (True, r1\<lparr>rc_files := rc_files r1 @ [\<lparr>fi_channels = length (file_layout setup), fi_blocks = []\<rparr>]\<rparr>))"

definition launchWriter :: "recorder \<Rightarrow> recorder" where
  "launchWriter r = r\<lparr>rc_writing := True, rc_samplesWritten := 0\<rparr>"

text \<open>Generation 0 means that nothing is recorded, so the counter skips it when it wraps.\<close>

definition next_generation :: "u64 \<Rightarrow> u64" where
  "next_generation g = (if g + 1 = 0 then 1 else g + 1)"

definition setRecording :: "format_env \<Rightarrow> bool \<Rightarrow> recorder \<Rightarrow> recorder" where
  "setRecording e recordOn r =
     (let wasRecording = rc_writing r;
          r1 = (if recordOn \<and> \<not> rc_writing r
                then (let (ok, r') = updateChannelInfo e (rc_lastSampleRate r) (rc_lastChannelSetup r) r
                      in if ok then launchWriter r' else r')
                else if \<not> recordOn \<and> rc_writing r then r\<lparr>rc_writing := False\<rparr> else r);
          isNowRecording = rc_writing r1;
          r2 = (if isNowRecording \<and> \<not> wasRecording
                then r1\<lparr>rc_nextRecordingGeneration := next_generation (rc_nextRecordingGeneration r1),
                        rc_recordingGeneration := next_generation (rc_nextRecordingGeneration r1)\<rparr>
                else if \<not> isNowRecording then r1\<lparr>rc_recordingGeneration := 0\<rparr> else r1)
      in r2\<lparr>rc_recording := isNowRecording\<rparr>)"

definition setChannelInfo :: "int \<Rightarrow> channel_setup \<Rightarrow> recorder \<Rightarrow> recorder" where
  "setChannelInfo sampleRate setup r = r\<lparr>rc_lastSampleRate := sampleRate, rc_lastChannelSetup := setup\<rparr>"

definition setDirectory :: "recorder \<Rightarrow> recorder" where
  "setDirectory r = r\<lparr>rc_recording := False, rc_recordingGeneration := 0, rc_writing := False\<rparr>"

text \<open>
  The writer takes as many rows as its file has channels, from the first on. A missing row pointer, which
  only the last ones can be, ends them; the model takes what there is.
\<close>

definition append_block :: "real list list \<Rightarrow> recording_file \<Rightarrow> recording_file" where
  "append_block data f = f\<lparr>fi_blocks := fi_blocks f @ [take (fi_channels f) data]\<rparr>"

definition saveBlock :: "bool \<Rightarrow> real list list \<Rightarrow> nat \<Rightarrow> recorder \<Rightarrow> recorder" where
  "saveBlock fifoHasRoom data numSamples r =
     (if rc_writing r \<and> data \<noteq> [] \<and> 0 < numSamples
      then r\<lparr>rc_files := (if fifoHasRoom then butlast (rc_files r) @ [append_block data (last (rc_files r))] else rc_files r),
             rc_samplesWritten := rc_samplesWritten r + word_of_nat numSamples\<rparr>
      else r)"

definition getElapsedTime :: "recorder \<Rightarrow> real" where
  "getElapsedTime r =
     (if 0 < rc_lastSampleRate r then of_int (uint (rc_samplesWritten r)) / of_int (rc_lastSampleRate r) else 0)"

section \<open>Worker\<close>

record recording_worker =
  gw_queue :: "recording_frame list"
  gw_written :: u64
  gw_dropped :: u64

definition recordingQueueCapacity :: nat where "recordingQueueCapacity = 8"

definition recording_new :: recording_worker where
  "recording_new = \<lparr>gw_queue = [], gw_written = 0, gw_dropped = 0\<rparr>"

definition recording_shutdown :: "recording_worker \<Rightarrow> recording_worker" where
  "recording_shutdown g = g\<lparr>gw_queue := []\<rparr>"

text \<open>A missing recorder has generation 0; a missing channel is recorded as silence.\<close>

definition recording_enqueue ::
  "recording_target \<Rightarrow> recorder option \<Rightarrow> real list option list \<Rightarrow> nat \<Rightarrow> recording_worker \<Rightarrow> bool \<times> recording_worker" where
  "recording_enqueue target rec channels numSamples g =
     (let generation = (case rec of None \<Rightarrow> 0 | Some r \<Rightarrow> rc_recordingGeneration r)
      in if generation = 0 then (True, g)
         else if channels = [] \<or> JAMMERNETZ_MAX_AUDIO_CHANNELS < length channels
              \<or> numSamples = 0 \<or> JAMMERNETZ_MAX_CALLBACK_SAMPLES < numSamples
         then (False, g\<lparr>gw_dropped := gw_dropped g + 1\<rparr>)
         else (let frame = \<lparr>gf_target = target, gf_recordingGeneration = generation,
                     gf_samples = map (\<lambda>ch. case ch of Some row \<Rightarrow> take numSamples row | None \<Rightarrow> replicate numSamples 0) channels\<rparr>;
                   (queued, q) = queue_write recordingQueueCapacity frame (gw_queue g)
               in (queued, if \<not> queued then g\<lparr>gw_dropped := gw_dropped g + 1\<rparr> else g\<lparr>gw_queue := q\<rparr>)))"

definition writeFrame ::
  "bool \<Rightarrow> recording_frame \<Rightarrow> recorder option \<Rightarrow> recording_worker \<Rightarrow> recorder option \<times> recording_worker" where
  "writeFrame fifoHasRoom frame rec g =
     (case rec of
        None \<Rightarrow> (rec, g)
      | Some r \<Rightarrow>
          if gf_recordingGeneration frame \<noteq> rc_recordingGeneration r then (rec, g)
          else (Some (saveBlock fifoHasRoom (gf_samples frame) (length (hd (gf_samples frame))) r),
                g\<lparr>gw_written := gw_written g + 1\<rparr>))"

text \<open>One pass: the frame goes to the recorder of its target.\<close>

definition recording_pass ::
  "bool \<Rightarrow> recorder option \<times> recorder option \<Rightarrow> recording_worker \<Rightarrow> (recorder option \<times> recorder option) \<times> recording_worker" where
  "recording_pass fifoHasRoom recorders g =
     (case queue_read (gw_queue g) of
        (None, q) \<Rightarrow> (recorders, g)
      | (Some frame, q) \<Rightarrow>
          (let g1 = g\<lparr>gw_queue := q\<rparr>
           in case gf_target frame of
                Recording_Local \<Rightarrow>
                  (let (r, g2) = writeFrame fifoHasRoom frame (fst recorders) g1 in ((r, snd recorders), g2))
              | Recording_Master \<Rightarrow>
                  (let (r, g2) = writeFrame fifoHasRoom frame (snd recorders) g1 in ((fst recorders, r), g2))))"

end
