(* ===== verification/Midi_Send.thy ===== *)
theory Midi_Send
  imports Realtime_Frames
begin

text \<open>
  The MIDI clock worker, \<open>Client/Source/MidiSendThread.cpp\<close>: the audio callback queues events with the
  time at which they are due, the worker waits for that time and makes the MIDI messages, among
  them the tempo message of Boss devices. Tempo values are \<open>float\<close>s; the product with 10 is exact
  in \<open>double\<close>.
\<close>

unbundle bit_operations_syntax

section \<open>Messages\<close>

text \<open>\<open>createSysExMessage\<close> frames its data with the bytes F0 and F7, which are not part of the list.\<close>

datatype midi_message = Midi_Empty | Midi_Start | Midi_Stop | Midi_Clock | Midi_SysEx "u8 list"

definition sysexMsb :: "u16 \<Rightarrow> u8" where
  "sysexMsb v = ucast (drop_bit 7 v)"

definition sysexLsb :: "u16 \<Rightarrow> u8" where
  "sysexLsb v = ucast (v AND 0x7f)"

text \<open>\<open>std::round\<close> rounds halves away from zero.\<close>

definition round_away :: "real \<Rightarrow> int" where
  "round_away x = (if 0 \<le> x then \<lfloor>x + 1 / 2\<rfloor> else - \<lfloor>1 / 2 - x\<rfloor>)"

definition boss_length :: "u8 \<Rightarrow> u16" where
  "boss_length signal = (if signal = MidiSignal_Start then 8 * 96 else 0)"

definition boss_data :: "u16 \<Rightarrow> u16 \<Rightarrow> u8 list" where
  "boss_data len tempo =
     [0x41, 0x10, 0x00, 0x00, 0x5C, 0x12, 0x00, 0x01, 0x00, 0x00,
      sysexMsb len, sysexLsb len, sysexMsb tempo, sysexLsb tempo, 0x00, 0x00, 0x00, 0x00]"

definition boss_checksum :: "u8 list \<Rightarrow> u8" where
  "boss_checksum data =
     (let checksum = foldl (\<lambda>c b. c + ucast b) (0 :: u16) (drop 6 data)
      in ucast ((0x80 - (ucast checksum :: u32)) AND 0x7f))"

definition createBossClockMessage :: "real \<Rightarrow> u8 \<Rightarrow> midi_message" where
  "createBossClockMessage bpm signal =
     (if signal \<noteq> MidiSignal_Start \<and> (signal \<noteq> MidiSignal_Stop \<or> bpm \<le> 0) then Midi_Empty
      else (let data = boss_data (boss_length signal) (word_of_int (round_away (bpm * 10)))
            in Midi_SysEx (data @ [boss_checksum data])))"

fun hasValidBossTempo :: "fl \<Rightarrow> bool" where
  "hasValidBossTempo (FFin b) = (0 < b \<and> b \<le> 6553.5)"
| "hasValidBossTempo _ = False"

fun fl_value :: "fl \<Rightarrow> real" where
  "fl_value (FFin b) = b"
| "fl_value _ = 0"

definition createOutputMessages :: "fl \<Rightarrow> u8 \<Rightarrow> bool \<Rightarrow> midi_message list" where
  "createOutputMessages bpm signal sendClock =
     (let boss = (if hasValidBossTempo bpm then [createBossClockMessage (fl_value bpm) signal] else [])
      in (if signal = MidiSignal_Start then Midi_Start # boss
          else if signal = MidiSignal_Stop then Midi_Stop # boss else [])
         @ (if sendClock then [Midi_Clock] else []))"

section \<open>The worker\<close>

record midi_item =
  mi_whenToSend :: timepoint
  mi_bpm :: fl
  mi_signal :: u8
  mi_sendClock :: bool

record midi_thread =
  mt_messages :: "midi_item list"
  mt_droppedMessages :: u64
  mt_outputEnabled :: bool

definition midiQueueCapacity :: nat where "midiQueueCapacity = 256"

definition midi_new :: midi_thread where
  "midi_new = \<lparr>mt_messages = [], mt_droppedMessages = 0, mt_outputEnabled = True\<rparr>"

definition enqueueAt :: "timepoint \<Rightarrow> fl \<Rightarrow> u8 \<Rightarrow> bool \<Rightarrow> midi_thread \<Rightarrow> bool \<times> midi_thread" where
  "enqueueAt whenToSend bpm signal sendClock m =
     (let (queued, q) = queue_write midiQueueCapacity
            \<lparr>mi_whenToSend = whenToSend, mi_bpm = bpm, mi_signal = signal, mi_sendClock = sendClock\<rparr> (mt_messages m)
      in (queued, if \<not> queued then m\<lparr>mt_droppedMessages := mt_droppedMessages m + 1\<rparr> else m\<lparr>mt_messages := q\<rparr>))"

definition disableOutput :: "midi_thread \<Rightarrow> midi_thread" where
  "disableOutput m = m\<lparr>mt_outputEnabled := False\<rparr>"

text \<open>
  The waiting loop as a function of what it observes in each round: whether the thread should exit,
  whether the output is enabled, and the clock. The result is \<open>None\<close> when the observations end
  before the loop does.
\<close>

fun wait_until_due :: "timepoint \<Rightarrow> (bool \<times> bool \<times> timepoint) list \<Rightarrow> unit option" where
  "wait_until_due whenToSend [] = None"
| "wait_until_due whenToSend ((shouldExit, enabled, now) # observed) =
     (if shouldExit \<or> \<not> enabled then Some ()
      else if whenToSend - now \<le> 0 then Some ()
      else wait_until_due whenToSend observed)"

text \<open>
  One pass: an empty queue and a disabled output skip it; \<open>stopped\<close> is what the check after the loop
  sees. The messages go to every output of the thread.
\<close>

definition midi_pass ::
  "bool \<Rightarrow> (bool \<times> bool \<times> timepoint) list \<Rightarrow> bool \<Rightarrow> midi_thread \<Rightarrow> (midi_message list \<times> midi_thread) option" where
  "midi_pass enabled observed stopped m =
     (case queue_read (mt_messages m) of
        (None, q) \<Rightarrow> Some ([], m)
      | (Some item, q) \<Rightarrow>
          (let m1 = m\<lparr>mt_messages := q\<rparr>
           in if \<not> enabled then Some ([], m1)
              else (case wait_until_due (mi_whenToSend item) observed of
                      None \<Rightarrow> None
                    | Some _ \<Rightarrow>
                        if stopped then Some ([], m1)
                        else Some (createOutputMessages (mi_bpm item) (mi_signal item) (mi_sendClock item), m1))))"

section \<open>The tempo message\<close>

lemma uint_sysex:
  "uint (sysexMsb v) = uint v div 128 mod 256" "uint (sysexLsb v) = uint v mod 128"
proof -
  have "uint (drop_bit 7 v) = uint v div 128"
    by (simp add: drop_bit_eq_div uint_div)
  then show "uint (sysexMsb v) = uint v div 128 mod 256"
    by (simp add: sysexMsb_def unsigned_ucast_eq take_bit_eq_mod)
  have "v AND 0x7f = take_bit 7 v" by (simp add: take_bit_eq_mask mask_eq_exp_minus_1)
  then have "uint (v AND 0x7f) = uint v mod 128" by (simp add: take_bit_eq_mod uint_mod)
  then show "uint (sysexLsb v) = uint v mod 128"
    by (simp add: sysexLsb_def unsigned_ucast_eq take_bit_eq_mod)
qed

lemma uint_checksum_fold:
  "uint c + (\<Sum>b\<leftarrow>bs. uint b) < 2 ^ 16 \<Longrightarrow>
   uint (foldl (\<lambda>c b. c + ucast b) c bs) = uint c + (\<Sum>b\<leftarrow>bs. uint b)"
  for c :: u16 and bs :: "u8 list"
proof (induction bs arbitrary: c)
  case (Cons b bs)
  have "0 \<le> (\<Sum>b\<leftarrow>bs. uint b)" by (intro sum_list_nonneg) auto
  then have sum: "uint c + uint b < 65536" using Cons.prems by simp
  have "uint b < 65536" using uint_bounded [of b] by simp
  then have "uint (c + ucast b) = uint c + uint b"
    using sum by (simp add: uint_word_ariths unsigned_ucast_eq take_bit_eq_mod)
  with Cons show ?case by simp
qed simp


lemma uint_boss_checksum:
  assumes "length data \<le> 200"
  shows "uint (boss_checksum data) = (- (\<Sum>b\<leftarrow>drop 6 data. uint b)) mod 128"
proof -
  let ?s = "\<Sum>b\<leftarrow>drop 6 data. uint b" and ?c = "foldl (\<lambda>c b. c + ucast b) (0 :: u16) (drop 6 data)"
  have "?s \<le> (\<Sum>b\<leftarrow>drop 6 data. 255)"
  proof (rule sum_list_mono)
    fix b :: u8 show "uint b \<le> 255" using uint_bounded [of b] by simp
  qed
  then have "?s < 2 ^ 16" using assms by (simp add: sum_list_triv)
  then have c: "uint ?c = ?s" using uint_checksum_fold [of 0 "drop 6 data"] by simp
  moreover have "0 \<le> ?s" by (intro sum_list_nonneg) auto
  ultimately have "uint (ucast ?c :: u32) = ?s"
    using uint_bounded [of ?c] by (simp add: unsigned_ucast_eq take_bit_eq_mod)
  moreover have "(0x80 - (ucast ?c :: u32)) AND 0x7f = take_bit 7 (0x80 - (ucast ?c :: u32))"
    by (simp add: take_bit_eq_mask mask_eq_exp_minus_1)
  ultimately have "uint ((0x80 - (ucast ?c :: u32)) AND 0x7f) = (128 - ?s) mod 2 ^ 32 mod 128"
    by (simp add: take_bit_eq_mod uint_mod uint_word_ariths)
  also have "\<dots> = (128 - ?s) mod 128" by (rule mod_mod_cancel) simp
  also have "\<dots> = (- ?s) mod 128" by (metis diff_0 minus_mod_self1)
  finally have "uint ((0x80 - (ucast ?c :: u32)) AND 0x7f) = (- ?s) mod 128" .
  then show ?thesis
    by (simp add: boss_checksum_def Let_def unsigned_ucast_eq take_bit_eq_mod)
qed

text \<open>
  The tempo message of a Boss device carries the tempo in tenths of a beat per minute, and its checksum makes
  the bytes it covers sum to a multiple of 128. Its two tempo bytes, 7 bits each, give the rounded tempo times ten
  up to 3276.7 beats per minute; the code accepts tempi up to 6553.5, for which the upper byte is
  truncated, so the number is taken modulo \<open>2 ^ 15\<close>. The message is a valid system exclusive
  message, all of whose data bytes are below 128, exactly when that remainder is below \<open>2 ^ 14\<close>: not
  from 1638.4 to 3276.7 beats per minute, and above with a wrong tempo.
\<close>

lemma boss_tempo_message:
  assumes "0 < b" and "b \<le> 6553.5" and "signal = MidiSignal_Start \<or> signal = MidiSignal_Stop"
  shows "\<exists>data. createBossClockMessage b signal = Midi_SysEx data \<and> length data = 19
    \<and> 128 * uint (data ! 12) + uint (data ! 13) = round_away (b * 10) mod 2 ^ 15
    \<and> (\<Sum>x\<leftarrow>drop 6 data. uint x) mod 128 = 0
    \<and> ((\<forall>x\<in>set data. x < 0x80) \<longleftrightarrow> round_away (b * 10) mod 2 ^ 15 < 2 ^ 14)"
proof -
  let ?n = "round_away (b * 10)" and ?tempo = "word_of_int (round_away (b * 10)) :: u16"
  let ?data = "boss_data (boss_length signal) ?tempo"
  have "0 \<le> ?n" "?n < 2 ^ 16"
    using assms(1,2) by (auto simp: round_away_def floor_less_iff)
  then have n: "uint ?tempo = ?n" by (simp add: take_bit_eq_mod unsigned_of_int)
  have msg: "createBossClockMessage b signal = Midi_SysEx (?data @ [boss_checksum ?data])"
    using assms by (auto simp: createBossClockMessage_def Let_def)
  have len: "length ?data = 18" by (simp add: boss_data_def)
  have nth: "(?data @ [boss_checksum ?data]) ! 12 = sysexMsb ?tempo" "(?data @ [boss_checksum ?data]) ! 13 = sysexLsb ?tempo"
    by (simp_all add: boss_data_def)
  have msb: "uint (sysexMsb ?tempo) = ?n div 128 mod 256" "uint (sysexLsb ?tempo) = ?n mod 128"
    by (simp_all add: uint_sysex n)
  have split: "128 * (?n div 128 mod 256) + ?n mod 128 = ?n mod 2 ^ 15"
    using mod_mult2_eq' [of ?n 128 256] by simp
  have sum: "(\<Sum>x\<leftarrow>drop 6 (?data @ [boss_checksum ?data]). uint x) mod 128 = 0"
    using uint_boss_checksum [of ?data] by (simp add: len mod_simps)
  have small: "boss_checksum ?data < 0x80" "sysexLsb ?tempo < 0x80"
    using uint_boss_checksum [of ?data] msb(2) by (simp_all add: len word_less_def)
  have "(\<forall>x\<in>set (?data @ [boss_checksum ?data]). x < 0x80) \<longleftrightarrow> sysexMsb ?tempo < 0x80"
    using small by (auto simp: boss_data_def boss_length_def sysexMsb_def sysexLsb_def)
  also have "\<dots> \<longleftrightarrow> ?n div 128 mod 256 < 128" by (simp add: word_less_def msb)
  also have "\<dots> \<longleftrightarrow> ?n mod 2 ^ 15 < 2 ^ 14"
  proof -
    have "m < 128 \<longleftrightarrow> 128 * m + l < 2 ^ 14" if "0 \<le> l" "l < 128" for m l :: int using that by auto
    from this [of "?n mod 128" "?n div 128 mod 256"] show ?thesis unfolding split by simp
  qed
  finally have valid: "(\<forall>x\<in>set (?data @ [boss_checksum ?data]). x < 0x80) \<longleftrightarrow> ?n mod 2 ^ 15 < 2 ^ 14" .
  show ?thesis
    by (rule exI [of _ "?data @ [boss_checksum ?data]"], intro conjI msg sum valid)
      (simp_all only: nth msb split length_append len list.size)
qed

lemma boss_tempo_message_witness:
  "\<exists>data. createBossClockMessage 120.5 MidiSignal_Start = Midi_SysEx data \<and> length data = 19
    \<and> 128 * uint (data ! 12) + uint (data ! 13) = 1205 \<and> (\<forall>x\<in>set data. x < 0x80)"
  using boss_tempo_message [of "120.5" MidiSignal_Start] by (auto simp: round_away_def)

end
