(* ===== verification/Audio_Engine.thy ===== *)
theory Audio_Engine
  imports Audio_Transmit Audio_Receive Audio_Recording Midi_Send
begin

text \<open>
  The audio engine of the client, \<open>Client/Source/JammerNetzAudioEngine.cpp\<close>: the audio callback that
  captures, mixes and plays, and the operations of the other threads that prepare its state. The
  callback is a function of the engine's state and of what it reads from its environment (the clocks);
  the tap and the outgoing worker threads see its results. The raw pointers that hand state from the
  message thread to the callback are treated in \<open>Engine_Handshakes\<close>. Tempo arithmetic is in
  \<open>double\<close> in the code and exact here.
\<close>

section \<open>State\<close>

record playout_quality =
  pq_currentPlayQueueLength :: u64
  pq_playUnderruns :: u64
  pq_discardedPackageCounter :: u64
  pq_toPlayLatency :: real
  pq_numSamplesSinceStart :: int
  pq_startTime :: timepoint
  pq_lastTime :: timepoint
  pq_measuredSampleRate :: real

definition new_playout_quality :: playout_quality where
  "new_playout_quality =
     \<lparr>pq_currentPlayQueueLength = 0, pq_playUnderruns = 0, pq_discardedPackageCounter = 0, pq_toPlayLatency = 0,
      pq_numSamplesSinceStart = -1, pq_startTime = 0, pq_lastTime = 0, pq_measuredSampleRate = 0\<rparr>"

record timing_marker =
  tm_playoutSample :: u64
  tm_serverSampleEnd :: u64
  tm_bpm :: fl
  tm_midiSignal :: u8

definition no_marker :: timing_marker where
  "no_marker = \<lparr>tm_playoutSample = 0, tm_serverSampleEnd = 0, tm_bpm = FFin 0, tm_midiSignal = MidiSignal_None\<rparr>"

definition maxPlayoutTimingMarkers :: nat where
  "maxPlayoutTimingMarkers = PLAYOUT_RINGBUFFER_SIZE div SAMPLE_BUFFER_SIZE + 1"

record playout_timing =
  pt_markers :: "timing_marker list"
  pt_read :: nat
  pt_write :: nat
  pt_count :: nat
  pt_samplesWritten :: u64
  pt_samplesRead :: u64
  pt_dropped :: u64

definition playout_timing_new :: playout_timing where
  "playout_timing_new =
     \<lparr>pt_markers = replicate maxPlayoutTimingMarkers no_marker, pt_read = 0, pt_write = 0, pt_count = 0,
      pt_samplesWritten = 0, pt_samplesRead = 0, pt_dropped = 0\<rparr>"

text \<open>
  \<open>inputState_\<close> always points to a configuration, so the setup is a field and only its ring buffer is
  optional. The workers exist for the life of the engine, except the recording worker.
\<close>

record ('r, 'd, 'm) engine =
  en_setup :: channel_setup
  en_ingestBuffer :: "'r option"
  en_shutdownRequested :: bool
  en_started :: bool
  en_playoutBuffer :: 'r
  en_timing :: playout_timing
  en_isPlaying :: bool
  en_resetQualityInfo :: bool
  en_resetPlayoutRequested :: bool
  en_expectedRemoteGeneration :: u64
  en_minPlayoutBufferLength :: u64
  en_maxPlayoutBufferLength :: u64
  en_masterVolume :: real
  en_monitorBalance :: real
  en_monitorIsLocal :: bool
  en_clientBpm :: fl
  en_serverBpm :: fl
  en_ignoreNextServerBpmChange :: bool
  en_pendingServerBpm :: fl
  en_bpmSliderLastMoved :: timepoint
  en_outMeter :: 'm
  en_recorders :: "recorder option \<times> recorder option"
  en_recording :: "recording_worker option"
  en_midiSender :: "midi_thread option"
  en_transmit :: "('d, 'm) transmit_worker"
  en_receive :: receive_worker
  en_retiredMidiDropped :: u64
  en_mismatchReported :: bool
  en_midiSignals :: "u8 list"
  en_midiCommandsDropped :: u64
  en_quality :: playout_quality
  en_published :: playout_quality
  en_preparedSampleRate :: real
  en_callbackCount :: u64
  en_maximumCallbackNanoseconds :: u64
  en_callbackDeadlineMisses :: u64
  en_inputBlocksDropped :: u64
  en_completedAudioEpoch :: u64
  en_hasTap :: bool

definition engine_new :: "'r ring_api \<Rightarrow> 'm \<Rightarrow> 'm \<Rightarrow> ('r, 'd, 'm) engine" where
  "engine_new A meter transmitMeter =
     \<lparr>en_setup = new_channel_setup False, en_ingestBuffer = None, en_shutdownRequested = False, en_started = False,
      en_playoutBuffer = rb_make A 2 PLAYOUT_RINGBUFFER_SIZE, en_timing = playout_timing_new, en_isPlaying = False,
      en_resetQualityInfo = False, en_resetPlayoutRequested = False, en_expectedRemoteGeneration = 0,
      en_minPlayoutBufferLength = word_of_nat CLIENT_PLAYOUT_JITTER_BUFFER,
      en_maxPlayoutBufferLength = word_of_nat CLIENT_PLAYOUT_MAX_BUFFER,
      en_masterVolume = 1, en_monitorBalance = 0, en_monitorIsLocal = False, en_clientBpm = FNaN,
      en_serverBpm = FFin 0, en_ignoreNextServerBpmChange = False, en_pendingServerBpm = FFin 0,
      en_bpmSliderLastMoved = 0, en_outMeter = meter, en_recorders = (None, None), en_recording = None,
      en_midiSender = None, en_transmit = transmit_new transmitMeter, en_receive = receive_new,
      en_retiredMidiDropped = 0, en_mismatchReported = False, en_midiSignals = [], en_midiCommandsDropped = 0,
      en_quality = new_playout_quality, en_published = new_playout_quality,
      en_preparedSampleRate = real SAMPLE_RATE, en_callbackCount = 0, en_maximumCallbackNanoseconds = 0,
      en_callbackDeadlineMisses = 0, en_inputBlocksDropped = 0, en_completedAudioEpoch = 0, en_hasTap = False\<rparr>"

section \<open>Operations of the message and network threads\<close>

definition enqueueRemoteAudio :: "audio_data option \<Rightarrow> ('r, 'd, 'm) engine \<Rightarrow> ('r, 'd, 'm) engine" where
  "enqueueRemoteAudio buffer e = e\<lparr>en_receive := receive_enqueue buffer (en_receive e)\<rparr>"

definition setPlayoutBufferRange :: "u64 \<Rightarrow> u64 \<Rightarrow> ('r, 'd, 'm) engine \<Rightarrow> ('r, 'd, 'm) engine" where
  "setPlayoutBufferRange minimumLength maximumLength e =
     e\<lparr>en_minPlayoutBufferLength := minimumLength, en_maxPlayoutBufferLength := max minimumLength maximumLength,
       en_receive := setPlayoutRange minimumLength maximumLength (en_receive e)\<rparr>"

definition setMasterVolume :: "real \<Rightarrow> ('r, 'd, 'm) engine \<Rightarrow> ('r, 'd, 'm) engine" where
  "setMasterVolume volume e = e\<lparr>en_masterVolume := volume\<rparr>"

definition setMonitorBalance :: "real \<Rightarrow> ('r, 'd, 'm) engine \<Rightarrow> ('r, 'd, 'm) engine" where
  "setMonitorBalance balance e = e\<lparr>en_monitorBalance := balance\<rparr>"

definition setLocalMonitoring :: "bool \<Rightarrow> ('r, 'd, 'm) engine \<Rightarrow> ('r, 'd, 'm) engine" where
  "setLocalMonitoring enabled e = e\<lparr>en_monitorIsLocal := enabled\<rparr>"

text \<open>The mailbox holds the latest tempo, or a NaN when it has been taken.\<close>

definition mailbox_takeLatest :: "fl \<Rightarrow> fl option \<times> fl" where
  "mailbox_takeLatest v = (if \<not> fl_isnan v then Some v else None, FNaN)"

text \<open>\<open>fabs(bpm - pending) < 1e-4f\<close>, false when a value is not finite; the constant is that of the \<open>float\<close>.\<close>

fun bpm_close :: "fl \<Rightarrow> fl \<Rightarrow> bool" where
  "bpm_close (FFin a) (FFin b) = (\<bar>a - b\<bar> < 13743895 / 137438953472)"
| "bpm_close _ _ = False"

definition setClientBpm :: "timepoint \<Rightarrow> fl \<Rightarrow> ('r, 'd, 'm) engine \<Rightarrow> ('r, 'd, 'm) engine" where
  "setClientBpm now bpm e =
     (let e1 = (if en_ignoreNextServerBpmChange e then e\<lparr>en_ignoreNextServerBpmChange := False\<rparr> else e)
      in if en_ignoreNextServerBpmChange e \<and> bpm_close bpm (en_pendingServerBpm e) then e1
         else e1\<lparr>en_clientBpm := bpm, en_bpmSliderLastMoved := now\<rparr>)"

definition takeServerBpmUpdate :: "timepoint \<Rightarrow> ('r, 'd, 'm) engine \<Rightarrow> fl option \<times> ('r, 'd, 'm) engine" where
  "takeServerBpmUpdate now e =
     (let (bpm, w) = worker_takeServerBpmUpdate (en_receive e);
          e1 = e\<lparr>en_receive := w\<rparr>
      in case bpm of
           None \<Rightarrow> (None, e1)
         | Some b \<Rightarrow>
             if en_bpmSliderLastMoved e1 \<noteq> 0 \<and> now - en_bpmSliderLastMoved e1 \<le> seconds 1 then (None, e1)
             else (Some b, e1\<lparr>en_serverBpm := b, en_pendingServerBpm := b, en_ignoreNextServerBpmChange := True,
                              en_bpmSliderLastMoved := now\<rparr>))"

text \<open>The retired sender is disabled, waited for and shut down; what it dropped is kept.\<close>

definition retireMidiSender :: "midi_thread option \<Rightarrow> ('r, 'd, 'm) engine \<Rightarrow> ('r, 'd, 'm) engine" where
  "retireMidiSender sender e =
     (case sender of
        None \<Rightarrow> e
      | Some m \<Rightarrow> e\<lparr>en_retiredMidiDropped := en_retiredMidiDropped e + mt_droppedMessages (disableOutput m)\<rparr>)"

definition restartClock :: "('r, 'd, 'm) engine \<Rightarrow> ('r, 'd, 'm) engine" where
  "restartClock e = retireMidiSender (en_midiSender e) (e\<lparr>en_midiSender := Some midi_new\<rparr>)"

definition setMidiSignalToSend :: "u8 \<Rightarrow> ('r, 'd, 'm) engine \<Rightarrow> ('r, 'd, 'm) engine" where
  "setMidiSignalToSend signal e =
     (if signal = MidiSignal_None then e
      else (let (ok, q) = queue_write 32 signal (en_midiSignals e)
            in if \<not> ok then e\<lparr>en_midiCommandsDropped := en_midiCommandsDropped e + 1\<rparr> else e\<lparr>en_midiSignals := q\<rparr>))"

definition takeMidiSignalToSend :: "('r, 'd, 'm) engine \<Rightarrow> u8 option \<times> ('r, 'd, 'm) engine" where
  "takeMidiSignalToSend e = (let (signal, q) = queue_read (en_midiSignals e) in (signal, e\<lparr>en_midiSignals := q\<rparr>))"

definition newServer :: "('r, 'd, 'm) engine \<Rightarrow> ('r, 'd, 'm) engine" where
  "newServer e =
     (let (generation, w) = requestReset (en_receive e)
      in e\<lparr>en_resetQualityInfo := True, en_receive := w, en_expectedRemoteGeneration := generation,
           en_resetPlayoutRequested := True\<rparr>)"

definition master_setup :: channel_setup where
  "master_setup = channel_setup_of False [single_channel (channel_target_code Left), single_channel (channel_target_code Right)]"

definition engine_start :: "int \<Rightarrow> bool \<Rightarrow> ('r, 'd, 'm) engine \<Rightarrow> ('r, 'd, 'm) engine" where
  "engine_start uninitialisedRate enableRecording e =
     (if en_started e then e
      else (let e1 = e\<lparr>en_shutdownRequested := False, en_started := True\<rparr>
            in if enableRecording
               then e1\<lparr>en_recorders := (Some (recorder_new uninitialisedRate),
                        Some (setChannelInfo (int SAMPLE_RATE) master_setup (recorder_new uninitialisedRate))),
                       en_recording := Some recording_new\<rparr>
               else e1))"

datatype tap_event = Tap_Prepare real int | Tap_Release | Tap_Enqueue "real list list"

definition engine_shutdown :: "('r, 'd, 'm) engine \<Rightarrow> tap_event list \<times> ('r, 'd, 'm) engine" where
  "engine_shutdown e =
     (if en_hasTap e then [Tap_Release] else [],
      retireMidiSender (en_midiSender e)
        (e\<lparr>en_shutdownRequested := True, en_started := False, en_hasTap := False, en_recording := None,
           en_transmit := transmit_shutdown (en_transmit e), en_receive := receive_shutdown (en_receive e),
           en_midiSender := None, en_recorders := (None, None)\<rparr>))"

definition prepare :: "real \<Rightarrow> int \<Rightarrow> ('r, 'd, 'm) engine \<Rightarrow> tap_event list \<times> ('r, 'd, 'm) engine" where
  "prepare sampleRate maximumBlockSize e =
     (if en_hasTap e then [Tap_Prepare sampleRate maximumBlockSize] else [],
      e\<lparr>en_preparedSampleRate := sampleRate, en_quality := new_playout_quality, en_resetPlayoutRequested := True\<rparr>)"

definition release :: "('r, 'd, 'm) engine \<Rightarrow> tap_event list \<times> ('r, 'd, 'm) engine" where
  "release e = (if en_hasTap e then [Tap_Release] else [], e\<lparr>en_resetPlayoutRequested := True\<rparr>)"

definition setOutputTap :: "bool \<Rightarrow> ('r, 'd, 'm) engine \<Rightarrow> ('r, 'd, 'm) engine" where
  "setOutputTap tap e = e\<lparr>en_hasTap := tap\<rparr>"

text \<open>A setup that differs only in measured levels changes nothing but the worker's copy.\<close>

definition engine_setChannelSetup :: "'r ring_api \<Rightarrow> channel_setup \<Rightarrow> ('r, 'd, 'm) engine \<Rightarrow> ('r, 'd, 'm) engine" where
  "engine_setChannelSetup A setup e =
     (let e1 = e\<lparr>en_transmit := transmit_setChannelSetup setup (en_transmit e)\<rparr>
      in if cs_isEqualEnough (en_setup e1) setup then e1
         else (let channelCountChanged = length (cs_channels (en_setup e1)) \<noteq> length (cs_channels setup);
                   ingest = (if channelCountChanged
                             then (if cs_channels setup = [] then None
                                   else Some (rb_make A (length (cs_channels setup)) INGEST_RINGBUFFER_SIZE))
                             else en_ingestBuffer e1)
               in e1\<lparr>en_recorders := (map_option (setChannelInfo (int SAMPLE_RATE) setup) (fst (en_recorders e1)),
                       snd (en_recorders e1)),
                     en_mismatchReported := False, en_setup := setup, en_ingestBuffer := ingest\<rparr>))"

section \<open>Statistics\<close>

definition measureSamplesPerTime :: "timepoint \<Rightarrow> nat \<Rightarrow> playout_quality \<Rightarrow> playout_quality" where
  "measureSamplesPerTime now numSamples q =
     (if pq_numSamplesSinceStart q = -1
      then q\<lparr>pq_startTime := now, pq_numSamplesSinceStart := 0, pq_measuredSampleRate := 0\<rparr>
      else (let total = pq_numSamplesSinceStart q + int numSamples;
                elapsedSeconds = real_of_int (now - pq_startTime q) / 1000000000
            in q\<lparr>pq_numSamplesSinceStart := total, pq_lastTime := now,
                 pq_measuredSampleRate := (if 0 < elapsedSeconds then real_of_int total / elapsedSeconds else 0)\<rparr>))"

definition getPlayoutQualityInfo :: "('r, 'd, 'm) engine \<Rightarrow> playout_quality" where
  "getPlayoutQualityInfo e =
     new_playout_quality\<lparr>pq_currentPlayQueueLength := pq_currentPlayQueueLength (en_published e),
       pq_playUnderruns := pq_playUnderruns (en_published e),
       pq_discardedPackageCounter := pq_discardedPackageCounter (en_published e),
       pq_toPlayLatency := pq_toPlayLatency (en_published e),
       pq_measuredSampleRate := pq_measuredSampleRate (en_published e)\<rparr>"

record realtime_worker_stats =
  st_callbackCount :: u64
  st_maximumCallbackNanoseconds :: u64
  st_callbackDeadlineMisses :: u64
  st_inputBlocksDropped :: u64
  st_transmitFramesQueued :: u64
  st_transmitFramesSent :: u64
  st_transmitFramesDropped :: u64
  st_receiveFramesDiscarded :: u64
  st_receiveQueueOverruns :: u64
  st_recordingFramesWritten :: u64
  st_recordingFramesDropped :: u64
  st_midiTransportCommandsDropped :: u64
  st_midiOutputEventsDropped :: u64
  st_midiTimingMarkersDropped :: u64

definition getRealtimeWorkerStats :: "('r, 'd, 'm) engine \<Rightarrow> realtime_worker_stats" where
  "getRealtimeWorkerStats e =
     \<lparr>st_callbackCount = en_callbackCount e, st_maximumCallbackNanoseconds = en_maximumCallbackNanoseconds e,
      st_callbackDeadlineMisses = en_callbackDeadlineMisses e, st_inputBlocksDropped = en_inputBlocksDropped e,
      st_transmitFramesQueued = tw_enqueued (en_transmit e), st_transmitFramesSent = tw_sent (en_transmit e),
      st_transmitFramesDropped = tw_dropped (en_transmit e),
      st_receiveFramesDiscarded = discardedFrames (en_receive e),
      st_receiveQueueOverruns = outputQueueOverruns (en_receive e),
      st_recordingFramesWritten = (case en_recording e of None \<Rightarrow> 0 | Some g \<Rightarrow> gw_written g),
      st_recordingFramesDropped = (case en_recording e of None \<Rightarrow> 0 | Some g \<Rightarrow> gw_dropped g),
      st_midiTransportCommandsDropped = en_midiCommandsDropped e,
      st_midiOutputEventsDropped = (case en_midiSender e of None \<Rightarrow> 0 | Some m \<Rightarrow> mt_droppedMessages m) + en_retiredMidiDropped e,
      st_midiTimingMarkersDropped = pt_dropped (en_timing e)\<rparr>"

definition sessionPitch :: "channel_setup \<Rightarrow> nat \<Rightarrow> real" where
  "sessionPitch setup channel =
     (if channel < length (cs_channels setup) then sc_pitch (cs_channels setup ! channel) else 0)"

end
