(* ===== verification/Engine_Callback.thy ===== *)
theory Engine_Callback
  imports Audio_Engine
begin

text \<open>
  The audio callback of \<open>Client/Source/JammerNetzAudioEngine.cpp\<close>: \<open>process\<close> cuts the block of the
  device into chunks, \<open>processChunk\<close> captures the input, mixes the local monitor, plays the remote
  frames and schedules the MIDI clock. A channel pointer of the device may be null, so an input or
  output channel is an optional row of samples; \<open>addFrom\<close> is the parameter \<open>mac\<close> of \<open>Server_Mixer\<close>.
\<close>

section \<open>Local monitoring\<close>

definition calcMonitorGain :: "real \<Rightarrow> real \<times> real" where
  "calcMonitorGain t = (sqrt (0.5 * (1 - t)), sqrt (0.5 * (1 + t)))"

text \<open>The output buffer refers to the first one or two channels of the device.\<close>

definition add_row :: "(real \<Rightarrow> real \<Rightarrow> real \<Rightarrow> real) \<Rightarrow> nat \<Rightarrow> real list \<Rightarrow> real \<Rightarrow> real list list \<Rightarrow> real list list" where
  "add_row mac dest source gain output =
     (if dest < length output then output[dest := map2 (\<lambda>d s. mac d s gain) (output ! dest) source] else output)"

definition monitor_channel ::
  "(real \<Rightarrow> real \<Rightarrow> real \<Rightarrow> real) \<Rightarrow> real \<Rightarrow> real list \<Rightarrow> single_channel_setup \<Rightarrow> real list list \<Rightarrow> real list list" where
  "monitor_channel mac volume row details output =
     (let input_volume = sc_volume details * volume
      in case target_of_u8 (sc_target details) of
           Some Left \<Rightarrow> add_row mac 0 row input_volume output
         | Some Right \<Rightarrow> add_row mac 1 row input_volume output
         | Some Mono \<Rightarrow> add_row mac 1 row input_volume (add_row mac 0 row input_volume output)
         | _ \<Rightarrow> output)"

fun monitor_channels ::
  "(real \<Rightarrow> real \<Rightarrow> real \<Rightarrow> real) \<Rightarrow> real \<Rightarrow> real list option list \<Rightarrow> single_channel_setup list \<Rightarrow> real list list \<Rightarrow> real list list" where
  "monitor_channels mac volume (input # inputs) (details # setups) output =
     monitor_channels mac volume inputs setups
       (case input of None \<Rightarrow> output | Some row \<Rightarrow> monitor_channel mac volume row details output)"
| "monitor_channels mac volume _ _ output = output"

definition calcLocalMonitoring ::
  "(real \<Rightarrow> real \<Rightarrow> real \<Rightarrow> real) \<Rightarrow> real list option list \<Rightarrow> channel_setup \<Rightarrow> ('r, 'd, 'm) engine \<Rightarrow> real list list \<Rightarrow> real list list" where
  "calcLocalMonitoring mac inputs setup e output =
     (if en_monitorIsLocal e
      then monitor_channels mac (fst (calcMonitorGain (en_monitorBalance e)) * en_masterVolume e) inputs (cs_channels setup) output
      else output)"

section \<open>Playout position and the MIDI clock\<close>

definition timing_reset :: "playout_timing \<Rightarrow> playout_timing" where
  "timing_reset t = t\<lparr>pt_read := 0, pt_write := 0, pt_count := 0, pt_samplesWritten := 0, pt_samplesRead := 0\<rparr>"

definition resetPlayoutState :: "'r ring_api \<Rightarrow> ('r, 'd, 'm) engine \<Rightarrow> ('r, 'd, 'm) engine" where
  "resetPlayoutState A e = e\<lparr>en_playoutBuffer := rb_clear A (en_playoutBuffer e), en_timing := timing_reset (en_timing e)\<rparr>"

definition appendPlayoutTiming :: "remote_frame \<Rightarrow> playout_timing \<Rightarrow> playout_timing" where
  "appendPlayoutTiming frame t =
     (if pt_count t = length (pt_markers t)
      then t\<lparr>pt_dropped := pt_dropped t + 1, pt_samplesWritten := pt_samplesWritten t + word_of_nat SAMPLE_BUFFER_SIZE\<rparr>
      else t\<lparr>pt_markers := (pt_markers t)[pt_write t :=
               \<lparr>tm_playoutSample = pt_samplesWritten t, tm_serverSampleEnd = rf_serverSampleEnd frame,
                tm_bpm = rf_bpm frame, tm_midiSignal = rf_midiSignal frame\<rparr>],
             pt_write := (pt_write t + 1) mod length (pt_markers t), pt_count := pt_count t + 1,
             pt_samplesWritten := pt_samplesWritten t + word_of_nat SAMPLE_BUFFER_SIZE\<rparr>)"

text \<open>A conversion of seconds to nanoseconds truncates; the samples are never negative.\<close>

definition atSampleOffset :: "timepoint \<Rightarrow> real \<Rightarrow> timepoint" where
  "atSampleOffset playoutStart samples = playoutStart + \<lfloor>samples / real SAMPLE_RATE * 1000000000\<rfloor>"

fun playable_tempo :: "fl \<Rightarrow> bool" where
  "playable_tempo (FFin b) = (0 < b \<and> b \<le> 1000)"
| "playable_tempo _ = False"

definition samplesPerPulse :: "real \<Rightarrow> real" where
  "samplesPerPulse bpm = real SAMPLE_RATE * 60 / (bpm * 24)"

text \<open>The loop over at most \<open>n\<close> pulses from \<open>pulse\<close> on, stopped by the end of the frame.\<close>

fun schedule_pulses ::
  "timepoint \<Rightarrow> real \<Rightarrow> u64 \<Rightarrow> real \<Rightarrow> real \<Rightarrow> nat \<Rightarrow> nat \<Rightarrow> midi_thread \<Rightarrow> midi_thread" where
  "schedule_pulses playoutStart bpm frameOffset frameStart frameEnd 0 pulse m = m"
| "schedule_pulses playoutStart bpm frameOffset frameStart frameEnd (Suc n) pulse m =
     (let pulseSample = real pulse * samplesPerPulse bpm
      in if frameEnd - 1 / 1000000000 \<le> pulseSample then m
         else (let offset = real_of_int (uint frameOffset) + pulseSample - frameStart;
                   m' = snd (enqueueAt (atSampleOffset playoutStart (max 0 offset)) (FFin bpm) MidiSignal_None True m)
               in schedule_pulses playoutStart bpm frameOffset frameStart frameEnd n (pulse + 1) m'))"

definition maximumPulsesPerFrame :: nat where "maximumPulsesPerFrame = 8"

definition scheduleMidiFrame :: "u64 \<Rightarrow> fl \<Rightarrow> u8 \<Rightarrow> u64 \<Rightarrow> timepoint \<Rightarrow> midi_thread \<Rightarrow> midi_thread" where
  "scheduleMidiFrame serverSampleEnd bpm signal frameOffsetSamples playoutStart m =
     (let m1 = (if signal \<noteq> MidiSignal_None
                then snd (enqueueAt (atSampleOffset playoutStart (real_of_int (uint frameOffsetSamples))) bpm signal False m)
                else m)
      in if \<not> playable_tempo bpm \<or> serverSampleEnd < word_of_nat SAMPLE_BUFFER_SIZE then m1
         else (let spp = samplesPerPulse (fl_value bpm);
                   frameStart = real_of_int (uint (serverSampleEnd - word_of_nat SAMPLE_BUFFER_SIZE));
                   frameEnd = real_of_int (uint serverSampleEnd);
                   firstPulse = nat \<lceil>frameStart / spp - 1 / 1000000000000\<rceil>
               in schedule_pulses playoutStart (fl_value bpm) frameOffsetSamples frameStart frameEnd
                    maximumPulsesPerFrame firstPulse m1))"

text \<open>
  The loop over the markers before \<open>readEnd\<close>; it runs at most as often as there are markers. Without a
  sender the markers are only removed.
\<close>

fun schedule_markers :: "nat \<Rightarrow> timepoint \<Rightarrow> u64 \<Rightarrow> playout_timing \<Rightarrow> midi_thread option \<Rightarrow> playout_timing \<times> midi_thread option" where
  "schedule_markers 0 playoutStart readEnd t sender = (t, sender)"
| "schedule_markers (Suc n) playoutStart readEnd t sender =
     (let marker = pt_markers t ! pt_read t
      in if readEnd \<le> tm_playoutSample marker then (t, sender)
         else (let frameOffset = (if pt_samplesRead t < tm_playoutSample marker
                                  then tm_playoutSample marker - pt_samplesRead t else 0);
                   sender' = map_option (scheduleMidiFrame (tm_serverSampleEnd marker) (tm_bpm marker)
                               (tm_midiSignal marker) frameOffset playoutStart) sender;
                   t' = t\<lparr>pt_read := (pt_read t + 1) mod length (pt_markers t), pt_count := pt_count t - 1\<rparr>
               in schedule_markers n playoutStart readEnd t' sender'))"

definition scheduleMidiForPlayout ::
  "timepoint \<Rightarrow> nat \<Rightarrow> playout_timing \<Rightarrow> midi_thread option \<Rightarrow> playout_timing \<times> midi_thread option" where
  "scheduleMidiForPlayout playoutStart numSamples t sender =
     (let readEnd = pt_samplesRead t + word_of_nat numSamples;
          (t', sender') = schedule_markers (pt_count t) playoutStart readEnd t sender
      in (t'\<lparr>pt_samplesRead := readEnd\<rparr>, sender'))"

section \<open>Capture\<close>

text \<open>
  The capture loop turns every 128 samples of the ring into a block for the transmit worker. It runs
  while the ring has that many; \<open>n\<close> bounds the rounds, and every round takes 128 samples.
\<close>

fun capture_blocks :: "'r ring_api \<Rightarrow> nat \<Rightarrow> nat \<Rightarrow> 'r \<Rightarrow> ('r, 'd, 'm) engine \<Rightarrow> 'r \<times> ('r, 'd, 'm) engine" where
  "capture_blocks A channels 0 ring e = (ring, e)"
| "capture_blocks A channels (Suc n) ring e =
     (if rb_numReady A ring < SAMPLE_BUFFER_SIZE then (ring, e)
      else if hasCapacity (en_transmit e)
      then (let (bpm, mailbox) = mailbox_takeLatest (en_clientBpm e);
                (signal, e1) = takeMidiSignalToSend (e\<lparr>en_clientBpm := mailbox\<rparr>);
                (ok, ring1, w) = enqueueFrom A ring (int channels) bpm signal (en_transmit e1);
                ring2 = (if ok then ring1 else rb_discard A ring1 SAMPLE_BUFFER_SIZE)
            in capture_blocks A channels n ring2 (e1\<lparr>en_transmit := w\<rparr>))
      else capture_blocks A channels n (rb_discard A ring SAMPLE_BUFFER_SIZE)
             (e\<lparr>en_transmit := recordDroppedFrame (en_transmit e)\<rparr>))"

definition record_block ::
  "recording_target \<Rightarrow> real list option list \<Rightarrow> nat \<Rightarrow> ('r, 'd, 'm) engine \<Rightarrow> ('r, 'd, 'm) engine" where
  "record_block target channels numSamples e =
     e\<lparr>en_recording := map_option
         (\<lambda>g. snd (recording_enqueue target
                (case target of Recording_Local \<Rightarrow> fst (en_recorders e) | Recording_Master \<Rightarrow> snd (en_recorders e))
                channels numSamples g))
         (en_recording e)\<rparr>"

definition inputStateMatchesDevice :: "real list option list \<Rightarrow> ('r, 'd, 'm) engine \<Rightarrow> bool" where
  "inputStateMatchesDevice inputs e \<longleftrightarrow> en_ingestBuffer e \<noteq> None \<and> length (cs_channels (en_setup e)) = length inputs"

definition capture :: "'r ring_api \<Rightarrow> real list option list \<Rightarrow> nat \<Rightarrow> ('r, 'd, 'm) engine \<Rightarrow> ('r, 'd, 'm) engine" where
  "capture A inputs numSamples e =
     (if inputs \<noteq> [] \<and> list_all (\<lambda>i. i \<noteq> None) inputs \<and> inputStateMatchesDevice inputs e
      then (let e1 = record_block Recording_Local inputs numSamples e;
                ring = the (en_ingestBuffer e1);
                fits = (numSamples \<le> rb_freeSpace A ring);
                ring1 = (if fits then rb_write A ring (map the inputs) numSamples else ring);
                e2 = (if fits then e1 else e1\<lparr>en_inputBlocksDropped := en_inputBlocksDropped e1 + 1\<rparr>);
                (ring2, e3) = capture_blocks A (length inputs) (rb_numReady A ring1 div SAMPLE_BUFFER_SIZE + 1) ring1 e2
            in e3\<lparr>en_ingestBuffer := Some ring2\<rparr>)
      else e)"

section \<open>Playout\<close>

text \<open>What the callback reads besides its arguments.\<close>

record chunk_env =
  ce_measureTime :: timepoint
  ce_playoutTime :: timepoint
  ce_millis :: real

text \<open>
  The loop that fetches frames until the chunk can be played, over the frames waiting; the age of the
  newest is measured. Frames of another generation are dropped.
\<close>

fun fetch_frames ::
  "'r ring_api \<Rightarrow> real \<Rightarrow> u64 \<Rightarrow> nat \<Rightarrow> remote_frame list \<Rightarrow> 'r \<Rightarrow> playout_timing \<Rightarrow> real
    \<Rightarrow> remote_frame list \<times> 'r \<times> playout_timing \<times> real" where
  "fetch_frames A millis generation numSamples [] ring t latency = ([], ring, t, latency)"
| "fetch_frames A millis generation numSamples (frame # frames) ring t latency =
     (if \<not> rb_numReady A ring < numSamples then (frame # frames, ring, t, latency)
      else if rf_generation frame \<noteq> generation then fetch_frames A millis generation numSamples frames ring t latency
      else fetch_frames A millis generation numSamples frames
             (rb_write A ring (rf_samples frame) SAMPLE_BUFFER_SIZE) (appendPlayoutTiming frame t)
             (millis - rf_sourceTimestamp frame))"

text \<open>Clearing the outputs, and the channels the engine plays on: the leading ones of the first two that exist.\<close>

definition clear_outputs :: "nat \<Rightarrow> bool list \<Rightarrow> real list option list" where
  "clear_outputs numSamples outputs = map (\<lambda>present. if present then Some (replicate numSamples 0) else None) outputs"

definition engineOutputChannels :: "bool list \<Rightarrow> nat" where
  "engineOutputChannels outputs = length (takeWhile id (take 2 outputs))"

definition publish :: "playout_quality \<Rightarrow> ('r, 'd, 'm) engine \<Rightarrow> ('r, 'd, 'm) engine" where
  "publish q e = e\<lparr>en_quality := q, en_published := q, en_completedAudioEpoch := en_completedAudioEpoch e + 1\<rparr>"

definition begin_chunk :: "'r ring_api \<Rightarrow> timepoint \<Rightarrow> nat \<Rightarrow> ('r, 'd, 'm) engine \<Rightarrow> playout_quality \<times> ('r, 'd, 'm) engine" where
  "begin_chunk A now numSamples e =
     (let q = (if en_resetQualityInfo e then new_playout_quality else en_quality e);
          e1 = e\<lparr>en_resetQualityInfo := False\<rparr>;
          e2 = (if en_resetPlayoutRequested e1
                then (resetPlayoutState A (e1\<lparr>en_resetPlayoutRequested := False\<rparr>))\<lparr>en_isPlaying := False\<rparr> else e1)
      in (measureSamplesPerTime now numSamples q, e2))"

definition report_mismatch :: "real list option list \<Rightarrow> ('r, 'd, 'm) engine \<Rightarrow> ('r, 'd, 'm) engine" where
  "report_mismatch inputs e =
     (if inputs \<noteq> [] \<and> \<not> inputStateMatchesDevice inputs e then e\<lparr>en_mismatchReported := True\<rparr> else e)"

text \<open>Playing a chunk: the mixed rows, and the state after an underrun or a read.\<close>

definition play_chunk ::
  "'r ring_api \<Rightarrow> (real \<Rightarrow> real \<Rightarrow> real \<Rightarrow> real) \<Rightarrow> chunk_env \<Rightarrow> nat \<Rightarrow> real list list \<Rightarrow> playout_quality
    \<Rightarrow> ('r, 'd, 'm) engine \<Rightarrow> real list list \<times> playout_quality \<times> ('r, 'd, 'm) engine" where
  "play_chunk A mac env numSamples output q e =
     (let (frames, ring, t, latency) = fetch_frames A (ce_millis env) (en_expectedRemoteGeneration e) numSamples
            (rw_output (en_receive e)) (en_playoutBuffer e) (en_timing e) (pq_toPlayLatency q);
          e1 = e\<lparr>en_receive := (en_receive e)\<lparr>rw_output := frames\<rparr>, en_playoutBuffer := ring, en_timing := t\<rparr>;
          q1 = q\<lparr>pq_toPlayLatency := latency, pq_currentPlayQueueLength := word_of_nat (readyFrames (en_receive e1)),
                 pq_discardedPackageCounter := discardedFrames (en_receive e1)\<rparr>;
          e2 = (if \<not> en_isPlaying e1 \<and> numSamples \<le> rb_numReady A ring then e1\<lparr>en_isPlaying := True\<rparr> else e1)
      in if \<not> en_isPlaying e2 then (output, q1, e2)
         else if rb_numReady A ring < numSamples
         then (output, q1\<lparr>pq_playUnderruns := pq_playUnderruns q1 + 1\<rparr>,
               (let e3 = resetPlayoutState A (e2\<lparr>en_isPlaying := False\<rparr>)
                in e3\<lparr>en_receive := requestRebuffer (en_receive e3)\<rparr>))
         else (let (t', sender) = scheduleMidiForPlayout (ce_playoutTime env) numSamples (en_timing e2) (en_midiSender e2);
                   (scratch, ring') = rb_read A ring 2 numSamples;
                   volume = snd (calcMonitorGain (en_monitorBalance e2)) * en_masterVolume e2;
                   mixed = foldl (\<lambda>out c. add_row mac c (scratch ! c) volume out) output [0..<min 2 (length output)]
               in (mixed, q1, e2\<lparr>en_timing := t', en_midiSender := sender, en_playoutBuffer := ring'\<rparr>)))"

text \<open>The meters and the tap see two channels, of which missing ones are silent.\<close>

definition meter_rows :: "nat \<Rightarrow> real list list \<Rightarrow> real list list" where
  "meter_rows numSamples output = take 2 (output @ replicate 2 (replicate numSamples 0))"

definition processChunk ::
  "'r ring_api \<Rightarrow> 'm meter_api \<Rightarrow> (real \<Rightarrow> real \<Rightarrow> real \<Rightarrow> real) \<Rightarrow> chunk_env \<Rightarrow> real list option list \<Rightarrow> bool list \<Rightarrow> nat
    \<Rightarrow> ('r, 'd, 'm) engine \<Rightarrow> (real list option list \<times> tap_event list) \<times> ('r, 'd, 'm) engine" where
  "processChunk A L mac env inputs outputs numSamples e =
     (let (q, e1) = begin_chunk A (ce_measureTime env) numSamples e;
          e2 = capture A inputs numSamples (report_mismatch inputs e1);
          channels = engineOutputChannels outputs;
          monitored = calcLocalMonitoring mac inputs (en_setup e2) e2 (replicate channels (replicate numSamples 0));
          (mixed, q', e3) = play_chunk A mac env numSamples monitored q e2;
          e4 = e3\<lparr>en_outMeter := ma_measure L (en_outMeter e3)
                    \<lparr>buf_numSamples = numSamples, buf_channels = meter_rows numSamples mixed\<rparr>\<rparr>;
          e5 = record_block Recording_Master (map Some mixed) numSamples e4
      in ((map Some mixed @ drop channels (clear_outputs numSamples outputs),
           if en_hasTap e then [Tap_Enqueue (meter_rows numSamples mixed)] else []),
          publish q' e5))"

section \<open>The block of the device\<close>

text \<open>Chunks of at most 8192 samples from \<open>offset\<close> on; rows are cut, the outputs are put together.\<close>

function process_chunks ::
  "'r ring_api \<Rightarrow> 'm meter_api \<Rightarrow> (real \<Rightarrow> real \<Rightarrow> real \<Rightarrow> real) \<Rightarrow> (nat \<Rightarrow> chunk_env) \<Rightarrow> real list option list \<Rightarrow> bool list \<Rightarrow> nat \<Rightarrow> nat
    \<Rightarrow> ('r, 'd, 'm) engine \<Rightarrow> (real list option list \<times> tap_event list) \<times> ('r, 'd, 'm) engine" where
  "process_chunks A L mac env inputs outputs numSamples offset e =
     (if \<not> offset < numSamples then ((map (\<lambda>present. if present then Some [] else None) outputs, []), e)
      else (let n = min JAMMERNETZ_MAX_CALLBACK_SAMPLES (numSamples - offset);
                chunk = map (map_option (\<lambda>row. take n (drop offset row))) inputs;
                ((rows, taps), e1) = processChunk A L mac (env offset) chunk outputs n e;
                ((rows', taps'), e2) = process_chunks A L mac env inputs outputs numSamples
                   (offset + JAMMERNETZ_MAX_CALLBACK_SAMPLES) e1
            in ((map2 (\<lambda>r s. case (r, s) of (Some x, Some y) \<Rightarrow> Some (x @ y) | _ \<Rightarrow> None) rows rows', taps @ taps'), e2)))"
  by auto
termination
  by (relation "measure (\<lambda>(A, L, mac, env, inputs, outputs, numSamples, offset, e). numSamples - offset)")
    (auto simp: JAMMERNETZ_MAX_CALLBACK_SAMPLES_def)

declare process_chunks.simps [simp del]

text \<open>
  \<open>process\<close>: \<open>None\<close> means that the output is left untouched. The input array may be null; the number of
  channels then counts null pointers. Times are in nanoseconds; the deadline is the length of the block.
\<close>

definition process ::
  "'r ring_api \<Rightarrow> 'm meter_api \<Rightarrow> (real \<Rightarrow> real \<Rightarrow> real \<Rightarrow> real) \<Rightarrow> (nat \<Rightarrow> chunk_env) \<Rightarrow> timepoint \<Rightarrow> timepoint
    \<Rightarrow> real list option list \<Rightarrow> bool list option \<Rightarrow> int \<Rightarrow> ('r, 'd, 'm) engine
    \<Rightarrow> (real list option list option \<times> tap_event list) \<times> ('r, 'd, 'm) engine" where
  "process A L mac env callbackStart callbackEnd inputs outputs numSamples e =
     (case outputs of
        None \<Rightarrow> ((None, []), e)
      | Some out \<Rightarrow>
          if out = [] \<or> numSamples \<le> 0 then ((None, []), e)
          else if en_shutdownRequested e
               \<or> JAMMERNETZ_MAX_AUDIO_CHANNELS < length inputs \<or> JAMMERNETZ_MAX_AUDIO_CHANNELS < length out
          then ((Some (clear_outputs (nat numSamples) out), []), e)
          else (let ((rows, taps), e1) = process_chunks A L mac env inputs out (nat numSamples) 0 e;
                    elapsed = word_of_int (callbackEnd - callbackStart);
                    deadline = (if 0 < en_preparedSampleRate e1
                                then word_of_int \<lfloor>1000000000 * real_of_int numSamples / en_preparedSampleRate e1\<rfloor> else 0)
                in ((Some rows, taps),
                    e1\<lparr>en_callbackCount := en_callbackCount e1 + 1,
                       en_maximumCallbackNanoseconds := max (en_maximumCallbackNanoseconds e1) elapsed,
                       en_callbackDeadlineMisses := en_callbackDeadlineMisses e1
                         + (if 0 < deadline \<and> deadline < elapsed then 1 else 0)\<rparr>)))"

end
