(* ===== verification/Engine_Clock_Props.thy ===== *)
theory Engine_Clock_Props
  imports Engine_Callback
begin

text \<open>
  The MIDI clock of the engine: 24 pulses a quarter note on the sample grid of the server. The code
  guards its \<open>double\<close> arithmetic with two tolerances; for every tempo a \<open>float\<close> can represent from 2 to
  1000 beats per minute they neither lose nor repeat a pulse.
\<close>

section \<open>Pulses on the sample grid\<close>

text \<open>The tempi: a \<open>float\<close> has 24 significant bits, so from 2 on at most 22 of them are behind the point.\<close>

definition float_tempo :: "nat \<Rightarrow> nat \<Rightarrow> real \<Rightarrow> bool" where
  "float_tempo p j b \<longleftrightarrow> 0 < p \<and> p < 2 ^ 24 \<and> j \<le> 22 \<and> b = real p / 2 ^ j \<and> b \<le> 1000"

lemma float_tempo_spp:
  assumes "float_tempo p j b"
  shows "samplesPerPulse b = 120000 * 2 ^ j / real p" and "120 \<le> samplesPerPulse b"
proof -
  show eq: "samplesPerPulse b = 120000 * 2 ^ j / real p"
  proof -
    have "b = real p / 2 ^ j" and "0 < real p" using assms by (simp_all add: float_tempo_def)
    then show ?thesis by (simp add: samplesPerPulse_def SAMPLE_RATE_def)
  qed
  have "real p / 2 ^ j \<le> 1000" using assms by (simp add: float_tempo_def)
  then have "real p \<le> 1000 * 2 ^ j" by (simp add: field_simps)
  then show "120 \<le> samplesPerPulse b"
    using assms by (simp add: eq float_tempo_def field_simps)
qed

lemma pulse_gap:
  assumes f: "float_tempo p j b" and less: "real k * samplesPerPulse b < real s"
  shows "real k * samplesPerPulse b + 1 / real p \<le> real s"
proof -
  have p: "0 < real p" using f by (simp add: float_tempo_def)
  have "real (k * 120000 * 2 ^ j) < real (s * p)"
    using less p by (simp add: float_tempo_spp(1) [OF f] field_simps)
  then have "k * 120000 * 2 ^ j + 1 \<le> s * p" by (simp only: of_nat_less_iff)
  then have "real (k * 120000 * 2 ^ j + 1) \<le> real (s * p)" by (simp only: of_nat_le_iff)
  then show ?thesis using p by (simp add: float_tempo_spp(1) [OF f] field_simps)
qed

lemma end_tolerance:
  assumes f: "float_tempo p j b"
  shows "real s - 1 / 1000000000 \<le> real k * samplesPerPulse b \<longleftrightarrow> real s \<le> real k * samplesPerPulse b"
proof -
  have p: "0 < real p" "real p < 2 ^ 24" using f by (simp_all add: float_tempo_def)
  then have "1 / 1000000000 < 1 / real p" by (simp add: field_simps)
  then show ?thesis using pulse_gap [OF f, of k s] by argo
qed

text \<open>The first pulse at or after a sample; the tolerance does not change it.\<close>

definition first_pulse :: "real \<Rightarrow> nat \<Rightarrow> nat" where
  "first_pulse b s = nat \<lceil>real s / samplesPerPulse b\<rceil>"

lemma first_pulse_le_iff:
  assumes "float_tempo p j b"
  shows "first_pulse b s \<le> k \<longleftrightarrow> real s \<le> real k * samplesPerPulse b"
  using float_tempo_spp(2) [OF assms]
  by (simp add: first_pulse_def nat_ceiling_le_eq pos_divide_le_eq)

lemma start_tolerance:
  assumes f: "float_tempo p j b"
  shows "nat \<lceil>real s / samplesPerPulse b - 1 / 1000000000000\<rceil> = first_pulse b s"
proof -
  have p: "0 < real p" using f by (simp add: float_tempo_def)
  have spp: "0 < samplesPerPulse b" using float_tempo_spp(2) [OF f] by simp
  have "(2 :: real) ^ j \<le> 2 ^ 22" using f by (intro power_increasing) (simp_all add: float_tempo_def)
  then have tol: "samplesPerPulse b / 1000000000000 < 1 / real p"
    using p by (simp add: float_tempo_spp(1) [OF f] field_simps)
  have "nat \<lceil>real s / samplesPerPulse b - 1 / 1000000000000\<rceil> \<le> k \<longleftrightarrow> first_pulse b s \<le> k" for k
  proof -
    have "nat \<lceil>real s / samplesPerPulse b - 1 / 1000000000000\<rceil> \<le> k
        \<longleftrightarrow> real s - samplesPerPulse b / 1000000000000 \<le> real k * samplesPerPulse b"
      using spp by (simp add: nat_ceiling_le_eq field_simps)
    also have "\<dots> \<longleftrightarrow> real s \<le> real k * samplesPerPulse b"
      using pulse_gap [OF f, of k s] tol spp by (smt (verit) divide_pos_pos)
    also have "\<dots> \<longleftrightarrow> first_pulse b s \<le> k" by (simp add: first_pulse_le_iff [OF f])
    finally show ?thesis .
  qed
  then show ?thesis by (metis order_antisym order_refl)
qed

lemma first_pulse_mono: "float_tempo p j b \<Longrightarrow> s \<le> t \<Longrightarrow> first_pulse b s \<le> first_pulse b t"
  by (metis first_pulse_le_iff of_nat_mono order_refl order_trans)

lemma pulses_of_frame:
  assumes "float_tempo p j b"
  shows "first_pulse b (s + 128) \<le> first_pulse b s + 2"
proof -
  have "real s \<le> real (first_pulse b s) * samplesPerPulse b"
    using first_pulse_le_iff [OF assms, of s "first_pulse b s"] by simp
  then have "real (s + 128) \<le> real (first_pulse b s + 2) * samplesPerPulse b"
    using float_tempo_spp(2) [OF assms] by (simp add: algebra_simps)
  then show ?thesis by (simp add: first_pulse_le_iff [OF assms])
qed

section \<open>What a frame schedules\<close>

definition pulse_item :: "timepoint \<Rightarrow> real \<Rightarrow> real \<Rightarrow> nat \<Rightarrow> midi_item" where
  "pulse_item start b origin k =
     \<lparr>mi_whenToSend = atSampleOffset start (real k * samplesPerPulse b - origin), mi_bpm = FFin b,
      mi_signal = MidiSignal_None, mi_sendClock = True\<rparr>"

lemma schedule_pulses_result:
  assumes f: "float_tempo p j b" and "first_pulse b s \<le> k" and "first_pulse b (s + 128) \<le> k + n"
    and "length (mt_messages m) + (first_pulse b (s + 128) - k) \<le> midiQueueCapacity"
  shows "schedule_pulses start b offset (real s) (real (s + 128)) n k m =
    m\<lparr>mt_messages := mt_messages m @ map (pulse_item start b (real s - real_of_int (uint offset))) [k..<first_pulse b (s + 128)]\<rparr>"
  using assms(2-)
proof (induction n arbitrary: k m)
  case 0
  then show ?case by simp
next
  case (Suc n)
  show ?case
  proof (cases "first_pulse b (s + 128) \<le> k")
    case True
    then have "real (s + 128) - 1 / 1000000000 \<le> real k * samplesPerPulse b"
      using end_tolerance [OF f, of "s + 128" k] first_pulse_le_iff [OF f] by simp
    with True show ?thesis by (simp add: Let_def)
  next
    case False
    then have go: "\<not> real (s + 128) - 1 / 1000000000 \<le> real k * samplesPerPulse b"
      using end_tolerance [OF f, of "s + 128" k] first_pulse_le_iff [OF f] by simp
    have "real s \<le> real k * samplesPerPulse b" using Suc.prems(1) first_pulse_le_iff [OF f] by simp
    moreover have "0 \<le> real_of_int (uint offset)" by (rule of_int_nonneg) simp
    ultimately have pos: "max 0 (real_of_int (uint offset) + real k * samplesPerPulse b - real s)
        = real k * samplesPerPulse b - (real s - real_of_int (uint offset))" by argo
    let ?m = "m\<lparr>mt_messages := mt_messages m @ [pulse_item start b (real s - real_of_int (uint offset)) k]\<rparr>"
    have room: "length (mt_messages m) < midiQueueCapacity" using Suc.prems(3) False by simp
    have one: "snd (enqueueAt (atSampleOffset start (max 0 (real_of_int (uint offset) + real k * samplesPerPulse b - real s)))
        (FFin b) MidiSignal_None True m) = ?m"
      unfolding pos using room by (simp add: enqueueAt_def queue_write_def pulse_item_def)
    have "schedule_pulses start b offset (real s) (real (s + 128)) (Suc n) k m
        = schedule_pulses start b offset (real s) (real (s + 128)) n (k + 1) ?m"
      using go one by (simp add: Let_def)
    also have "\<dots> = ?m\<lparr>mt_messages := mt_messages ?m
        @ map (pulse_item start b (real s - real_of_int (uint offset))) [k + 1..<first_pulse b (s + 128)]\<rparr>"
      using Suc.prems False by (intro Suc.IH) auto
    finally show ?thesis using False by (simp add: upt_conv_Cons)
  qed
qed

lemma frame_schedules_pulses:
  assumes f: "float_tempo p j b" and s: "s + 128 < 2 ^ 64"
    and "length (mt_messages m) + (first_pulse b (s + 128) - first_pulse b s) \<le> midiQueueCapacity"
  shows "scheduleMidiFrame (word_of_nat (s + 128)) (FFin b) MidiSignal_None offset start m =
    m\<lparr>mt_messages := mt_messages m @ map (pulse_item start b (real s - real_of_int (uint offset)))
      [first_pulse b s..<first_pulse b (s + 128)]\<rparr>"
proof -
  have u: "uint (word_of_nat (s + 128) :: u64) = int (s + 128)" using s by (simp add: unsigned_of_nat take_bit_nat_eq_self del: of_nat_add)
  then have big: "\<not> (word_of_nat (s + 128) :: u64) < 128" by (simp add: word_less_def)
  have d: "uint (word_of_nat (s + 128) - 128 :: u64) = int s"
    using s by (simp add: unsigned_of_nat take_bit_nat_eq_self)
  have b: "0 < b" "b \<le> 1000" using f by (simp_all add: float_tempo_def)
  have starts: "nat \<lceil>real s / samplesPerPulse b - 1 / 1000000000000\<rceil> = first_pulse b s"
    by (rule start_tolerance [OF f])
  have "schedule_pulses start b offset (real s) (real (s + 128)) 8 (first_pulse b s) m =
      m\<lparr>mt_messages := mt_messages m @ map (pulse_item start b (real s - real_of_int (uint offset)))
        [first_pulse b s..<first_pulse b (s + 128)]\<rparr>"
    using pulses_of_frame [OF f, of s] assms(3) by (intro schedule_pulses_result [OF f]) auto
  moreover have "real_of_int (uint (word_of_nat (s + 128) :: u64)) = real (s + 128)" by (simp only: u of_int_of_nat_eq)
  ultimately show ?thesis
    using b big d starts
    by (simp add: scheduleMidiFrame_def Let_def SAMPLE_BUFFER_SIZE_def maximumPulsesPerFrame_def del: of_nat_add)
qed

text \<open>The frames of a stretch of audio that starts at sample \<open>s\<close> of the server and is played from \<open>start\<close> on.\<close>

definition schedule_stretch :: "real \<Rightarrow> nat \<Rightarrow> timepoint \<Rightarrow> nat \<Rightarrow> midi_thread \<Rightarrow> midi_thread" where
  "schedule_stretch b s start n m =
     foldl (\<lambda>m i. scheduleMidiFrame (word_of_nat (s + 128 * i + 128)) (FFin b) MidiSignal_None (word_of_nat (128 * i)) start m)
       m [0..<n]"



end
