(* ===== verification/Engine_Stream_Props.thy ===== *)
theory Engine_Stream_Props
  imports Engine_Callback Server_Mixer_Props Audio_Receive_Props
begin

text \<open>
  The two audio paths of the callback as streams of sample frames. Capture: what the device delivers goes
  out in blocks of 128 samples, none lost or reordered while there is room. Playout: the remote
  frames, laid end to end, are the stream the callback plays from.
\<close>

section \<open>Capture\<close>

text \<open>The \<open>n\<close> first blocks of the samples \<open>S\<close> of \<open>c\<close> channels, with the tempo and the signals that wait.\<close>

definition block_rows :: "nat \<Rightarrow> real list list \<Rightarrow> nat \<Rightarrow> real list list" where
  "block_rows c S i = rows_of c (take 128 (drop (128 * i) S))"

definition captured_frames :: "nat \<Rightarrow> real list list \<Rightarrow> fl \<Rightarrow> u8 list \<Rightarrow> nat \<Rightarrow> transmit_frame list" where
  "captured_frames c S bpm signals n =
     map (\<lambda>i. \<lparr>tf_samples = block_rows c S i, tf_bpm = (if i = 0 then fst (mailbox_takeLatest bpm) else None),
               tf_midiSignal = (if i < length signals then Some (signals ! i) else None)\<rparr>) [0..<n]"

lemma captured_frames_0 [simp]: "captured_frames c S bpm signals 0 = []"
  by (simp add: captured_frames_def)

lemma mailbox_empty [simp]: "mailbox_takeLatest FNaN = (None, FNaN)"
  by (simp add: mailbox_takeLatest_def)

lemma captured_frames_Suc:
  "captured_frames c S bpm signals (Suc n) =
     \<lparr>tf_samples = rows_of c (take 128 S), tf_bpm = fst (mailbox_takeLatest bpm),
      tf_midiSignal = (case signals of [] \<Rightarrow> None | x # _ \<Rightarrow> Some x)\<rparr>
     # captured_frames c (drop 128 S) FNaN (tl signals) n"
proof -
  have "[0..<Suc n] = 0 # map Suc [0..<n]" by (simp add: upt_conv_Cons map_Suc_upt)
  then show ?thesis
    by (cases signals) (auto simp: captured_frames_def block_rows_def add.commute nth_Cons split: nat.splits)
qed

lemma take_signal [simp]:
  "takeMidiSignalToSend e = (case en_midiSignals e of [] \<Rightarrow> None | x # _ \<Rightarrow> Some x, e\<lparr>en_midiSignals := tl (en_midiSignals e)\<rparr>)"
  by (cases "en_midiSignals e") (simp_all add: takeMidiSignalToSend_def)

lemma mailbox_empties [simp]: "snd (mailbox_takeLatest v) = FNaN"
  by (simp add: mailbox_takeLatest_def)

text \<open>With room in the queue for \<open>room\<close> blocks, the first ones are queued and the others dropped.\<close>

lemma capture_blocks_result:
  assumes laws: "ring_laws A held width room" and c: "0 < c" "c \<le> JAMMERNETZ_MAX_AUDIO_CHANNELS"
    and "width ring = c" and "length (held ring) div 128 \<le> fuel"
    and "free = transmitQueueCapacity - length (tw_queue (en_transmit e))"
    and "length (tw_queue (en_transmit e)) \<le> transmitQueueCapacity"
    and "n = length (held ring) div 128"
  shows "\<exists>ring' e'. capture_blocks A c fuel ring e = (ring', e')
    \<and> held ring' = drop (128 * n) (held ring) \<and> width ring' = c \<and> room ring' = room ring
    \<and> tw_queue (en_transmit e') = tw_queue (en_transmit e)
        @ captured_frames c (held ring) (en_clientBpm e) (en_midiSignals e) (min n free)
    \<and> tw_channelSetup (en_transmit e') = tw_channelSetup (en_transmit e)
    \<and> tw_sent (en_transmit e') = tw_sent (en_transmit e)
    \<and> tw_dropped (en_transmit e') = tw_dropped (en_transmit e) + word_of_nat (n - free)
    \<and> en_midiSignals e' = drop (min n free) (en_midiSignals e)"
  using assms(4-)
proof (induction fuel arbitrary: ring e free n)
  case 0
  then show ?case by simp
next
  case (Suc fuel)
  note st = ring_state [OF laws]
  show ?case
  proof (cases "length (held ring) < 128")
    case True
    with Suc.prems show ?thesis by (simp add: st SAMPLE_BUFFER_SIZE_def)
  next
    case False
    then have "n \<noteq> 0" using Suc.prems(5) by (simp add: div_eq_0_iff)
    then obtain k where n: "n = Suc k" by (metis not0_implies_Suc)
    have k: "k = (length (held ring) - 128) div 128"
      using Suc.prems(5) n False by (simp add: le_div_geq)
    have take: "128 \<le> length (held ring)" using False by simp
    note rd = ring_read [OF laws take Suc.prems(1) [symmetric]] and dc = ring_discard [OF laws take]
    show ?thesis
    proof (cases "hasCapacity (en_transmit e)")
      case True
      then have "free \<noteq> 0" using Suc.prems(3) by (simp add: hasCapacity_def)
      then obtain f where free: "free = Suc f" by (metis not0_implies_Suc)
      have f: "f = transmitQueueCapacity - Suc (length (tw_queue (en_transmit e)))" using Suc.prems(3) free by simp
      let ?ring = "snd (rb_read A ring c 128)"
      let ?frame = "\<lparr>tf_samples = rows_of c (take 128 (held ring)), tf_bpm = fst (mailbox_takeLatest (en_clientBpm e)),
          tf_midiSignal = (case en_midiSignals e of [] \<Rightarrow> None | x # _ \<Rightarrow> Some x)\<rparr>"
      let ?e = "e\<lparr>en_clientBpm := FNaN, en_midiSignals := tl (en_midiSignals e),
          en_transmit := (en_transmit e)\<lparr>tw_queue := tw_queue (en_transmit e) @ [?frame],
            tw_enqueued := tw_enqueued (en_transmit e) + 1\<rparr>\<rparr>"
      have step: "capture_blocks A c (Suc fuel) ring e = capture_blocks A c fuel ?ring ?e"
        using True False c rd(1)
        by (simp add: st SAMPLE_BUFFER_SIZE_def enqueueFrom_def hasCapacity_def queue_write_def split_beta Let_def)
      have "\<exists>ring' e'. capture_blocks A c fuel ?ring ?e = (ring', e')
        \<and> held ring' = drop (128 * k) (held ?ring) \<and> width ring' = c \<and> room ring' = room ?ring
        \<and> tw_queue (en_transmit e') = tw_queue (en_transmit ?e)
            @ captured_frames c (held ?ring) (en_clientBpm ?e) (en_midiSignals ?e) (min k f)
        \<and> tw_channelSetup (en_transmit e') = tw_channelSetup (en_transmit ?e)
        \<and> tw_sent (en_transmit e') = tw_sent (en_transmit ?e)
        \<and> tw_dropped (en_transmit e') = tw_dropped (en_transmit ?e) + word_of_nat (k - f)
        \<and> en_midiSignals e' = drop (min k f) (en_midiSignals ?e)"
        using Suc.prems True f k n rd by (intro Suc.IH) (auto simp: hasCapacity_def)
      then show ?thesis
        using rd n free by (auto simp: step captured_frames_Suc drop_Suc add.commute [of 128] simp del: capture_blocks.simps)
    next
      case full: False
      then have free: "free = 0" using Suc.prems(3) by (simp add: hasCapacity_def)
      let ?ring = "rb_discard A ring 128" and ?e = "e\<lparr>en_transmit := recordDroppedFrame (en_transmit e)\<rparr>"
      have step: "capture_blocks A c (Suc fuel) ring e = capture_blocks A c fuel ?ring ?e"
        using full False by (simp add: st SAMPLE_BUFFER_SIZE_def)
      have "\<exists>ring' e'. capture_blocks A c fuel ?ring ?e = (ring', e')
        \<and> held ring' = drop (128 * k) (held ?ring) \<and> width ring' = c \<and> room ring' = room ?ring
        \<and> tw_queue (en_transmit e') = tw_queue (en_transmit ?e)
            @ captured_frames c (held ?ring) (en_clientBpm ?e) (en_midiSignals ?e) (min k 0)
        \<and> tw_channelSetup (en_transmit e') = tw_channelSetup (en_transmit ?e)
        \<and> tw_sent (en_transmit e') = tw_sent (en_transmit ?e)
        \<and> tw_dropped (en_transmit e') = tw_dropped (en_transmit ?e) + word_of_nat (k - 0)
        \<and> en_midiSignals e' = drop (min k 0) (en_midiSignals ?e)"
        using Suc.prems full free k n dc by (intro Suc.IH) (auto simp: hasCapacity_def recordDroppedFrame_def)
      then show ?thesis
        using dc n free by (auto simp: step recordDroppedFrame_def add.commute [of 128] simp del: capture_blocks.simps)
    qed
  qed
qed

text \<open>
  A packet sink that accepts everything and keeps a log, and the worker run on it for every waiting block.
\<close>

definition log_sink :: "(audio_buffer \<times> control_data) list packet_sink" where
  "log_sink setup audio controls s = (True, s @ [(audio, controls)])"

fun transmit_passes ::
  "'d pitch_api \<Rightarrow> 'm meter_api \<Rightarrow> 's packet_sink \<Rightarrow> nat \<Rightarrow> 's \<Rightarrow> ('d, 'm) transmit_worker \<Rightarrow> 's \<times> ('d, 'm) transmit_worker" where
  "transmit_passes P L sink 0 s w = (s, w)"
| "transmit_passes P L sink (Suc n) s w =
     (let (more_left, s', w') = transmit_processNextFrame P L (Some sink) s w in transmit_passes P L sink n s' w')"

definition sent_block :: "transmit_frame \<Rightarrow> audio_buffer \<times> control_data" where
  "sent_block f = (\<lparr>buf_numSamples = SAMPLE_BUFFER_SIZE, buf_channels = tf_samples f\<rparr>,
     \<lparr>ct_bpm = tf_bpm f, ct_midiSignal = tf_midiSignal f\<rparr>)"

lemma transmit_passes_log:
  assumes "\<forall>f\<in>set (tw_queue w). tf_channels f = length (cs_channels (tw_channelSetup w))"
  shows "\<exists>w'. transmit_passes P L log_sink (length (tw_queue w)) s w = (s @ map sent_block (tw_queue w), w')
    \<and> tw_queue w' = [] \<and> tw_sent w' = tw_sent w + word_of_nat (length (tw_queue w)) \<and> tw_dropped w' = tw_dropped w"
  using assms
proof (induction "tw_queue w" arbitrary: w s)
  case Nil
  then show ?case by simp
next
  case (Cons f q)
  let ?audio = "\<lparr>buf_numSamples = SAMPLE_BUFFER_SIZE, buf_channels = tf_samples f\<rparr>"
  let ?w = "w\<lparr>tw_queue := q, tw_tuner := detectPitch P ?audio (tw_tuner w), tw_meter := ma_measure L (tw_meter w) ?audio,
      tw_sent := tw_sent w + 1\<rparr>"
  have "transmit_processNextFrame P L (Some log_sink) s w = (True, s @ [sent_block f], ?w)"
    using Cons.prems Cons.hyps(2) [symmetric]
    by (simp add: transmit_processNextFrame_def transmit_processFrame_def log_sink_def sent_block_def Let_def split_beta)
  moreover have "\<exists>w'. transmit_passes P L log_sink (length (tw_queue ?w)) (s @ [sent_block f]) ?w
      = ((s @ [sent_block f]) @ map sent_block (tw_queue ?w), w')
    \<and> tw_queue w' = [] \<and> tw_sent w' = tw_sent ?w + word_of_nat (length (tw_queue ?w)) \<and> tw_dropped w' = tw_dropped ?w"
    using Cons.prems Cons.hyps(2) [symmetric] by (intro Cons.hyps(1)) auto
  ultimately show ?case
    using Cons.hyps(2) [symmetric] by (auto simp: add.assoc)
qed

text \<open>
  C27: What is captured is sent, in order and complete. When the device delivers \<open>n\<close> samples on the configured
  channels and the ring has room for them, all complete blocks of 128 samples of what waits in the ring
  and the new samples are queued, as long as the queue of 64 has room, and the worker hands exactly
  these blocks to the packet sink, in order; the first carries the tempo the user has set since, and each the next
  waiting transport signal. Fewer than 128 samples stay in the ring; blocks beyond the room of the queue are
  dropped and counted.
\<close>

theorem captured_audio_is_sent_in_order:
  assumes laws: "ring_laws A held width room"
    and e: "en_ingestBuffer e = Some ring" "length (cs_channels (en_setup e)) = length rows"
      "tw_queue (en_transmit e) = []" "length (cs_channels (tw_channelSetup (en_transmit e))) = length rows"
    and rows: "0 < length rows" "length rows \<le> JAMMERNETZ_MAX_AUDIO_CHANNELS"
    and ring: "width ring = length rows" "length (held ring) + n \<le> room ring"
    and S: "S = held ring @ frames_of n rows" and sent: "sent = min (length S div 128) 64"
  shows "\<exists>ring' w'. en_ingestBuffer (capture A (map Some rows) n e) = Some ring'
    \<and> held ring' = drop (128 * (length S div 128)) S \<and> length (held ring') < 128
    \<and> transmit_passes P L log_sink sent [] (en_transmit (capture A (map Some rows) n e))
        = (map sent_block (captured_frames (length rows) S (en_clientBpm e) (en_midiSignals e) sent), w')
    \<and> tw_queue w' = [] \<and> tw_sent w' = tw_sent (en_transmit e) + word_of_nat sent
    \<and> tw_dropped w' = tw_dropped (en_transmit e) + word_of_nat (length S div 128 - 64)"
proof -
  let ?e1 = "record_block Recording_Local (map Some rows) n e"
  let ?ring1 = "rb_write A ring rows n"
  have e1: "en_ingestBuffer ?e1 = Some ring" "en_transmit ?e1 = en_transmit e" "en_clientBpm ?e1 = en_clientBpm e"
    "en_midiSignals ?e1 = en_midiSignals e"
    by (simp_all add: record_block_def e)
  note w = ring_write [OF laws ring(2) ring(1) [symmetric]] and st = ring_state [OF laws]
  have held: "held ?ring1 = S" by (simp add: w S)
  have q1: "tw_queue (en_transmit ?e1) = []" by (simp add: e1 e(3))
  have free: "(64 :: nat) = transmitQueueCapacity - length (tw_queue (en_transmit ?e1))"
    "length (tw_queue (en_transmit ?e1)) \<le> transmitQueueCapacity"
    unfolding q1 by (simp_all add: transmitQueueCapacity_def)
  have w1: "width ?ring1 = length rows" using w(2) ring(1) by simp
  have fuel: "length (held ?ring1) div 128 \<le> length S div 128 + 1" by (simp add: held)
  from capture_blocks_result [OF laws rows w1 fuel free refl]
  obtain ring' e' where cap: "capture_blocks A (length rows) (length S div 128 + 1) ?ring1 ?e1 = (ring', e')"
      "held ring' = drop (128 * (length S div 128)) S"
      "tw_queue (en_transmit e') = captured_frames (length rows) S (en_clientBpm e) (en_midiSignals e) sent"
      "tw_channelSetup (en_transmit e') = tw_channelSetup (en_transmit e)"
      "tw_sent (en_transmit e') = tw_sent (en_transmit e)"
      "tw_dropped (en_transmit e') = tw_dropped (en_transmit e) + word_of_nat (length S div 128 - 64)"
    unfolding held e1 e(3) append_Nil sent by blast
  have fits: "n \<le> rb_freeSpace A ring" using ring(2) by (simp add: st)
  have all: "list_all (\<lambda>i. i \<noteq> None) (map Some rows)" by (simp add: list_all_iff)
  have matches: "inputStateMatchesDevice (map Some rows) e" using e by (simp add: inputStateMatchesDevice_def)
  have capture: "capture A (map Some rows) n e = e'\<lparr>en_ingestBuffer := Some ring'\<rparr>"
    using rows all matches fits cap(1)
    by (simp add: capture_def e1 st(1) held SAMPLE_BUFFER_SIZE_def comp_def del: capture_blocks.simps)
  let ?w = "en_transmit e'"
  have "\<forall>f\<in>set (tw_queue ?w). tf_channels f = length (cs_channels (tw_channelSetup ?w))"
    by (auto simp: cap e captured_frames_def tf_channels_def block_rows_def)
  from transmit_passes_log [OF this, of P L "[]"] obtain w' where
    "transmit_passes P L log_sink sent [] ?w = (map sent_block (captured_frames (length rows) S (en_clientBpm e) (en_midiSignals e) sent), w')"
    "tw_queue w' = []" "tw_sent w' = tw_sent (en_transmit e) + word_of_nat sent" "tw_dropped w' = tw_dropped ?w"
    by (auto simp: cap captured_frames_def)
  then show ?thesis
    using cap by (auto simp: capture minus_mult_div_eq_mod [symmetric] simp flip: minus_mult_div_eq_mod)
qed

definition capturing_engine :: "(list_ring, unit, unit) engine" where
  "capturing_engine = (engine_new list_ring_api () ())\<lparr>en_setup := channel_setup_of False [default_channel],
     en_ingestBuffer := Some \<lparr>lr_width = 1, lr_room = 1000, lr_held = replicate 100 [1]\<rparr>,
     en_clientBpm := FFin 90,
     en_transmit := (transmit_new ())\<lparr>tw_channelSetup := channel_setup_of False [default_channel]\<rparr>\<rparr>"

lemma capturing_engine_fields:
  "en_ingestBuffer capturing_engine = Some \<lparr>lr_width = 1, lr_room = 1000, lr_held = replicate 100 [1]\<rparr>"
  "length (cs_channels (en_setup capturing_engine)) = 1" "tw_queue (en_transmit capturing_engine) = []"
  "length (cs_channels (tw_channelSetup (en_transmit capturing_engine))) = 1"
  "en_clientBpm capturing_engine = FFin 90" "en_midiSignals capturing_engine = []"
  "tw_sent (en_transmit capturing_engine) = 0"
  by (simp_all add: capturing_engine_def engine_new_def transmit_new_def channel_setup_of_def)

definition flat_pitch :: "unit pitch_api" where
  "flat_pitch = \<lparr>pa_new = (), pa_feed = (\<lambda>d s. d), pa_predict = (\<lambda>d. 0)\<rparr>"

definition flat_meter :: "unit meter_api" where
  "flat_meter = \<lparr>ma_measure = (\<lambda>m a. m), ma_maxLevel = (\<lambda>m c. 0), ma_rmsLevel = (\<lambda>m c. 0)\<rparr>"

text \<open>With 100 samples waiting, 200 more make two blocks and leave 44.\<close>

theorem captured_audio_is_sent_in_order_witness:
  "\<exists>ring' w'. en_ingestBuffer (capture list_ring_api [Some (replicate 200 2)] 200 capturing_engine) = Some ring'
    \<and> length (lr_held ring') < 128
    \<and> transmit_passes flat_pitch flat_meter log_sink 2 []
        (en_transmit (capture list_ring_api [Some (replicate 200 2)] 200 capturing_engine))
      = (map sent_block (captured_frames 1 (replicate 100 [1] @ frames_of 200 [replicate 200 2]) (FFin 90) [] 2), w')
    \<and> tw_sent w' = 2"
proof -
  let ?ring = "\<lparr>lr_width = 1, lr_room = 1000, lr_held = replicate 100 [1]\<rparr>"
  let ?S = "lr_held ?ring @ frames_of 200 [replicate 200 2]"
  have "(2 :: nat) = min (length ?S div 128) 64" by simp
  from captured_audio_is_sent_in_order [OF list_ring_laws capturing_engine_fields(1) _ capturing_engine_fields(3) _ _ _ _ _ refl this,
      of flat_pitch flat_meter]
  show ?thesis
    by (auto simp: capturing_engine_fields JAMMERNETZ_MAX_AUDIO_CHANNELS_def)
qed

section \<open>Playout\<close>

text \<open>The remote audio ahead: what is in the ring, then the frames of the expected generation.\<close>

definition frames_audio :: "u64 \<Rightarrow> remote_frame list \<Rightarrow> real list list" where
  "frames_audio g fs = concat (map (\<lambda>f. frames_of 128 (rf_samples f)) (filter (\<lambda>f. rf_generation f = g) fs))"

definition remote_stream :: "('r \<Rightarrow> real list list) \<Rightarrow> ('r, 'd, 'm) engine \<Rightarrow> real list list" where
  "remote_stream held e = held (en_playoutBuffer e) @ frames_audio (en_expectedRemoteGeneration e) (rw_output (en_receive e))"

lemma frames_audio_simps [simp]:
  "frames_audio g [] = []"
  "frames_audio g (f # fs) = (if rf_generation f = g then frames_of 128 (rf_samples f) else []) @ frames_audio g fs"
  by (simp_all add: frames_audio_def)

lemma fetch_frames_result:
  assumes laws: "ring_laws A held width room"
    and "width ring = 2" and "n + 128 \<le> room ring" and "\<forall>f\<in>set fs. length (rf_samples f) = 2"
    and "fetch_frames A millis g n fs ring t latency = (fs', ring', t', latency')"
  shows "held ring' @ frames_audio g fs' = held ring @ frames_audio g fs \<and> width ring' = 2 \<and> room ring' = room ring
    \<and> (n \<le> length (held ring') \<or> fs' = []) \<and> set fs' \<subseteq> set fs"
  using assms(2-)
proof (induction fs arbitrary: ring t latency)
  case Nil
  then show ?case by simp
next
  case (Cons f fs)
  note st = ring_state [OF laws]
  consider "n \<le> length (held ring)" | "length (held ring) < n" "rf_generation f \<noteq> g"
    | "length (held ring) < n" "rf_generation f = g" by linarith
  then show ?case
  proof cases
    case 1
    then show ?thesis using Cons.prems by (auto simp: st)
  next
    case 2
    then have "fetch_frames A millis g n fs ring t latency = (fs', ring', t', latency')"
      using Cons.prems(4) by (simp add: st)
    from Cons.IH [OF Cons.prems(1,2) _ this] Cons.prems(3) 2 show ?thesis by auto
  next
    case 3
    let ?ring = "rb_write A ring (rf_samples f) 128"
    have "length (held ring) + 128 \<le> room ring" "length (rf_samples f) = width ring"
      using 3(1) Cons.prems by auto
    note w = ring_write [OF laws this]
    have "fetch_frames A millis g n fs ?ring (appendPlayoutTiming f t) (millis - rf_sourceTimestamp f) = (fs', ring', t', latency')"
      using Cons.prems(4) 3 by (simp add: st SAMPLE_BUFFER_SIZE_def)
    from Cons.IH [OF _ _ _ this] Cons.prems w 3 show ?thesis by auto
  qed
qed

lemma add_rows_sample:
  assumes "adds mac" and "\<forall>c < length out. length (out ! c) = n" and "\<forall>c < k. length (rows ! c) = n" and "k \<le> length out"
  shows "length (foldl (\<lambda>out c. add_row mac c (rows ! c) v out) out [0..<k]) = length out
    \<and> (\<forall>c < length out. length (foldl (\<lambda>out c. add_row mac c (rows ! c) v out) out [0..<k] ! c) = n
        \<and> (\<forall>i < n. foldl (\<lambda>out c. add_row mac c (rows ! c) v out) out [0..<k] ! c ! i
             = out ! c ! i + (if c < k then v * rows ! c ! i else 0)))"
  using assms(3,4)
proof (induction k)
  case 0
  then show ?case using assms(2) by simp
next
  case (Suc k)
  then have IH: "length (foldl (\<lambda>out c. add_row mac c (rows ! c) v out) out [0..<k]) = length out
    \<and> (\<forall>c < length out. length (foldl (\<lambda>out c. add_row mac c (rows ! c) v out) out [0..<k] ! c) = n
        \<and> (\<forall>i < n. foldl (\<lambda>out c. add_row mac c (rows ! c) v out) out [0..<k] ! c ! i
             = out ! c ! i + (if c < k then v * rows ! c ! i else 0)))"
    by simp
  define out' where "out' = foldl (\<lambda>out c. add_row mac c (rows ! c) v out) out [0..<k]"
  have fold: "foldl (\<lambda>out c. add_row mac c (rows ! c) v out) out [0..<Suc k] = add_row mac k (rows ! k) v out'"
    by (simp add: out'_def)
  have len: "length (rows ! k) = n" using Suc.prems(1) by simp
  show ?case
    using IH Suc.prems(2) len assms(1) unfolding fold out'_def [symmetric]
    by (auto simp: add_row_def adds_def nth_list_update less_Suc_eq)
qed

text \<open>
  C28: The callback plays the remote stream without gaps. The stream ahead is what waits in the playout ring followed by
  the prepared frames of the expected generation. When it has as many samples as the callback needs,
  they are added to the local monitor with the remote volume, channel by channel, and the rest remains
  the stream ahead. When it has fewer, nothing remote is added: a stream that has not started yet
  waits, and one that was playing ends in an underrun, which empties the ring and asks the worker to buffer anew.
\<close>

theorem playout_follows_remote_stream:
  assumes laws: "ring_laws A held width room" and mac: "adds mac"
    and e: "width (en_playoutBuffer e) = 2" "n + 128 \<le> room (en_playoutBuffer e)"
      "\<forall>f\<in>set (rw_output (en_receive e)). length (rf_samples f) = 2"
    and out: "length out \<le> 2" "\<forall>c < length out. length (out ! c) = n"
    and play: "play_chunk A mac env n out q e = (mixed, q', e')"
  shows "if n \<le> length (remote_stream held e)
    then remote_stream held e' = drop n (remote_stream held e) \<and> en_isPlaying e' \<and> length mixed = length out
      \<and> pq_playUnderruns q' = pq_playUnderruns q
      \<and> (\<forall>c < length out. \<forall>i < n. mixed ! c ! i = out ! c ! i
           + snd (calcMonitorGain (en_monitorBalance e)) * en_masterVolume e * (remote_stream held e ! i ! c))
    else mixed = out \<and> \<not> en_isPlaying e'
      \<and> (if en_isPlaying e
         then remote_stream held e' = [] \<and> rw_rebufferRequested (en_receive e')
           \<and> pq_playUnderruns q' = pq_playUnderruns q + 1
         else remote_stream held e' = remote_stream held e \<and> pq_playUnderruns q' = pq_playUnderruns q)"
proof -
  obtain fs ring t latency where f: "fetch_frames A (ce_millis env) (en_expectedRemoteGeneration e) n
      (rw_output (en_receive e)) (en_playoutBuffer e) (en_timing e) (pq_toPlayLatency q) = (fs, ring, t, latency)"
    by (metis prod_cases4)
  note F = fetch_frames_result [OF laws e f]
  let ?S = "remote_stream held e"
  have S: "?S = held ring @ frames_audio (en_expectedRemoteGeneration e) fs" using F by (simp add: remote_stream_def)
  have stop: "n \<le> length (held ring) \<or> fs = []" using F by simp
  then have enough: "n \<le> length (held ring) \<longleftrightarrow> n \<le> length ?S" unfolding S by auto
  note st = ring_state [OF laws]
  show ?thesis
  proof (cases "n \<le> length ?S")
    case False
    with enough stop have nr: "\<not> n \<le> length (held ring)" and fs: "fs = []" by simp_all
    have all: "held (en_playoutBuffer e) @ frames_audio (en_expectedRemoteGeneration e) (rw_output (en_receive e)) = held ring"
      using F fs by simp
    from arg_cong [OF this, of length] have "length (held (en_playoutBuffer e))
        + length (frames_audio (en_expectedRemoteGeneration e) (rw_output (en_receive e))) = length (held ring)" by simp
    then show ?thesis
      using play nr all
      by (auto simp: play_chunk_def f fs st Let_def resetPlayoutState_def requestRebuffer_def remote_stream_def split: if_splits)
  next
    case True
    let ?rows = "rows_of 2 (take n ?S)" and ?v = "snd (calcMonitorGain (en_monitorBalance e)) * en_masterVolume e"
    have ready: "n \<le> length (held ring)" using True enough by simp
    have "take n (held ring) = take n ?S" "drop n (held ring) @ frames_audio (en_expectedRemoteGeneration e) fs = drop n ?S"
      using ready by (simp_all add: S)
    then have rd: "fst (rb_read A ring 2 n) = ?rows" "held (snd (rb_read A ring 2 n)) @ frames_audio (en_expectedRemoteGeneration e) fs = drop n ?S"
      using ring_read [OF laws ready, of 2] F by auto
    have mixed: "mixed = foldl (\<lambda>out c. add_row mac c (?rows ! c) ?v out) out [0..<min 2 (length out)]"
      and e': "remote_stream held e' = drop n ?S" "en_isPlaying e'" "pq_playUnderruns q' = pq_playUnderruns q"
      using play ready rd
      by (auto simp: play_chunk_def f st Let_def split_beta remote_stream_def simp del: calcMonitorGain_def split: if_splits)
    have "\<forall>c < min 2 (length out). length (?rows ! c) = n" using True by simp
    from add_rows_sample [OF mac out(2) this, of ?v] out(1) True
    show ?thesis by (auto simp: mixed e' rows_of_def)
  qed
qed

text \<open>An engine with one prepared frame of its generation; half of the 128 samples are played.\<close>

definition playing_engine :: "(list_ring, unit, unit) engine" where
  "playing_engine = (engine_new list_ring_api () ())\<lparr>en_playoutBuffer := \<lparr>lr_width = 2, lr_room = 1000, lr_held = []\<rparr>,
     en_receive := receive_new\<lparr>rw_output := [frame_of_packet 0 (play_packet 5) (buf_silent 2 128)]\<rparr>\<rparr>"

lemma playing_engine_fields:
  "lr_width (en_playoutBuffer playing_engine) = 2" "lr_room (en_playoutBuffer playing_engine) = 1000"
  "lr_held (en_playoutBuffer playing_engine) = []" "en_expectedRemoteGeneration playing_engine = 0"
  "rw_output (en_receive playing_engine) = [frame_of_packet 0 (play_packet 5) (buf_silent 2 128)]"
  by (simp_all add: playing_engine_def engine_new_def)

theorem playout_follows_remote_stream_witness:
  "\<exists>mixed q' e'. play_chunk list_ring_api (\<lambda>d s g. d + s * g) \<lparr>ce_measureTime = 0, ce_playoutTime = 0, ce_millis = 0\<rparr> 64
      [replicate 64 1, replicate 64 1] new_playout_quality playing_engine = (mixed, q', e')
    \<and> length (remote_stream lr_held playing_engine) = 128 \<and> en_isPlaying e'
    \<and> remote_stream lr_held e' = drop 64 (remote_stream lr_held playing_engine)"
proof -
  obtain mixed q' e' where play: "play_chunk list_ring_api (\<lambda>d s g. d + s * g) \<lparr>ce_measureTime = 0, ce_playoutTime = 0, ce_millis = 0\<rparr> 64
      [replicate 64 1, replicate 64 1] new_playout_quality playing_engine = (mixed, q', e')" by (metis prod_cases3)
  have len: "length (remote_stream lr_held playing_engine) = 128"
    by (simp add: remote_stream_def playing_engine_fields frame_of_packet_def)
  have "adds (\<lambda>d s g. d + s * g)" by (simp add: adds_def)
  from playout_follows_remote_stream [OF list_ring_laws this _ _ _ _ _ play]
  show ?thesis using len play by (simp add: playing_engine_fields frame_of_packet_def less_Suc_eq)
qed

end
