(* ===== verification/Engine_Handshakes.thy ===== *)
theory Engine_Handshakes
  imports Audio_Engine
begin

text \<open>
  How the message thread and the audio callback of \<open>Client/Source/JammerNetzAudioEngine.cpp\<close> share
  state without a lock, as step relations whose steps are the single atomic accesses of the code: the
  hazard pointer that protects the MIDI sender in use, the counter of running callbacks that
  \<open>shutdown\<close> waits for, and the epochs by which retired input states are released. The accesses are
  taken in one global order, as \<open>memory_order_seq_cst\<close> gives it for the first two. The operations of
  the message thread follow one another.
\<close>

section \<open>Reachable states\<close>

locale invariant_system =
  fixes start :: 's
    and step :: "'s \<Rightarrow> 's \<Rightarrow> bool"
    and inv :: "'s \<Rightarrow> bool"
  assumes start_inv: "inv start"
    and step_inv: "\<lbrakk>step s t; inv s\<rbrakk> \<Longrightarrow> inv t"
begin

lemma reachable_inv: "step\<^sup>*\<^sup>* start s \<Longrightarrow> inv s"
  by (induction rule: rtranclp_induct) (auto intro: start_inv step_inv)

end

section \<open>The MIDI sender\<close>

text \<open>
  Senders are known by their address. An address is free again once its sender has been shut down, so a
  new sender may get the address of an old one.
\<close>

datatype reader_pc = Rd_Load | Rd_Loaded "nat option" | Rd_Announced "nat option" | Rd_Using "nat option"

datatype clock_pc = Ck_Idle | Ck_Publish "nat option" | Ck_Take | Ck_Retire "nat option"

record sender_state =
  sn_owned :: "nat option"
  sn_published :: "nat option"
  sn_hazard :: "nat option"
  sn_running :: "nat list"
  sn_reader :: reader_pc
  sn_clock :: clock_pc

definition sender_start :: sender_state where
  "sender_start = \<lparr>sn_owned = None, sn_published = None, sn_hazard = None, sn_running = [],
     sn_reader = Rd_Load, sn_clock = Ck_Idle\<rparr>"

text \<open>
  The callback loads the pointer, announces it and checks that it is still the published one. The
  message thread replaces the sender (\<open>restartClock\<close>) or removes it (\<open>shutdown\<close>), and retires the old
  one when the callback does not announce it.
\<close>

inductive sender_step :: "sender_state \<Rightarrow> sender_state \<Rightarrow> bool" where
  load: "sn_reader s = Rd_Load \<Longrightarrow> sender_step s (s\<lparr>sn_reader := Rd_Loaded (sn_published s)\<rparr>)"
| announce: "sn_reader s = Rd_Loaded p \<Longrightarrow> sender_step s (s\<lparr>sn_hazard := p, sn_reader := Rd_Announced p\<rparr>)"
| again: "\<lbrakk>sn_reader s = Rd_Announced p; p \<noteq> sn_published s\<rbrakk> \<Longrightarrow> sender_step s (s\<lparr>sn_reader := Rd_Load\<rparr>)"
| use: "\<lbrakk>sn_reader s = Rd_Announced p; p = sn_published s\<rbrakk> \<Longrightarrow> sender_step s (s\<lparr>sn_reader := Rd_Using p\<rparr>)"
| finish: "sn_reader s = Rd_Using p \<Longrightarrow> sender_step s (s\<lparr>sn_hazard := None, sn_reader := Rd_Load\<rparr>)"
| restart: "\<lbrakk>sn_clock s = Ck_Idle; a \<notin> set (sn_running s)\<rbrakk> \<Longrightarrow>
    sender_step s (s\<lparr>sn_owned := Some a, sn_running := a # sn_running s, sn_clock := Ck_Publish (sn_owned s)\<rparr>)"
| publish: "sn_clock s = Ck_Publish old \<Longrightarrow>
    sender_step s (s\<lparr>sn_published := sn_owned s, sn_clock := Ck_Retire old\<rparr>)"
| unpublish: "sn_clock s = Ck_Idle \<Longrightarrow> sender_step s (s\<lparr>sn_published := None, sn_clock := Ck_Take\<rparr>)"
| take: "sn_clock s = Ck_Take \<Longrightarrow> sender_step s (s\<lparr>sn_owned := None, sn_clock := Ck_Retire (sn_owned s)\<rparr>)"
| retire_none: "sn_clock s = Ck_Retire None \<Longrightarrow> sender_step s (s\<lparr>sn_clock := Ck_Idle\<rparr>)"
| retire: "\<lbrakk>sn_clock s = Ck_Retire (Some a); sn_hazard s \<noteq> Some a\<rbrakk> \<Longrightarrow>
    sender_step s (s\<lparr>sn_running := removeAll a (sn_running s), sn_clock := Ck_Idle\<rparr>)"

fun clock_inv :: "sender_state \<Rightarrow> clock_pc \<Rightarrow> bool" where
  "clock_inv s Ck_Idle = (sn_published s = sn_owned s \<and> set (sn_running s) = set_option (sn_owned s))"
| "clock_inv s (Ck_Publish old) =
     (sn_published s = old \<and> old \<noteq> sn_owned s \<and> set (sn_running s) = set_option (sn_owned s) \<union> set_option old)"
| "clock_inv s Ck_Take = (sn_published s = None \<and> set (sn_running s) = set_option (sn_owned s))"
| "clock_inv s (Ck_Retire old) =
     (sn_published s = sn_owned s \<and> (old = None \<or> old \<noteq> sn_owned s)
      \<and> set (sn_running s) = set_option (sn_owned s) \<union> set_option old)"

fun reader_inv :: "sender_state \<Rightarrow> reader_pc \<Rightarrow> bool" where
  "reader_inv s (Rd_Announced p) = (sn_hazard s = p)"
| "reader_inv s (Rd_Using p) = (sn_hazard s = p \<and> set_option p \<subseteq> set (sn_running s))"
| "reader_inv s _ = True"

definition sender_inv :: "sender_state \<Rightarrow> bool" where
  "sender_inv s = (clock_inv s (sn_clock s) \<and> reader_inv s (sn_reader s))"

lemma sender_published_runs: "sender_inv s \<Longrightarrow> set_option (sn_published s) \<subseteq> set (sn_running s)"
  by (cases "sn_clock s") (auto simp: sender_inv_def)

lemma reader_inv_frame [simp]:
  "reader_inv (s\<lparr>sn_reader := r\<rparr>) pc = reader_inv s pc"
  "reader_inv (s\<lparr>sn_published := p\<rparr>) pc = reader_inv s pc"
  "reader_inv (s\<lparr>sn_owned := w\<rparr>) pc = reader_inv s pc"
  "reader_inv (s\<lparr>sn_clock := c\<rparr>) pc = reader_inv s pc"
  by (cases pc; simp)+

lemma clock_inv_frame [simp]:
  "clock_inv (s\<lparr>sn_reader := r\<rparr>) pc = clock_inv s pc"
  "clock_inv (s\<lparr>sn_hazard := h\<rparr>) pc = clock_inv s pc"
  "clock_inv (s\<lparr>sn_clock := c\<rparr>) pc = clock_inv s pc"
  by (cases pc; simp)+

interpretation sender: invariant_system sender_start sender_step sender_inv
proof unfold_locales
  show "sender_inv sender_start" by (simp add: sender_inv_def sender_start_def)
next
  fix s t assume "sender_step s t" and inv: "sender_inv s"
  then show "sender_inv t"
  proof cases
    case (use p)
    with sender_published_runs [OF inv] inv show ?thesis
      by (auto simp: sender_inv_def)
  next
    case (restart a)
    with inv show ?thesis
      by (cases "sn_reader s") (auto simp: sender_inv_def)
  next
    case (retire a)
    with inv show ?thesis
      by (cases "sn_reader s") (auto simp: sender_inv_def)
  qed (use inv in \<open>auto simp: sender_inv_def\<close>)
qed

text \<open>
  C29: However the audio callback and the message thread interleave, and also when the address of a
  retired MIDI sender is used again, the sender that the callback uses has not been shut down; and
  between two operations of the message thread no sender runs but the current one.
\<close>
theorem midi_sender_in_use_runs:
  assumes "sender_step\<^sup>*\<^sup>* sender_start s"
  shows "(sn_reader s = Rd_Using (Some a) \<longrightarrow> a \<in> set (sn_running s))
    \<and> (sn_clock s = Ck_Idle \<longrightarrow> set (sn_running s) = set_option (sn_owned s))"
  using sender.reachable_inv [OF assms] by (auto simp: sender_inv_def)

definition sender_busy :: sender_state where
  "sender_busy = \<lparr>sn_owned = Some 1, sn_published = Some 1, sn_hazard = Some 0, sn_running = [1, 0],
     sn_reader = Rd_Using (Some 0), sn_clock = Ck_Retire (Some 0)\<rparr>"

lemma sender_busy_reachable: "sender_step\<^sup>*\<^sup>* sender_start sender_busy"
proof -
  let ?s = "sender_start\<lparr>sn_owned := Some 0, sn_published := Some 0, sn_running := [0]\<rparr>"
  have "sender_step\<^sup>*\<^sup>* sender_start ?s"
    using sender_step.restart [of sender_start 0]
      sender_step.publish [of "sender_start\<lparr>sn_owned := Some 0, sn_running := [0], sn_clock := Ck_Publish None\<rparr>" None]
      sender_step.retire_none [of "?s\<lparr>sn_clock := Ck_Retire None\<rparr>"]
    by (auto simp: sender_start_def intro: converse_rtranclp_into_rtranclp)
  moreover have "sender_step\<^sup>*\<^sup>* ?s (?s\<lparr>sn_hazard := Some 0, sn_reader := Rd_Using (Some 0)\<rparr>)"
    using sender_step.load [of ?s] sender_step.announce [of "?s\<lparr>sn_reader := Rd_Loaded (Some 0)\<rparr>" "Some 0"]
      sender_step.use [of "?s\<lparr>sn_hazard := Some 0, sn_reader := Rd_Announced (Some 0)\<rparr>" "Some 0"]
    by (auto simp: sender_start_def intro: converse_rtranclp_into_rtranclp)
  moreover have "sender_step\<^sup>*\<^sup>* (?s\<lparr>sn_hazard := Some 0, sn_reader := Rd_Using (Some 0)\<rparr>) sender_busy"
    using sender_step.restart [of "?s\<lparr>sn_hazard := Some 0, sn_reader := Rd_Using (Some 0)\<rparr>" 1]
      sender_step.publish [of "sender_busy\<lparr>sn_published := Some 0, sn_clock := Ck_Publish (Some 0)\<rparr>" "Some 0"]
    by (auto simp: sender_start_def sender_busy_def intro: converse_rtranclp_into_rtranclp)
  ultimately show ?thesis by (blast intro: rtranclp_trans)
qed

theorem midi_sender_in_use_runs_witness:
  "sn_reader sender_busy = Rd_Using (Some 0) \<and> 0 \<in> set (sn_running sender_busy)"
  using midi_sender_in_use_runs [OF sender_busy_reachable, of 0] by (simp add: sender_busy_def)

section \<open>Running callbacks and shutdown\<close>

text \<open>
  A callback checks the flag, counts itself, and checks the flag again before it uses the workers. The
  counter is a 32-bit word. \<open>shutdown\<close> raises the flag and waits for the counter to be 0, then it
  tears the workers down; \<open>start\<close> lowers the flag.
\<close>

datatype callback_pc = Cb_Idle | Cb_Checked | Cb_Counted | Cb_Using | Cb_Leaving

datatype engine_phase = Ep_Open | Ep_Waiting | Ep_Releasing | Ep_Stopped

record shutdown_state =
  sd_shutdownRequested :: bool
  sd_activeAudioCallbacks :: u32
  sd_callbacks :: "callback_pc list"
  sd_phase :: engine_phase

definition shutdown_start :: "nat \<Rightarrow> shutdown_state" where
  "shutdown_start n = \<lparr>sd_shutdownRequested = False, sd_activeAudioCallbacks = 0,
     sd_callbacks = replicate n Cb_Idle, sd_phase = Ep_Open\<rparr>"

abbreviation at_pc :: "shutdown_state \<Rightarrow> nat \<Rightarrow> callback_pc \<Rightarrow> bool" where
  "at_pc s i pc \<equiv> i < length (sd_callbacks s) \<and> sd_callbacks s ! i = pc"

abbreviation goto :: "nat \<Rightarrow> callback_pc \<Rightarrow> shutdown_state \<Rightarrow> shutdown_state" where
  "goto i pc s \<equiv> s\<lparr>sd_callbacks := (sd_callbacks s)[i := pc]\<rparr>"

inductive shutdown_step :: "shutdown_state \<Rightarrow> shutdown_state \<Rightarrow> bool" where
  refused: "\<lbrakk>at_pc s i Cb_Idle; sd_shutdownRequested s\<rbrakk> \<Longrightarrow> shutdown_step s s"
| check: "\<lbrakk>at_pc s i Cb_Idle; \<not> sd_shutdownRequested s\<rbrakk> \<Longrightarrow> shutdown_step s (goto i Cb_Checked s)"
| count: "at_pc s i Cb_Checked \<Longrightarrow>
    shutdown_step s (goto i Cb_Counted (s\<lparr>sd_activeAudioCallbacks := sd_activeAudioCallbacks s + 1\<rparr>))"
| too_late: "\<lbrakk>at_pc s i Cb_Counted; sd_shutdownRequested s\<rbrakk> \<Longrightarrow> shutdown_step s (goto i Cb_Leaving s)"
| enter: "\<lbrakk>at_pc s i Cb_Counted; \<not> sd_shutdownRequested s\<rbrakk> \<Longrightarrow> shutdown_step s (goto i Cb_Using s)"
| finished: "at_pc s i Cb_Using \<Longrightarrow> shutdown_step s (goto i Cb_Leaving s)"
| leave: "at_pc s i Cb_Leaving \<Longrightarrow>
    shutdown_step s (goto i Cb_Idle (s\<lparr>sd_activeAudioCallbacks := sd_activeAudioCallbacks s - 1\<rparr>))"
| request: "sd_phase s \<in> {Ep_Open, Ep_Stopped} \<Longrightarrow>
    shutdown_step s (s\<lparr>sd_shutdownRequested := True, sd_phase := Ep_Waiting\<rparr>)"
| waited: "\<lbrakk>sd_phase s = Ep_Waiting; sd_activeAudioCallbacks s = 0\<rbrakk> \<Longrightarrow> shutdown_step s (s\<lparr>sd_phase := Ep_Releasing\<rparr>)"
| released: "sd_phase s = Ep_Releasing \<Longrightarrow> shutdown_step s (s\<lparr>sd_phase := Ep_Stopped\<rparr>)"
| start: "sd_phase s \<in> {Ep_Open, Ep_Stopped} \<Longrightarrow>
    shutdown_step s (s\<lparr>sd_shutdownRequested := False, sd_phase := Ep_Open\<rparr>)"

fun is_counted :: "callback_pc \<Rightarrow> bool" where
  "is_counted Cb_Idle = False"
| "is_counted Cb_Checked = False"
| "is_counted _ = True"

definition counted :: "callback_pc list \<Rightarrow> nat" where
  "counted cs = sum_list (map (\<lambda>pc. of_bool (is_counted pc)) cs)"

definition shutdown_inv :: "nat \<Rightarrow> shutdown_state \<Rightarrow> bool" where
  "shutdown_inv n s =
     (length (sd_callbacks s) = n
      \<and> sd_activeAudioCallbacks s = word_of_nat (counted (sd_callbacks s))
      \<and> (sd_phase s \<noteq> Ep_Open \<longrightarrow> sd_shutdownRequested s)
      \<and> (sd_phase s \<in> {Ep_Releasing, Ep_Stopped} \<longrightarrow> Cb_Using \<notin> set (sd_callbacks s)))"

lemma counted_update:
  "i < length cs \<Longrightarrow> counted (cs[i := pc]) + of_bool (is_counted (cs ! i)) = counted cs + of_bool (is_counted pc)"
proof (induction cs arbitrary: i)
  case (Cons c cs)
  then show ?case by (cases i) (auto simp: counted_def)
qed simp

lemma counted_update_cases:
  assumes "i < length cs"
  shows "is_counted (cs ! i) = is_counted pc \<Longrightarrow> counted (cs[i := pc]) = counted cs"
    and "\<lbrakk>\<not> is_counted (cs ! i); is_counted pc\<rbrakk> \<Longrightarrow> counted (cs[i := pc]) = Suc (counted cs)"
    and "\<lbrakk>is_counted (cs ! i); \<not> is_counted pc\<rbrakk> \<Longrightarrow> counted cs = Suc (counted (cs[i := pc]))"
  using counted_update [OF assms, of pc] by auto

lemma counted_le: "counted cs \<le> length cs"
  by (induction cs) (auto simp: counted_def)

lemma counted_0: "counted cs = 0 \<Longrightarrow> Cb_Using \<notin> set cs"
  by (induction cs) (auto simp: counted_def)

lemma using_update: "\<lbrakk>Cb_Using \<notin> set cs; pc \<noteq> Cb_Using\<rbrakk> \<Longrightarrow> Cb_Using \<notin> set (cs[i := pc])"
  using set_update_subset_insert [of cs i pc] by blast

lemma active_0:
  assumes "shutdown_inv n s" "n < 2 ^ 32" "sd_activeAudioCallbacks s = 0"
  shows "counted (sd_callbacks s) = 0"
proof -
  have "counted (sd_callbacks s) < 2 ^ 32"
    using assms(1,2) counted_le [of "sd_callbacks s"] by (simp add: shutdown_inv_def)
  moreover have "(word_of_nat (counted (sd_callbacks s)) :: u32) = 0"
    using assms by (simp add: shutdown_inv_def)
  ultimately show ?thesis
    by (simp add: word_of_nat_eq_0_iff) (metis nat_dvd_not_less neq0_conv)
qed

lemma shutdown_step_inv:
  assumes "shutdown_step s t" "shutdown_inv n s" "n < 2 ^ 32"
  shows "shutdown_inv n t"
  using assms(1)
proof cases
  case waited
  then show ?thesis
    using assms active_0 [OF assms(2,3)] counted_0 by (auto simp: shutdown_inv_def)
next
  case (leave i)
  then have "(word_of_nat (counted (sd_callbacks s)) :: u32) - 1 = word_of_nat (counted ((sd_callbacks s)[i := Cb_Idle]))"
    using counted_update_cases(3) [of i "sd_callbacks s" Cb_Idle] by simp
  with leave assms(2) show ?thesis
    by (auto simp: shutdown_inv_def using_update)
qed (use assms(2) in \<open>auto simp: shutdown_inv_def counted_update_cases using_update\<close>)

lemma shutdown_start_inv: "shutdown_inv n (shutdown_start n)"
  by (simp add: shutdown_inv_def shutdown_start_def counted_def sum_list_replicate map_replicate_const)

lemma shutdown_system: "n < 2 ^ 32 \<Longrightarrow> invariant_system (shutdown_start n) shutdown_step (shutdown_inv n)"
  by unfold_locales (blast intro: shutdown_start_inv shutdown_step_inv)+

lemmas shutdown_reachable_inv = invariant_system.reachable_inv [OF shutdown_system]

text \<open>What the callbacks that have passed the first check have left to do.\<close>

fun steps_left :: "callback_pc \<Rightarrow> nat" where
  "steps_left Cb_Idle = 0"
| "steps_left Cb_Checked = 4"
| "steps_left Cb_Counted = 3"
| "steps_left Cb_Using = 2"
| "steps_left Cb_Leaving = 1"

definition work_left :: "shutdown_state \<Rightarrow> nat" where
  "work_left s = sum_list (map steps_left (sd_callbacks s))"

lemma work_left_goto:
  "i < length (sd_callbacks s) \<Longrightarrow>
     work_left (goto i pc s) + steps_left (sd_callbacks s ! i) = work_left s + steps_left pc"
  using member_le_sum_list [of "steps_left (sd_callbacks s ! i)" "map steps_left (sd_callbacks s)"]
  by (simp add: work_left_def map_update sum_list_update)

lemma work_left_active [simp]: "work_left (s\<lparr>sd_activeAudioCallbacks := n\<rparr>) = work_left s"
  by (simp add: work_left_def)

lemma work_left_0:
  assumes "work_left s = 0" "shutdown_inv n s"
  shows "sd_activeAudioCallbacks s = 0"
proof -
  have "is_counted pc \<Longrightarrow> steps_left pc \<noteq> 0" for pc by (cases pc) auto
  then have "counted (sd_callbacks s) = 0"
    using assms(1) by (fastforce simp: work_left_def counted_def sum_list_eq_0_iff)
  then show ?thesis using assms(2) by (simp add: shutdown_inv_def)
qed

text \<open>
  C30: Once \<open>shutdown\<close> has passed its wait, no audio callback uses the workers until the engine is
  started again, with any number of callbacks below \<open>2\<^sup>3\<^sup>2\<close> however they interleave; and the wait ends:
  while it lasts, every step but a refused callback brings the callbacks closer to their end, and when
  they have ended the counter is 0.
\<close>
theorem shutdown_waits_for_callbacks:
  assumes "n < 2 ^ 32" "shutdown_step\<^sup>*\<^sup>* (shutdown_start n) s"
  shows "(sd_phase s \<in> {Ep_Releasing, Ep_Stopped} \<longrightarrow> Cb_Using \<notin> set (sd_callbacks s))
    \<and> (sd_phase s = Ep_Waiting \<longrightarrow>
         (\<forall>t. shutdown_step s t \<longrightarrow> t = s \<or> sd_phase t = Ep_Releasing \<or> work_left t < work_left s)
         \<and> (work_left s = 0 \<longrightarrow> shutdown_step s (s\<lparr>sd_phase := Ep_Releasing\<rparr>)))"
proof -
  have inv: "shutdown_inv n s" by (rule shutdown_reachable_inv [OF assms])
  have "t = s \<or> sd_phase t = Ep_Releasing \<or> work_left t < work_left s"
    if "sd_phase s = Ep_Waiting" "shutdown_step s t" for t
    using that(2)
  proof cases
    case (count i)
    then show ?thesis using work_left_goto [of i "s\<lparr>sd_activeAudioCallbacks := sd_activeAudioCallbacks s + 1\<rparr>" Cb_Counted] by simp
  next
    case (too_late i)
    then show ?thesis using work_left_goto [of i s Cb_Leaving] by simp
  next
    case (finished i)
    then show ?thesis using work_left_goto [of i s Cb_Leaving] by simp
  next
    case (leave i)
    then show ?thesis using work_left_goto [of i "s\<lparr>sd_activeAudioCallbacks := sd_activeAudioCallbacks s - 1\<rparr>" Cb_Idle] by simp
  qed (use that inv in \<open>auto simp: shutdown_inv_def\<close>)
  moreover have "shutdown_step s (s\<lparr>sd_phase := Ep_Releasing\<rparr>)" if "sd_phase s = Ep_Waiting" "work_left s = 0"
    using that inv by (blast intro: shutdown_step.waited work_left_0)
  moreover have "sd_phase s \<in> {Ep_Releasing, Ep_Stopped} \<longrightarrow> Cb_Using \<notin> set (sd_callbacks s)"
    using inv by (simp add: shutdown_inv_def)
  ultimately show ?thesis by blast
qed

text \<open>The counted callback has seen the flag and is leaving when \<open>shutdown\<close> looks at the counter.\<close>

definition shutdown_race :: shutdown_state where
  "shutdown_race = \<lparr>sd_shutdownRequested = True, sd_activeAudioCallbacks = 0, sd_callbacks = [Cb_Idle], sd_phase = Ep_Waiting\<rparr>"

lemma shutdown_race_reachable: "shutdown_step\<^sup>*\<^sup>* (shutdown_start 1) shutdown_race"
proof -
  let ?s = "shutdown_start 1"
  let ?t = "\<lparr>sd_shutdownRequested = True, sd_activeAudioCallbacks = 1, sd_callbacks = [Cb_Counted], sd_phase = Ep_Waiting\<rparr>"
  have "shutdown_step\<^sup>*\<^sup>* ?s ?t"
    using shutdown_step.check [of 0 ?s] shutdown_step.count [of 0 "goto 0 Cb_Checked ?s"]
      shutdown_step.request [of "?t\<lparr>sd_shutdownRequested := False, sd_phase := Ep_Open\<rparr>"]
    by (auto simp: shutdown_start_def intro: converse_rtranclp_into_rtranclp)
  moreover have "shutdown_step\<^sup>*\<^sup>* ?t shutdown_race"
    using shutdown_step.too_late [of 0 ?t] shutdown_step.leave [of 0 "goto 0 Cb_Leaving ?t"]
    by (auto simp: shutdown_race_def intro: converse_rtranclp_into_rtranclp)
  ultimately show ?thesis by (rule rtranclp_trans)
qed

theorem shutdown_waits_for_callbacks_witness:
  "shutdown_step shutdown_race (shutdown_race\<lparr>sd_phase := Ep_Releasing\<rparr>)"
  using shutdown_waits_for_callbacks [OF _ shutdown_race_reachable] by (simp add: shutdown_race_def work_left_def)

section \<open>Retired input states\<close>

text \<open>
  The configurations that the callback reads, by number. \<open>setChannelSetup\<close> reads the number of
  completed chunks, releases the retired states that are older, retires the current one with that
  number, and publishes the new one.
\<close>

datatype setup_pc = Sp_Idle | Sp_Read u64 | Sp_Publish

record input_states =
  is_published :: nat
  is_configured :: nat
  is_retired :: "(nat \<times> u64) list"
  is_completedEpoch :: u64
  is_reading :: "nat option"
  is_setup :: setup_pc

definition input_states_start :: input_states where
  "input_states_start = \<lparr>is_published = 0, is_configured = 0, is_retired = [], is_completedEpoch = 0,
     is_reading = None, is_setup = Sp_Idle\<rparr>"

definition kept_states :: "input_states \<Rightarrow> nat set" where
  "kept_states s = insert (is_configured s) (set (map fst (is_retired s)))"

inductive input_step :: "input_states \<Rightarrow> input_states \<Rightarrow> bool" where
  begin_chunk: "is_reading s = None \<Longrightarrow> input_step s (s\<lparr>is_reading := Some (is_published s)\<rparr>)"
| end_chunk: "is_reading s = Some p \<Longrightarrow>
    input_step s (s\<lparr>is_reading := None, is_completedEpoch := is_completedEpoch s + 1\<rparr>)"
| read_epoch: "is_setup s = Sp_Idle \<Longrightarrow> input_step s (s\<lparr>is_setup := Sp_Read (is_completedEpoch s)\<rparr>)"
| replace: "\<lbrakk>is_setup s = Sp_Read e; new \<notin> kept_states s\<rbrakk> \<Longrightarrow>
    input_step s (s\<lparr>is_retired := filter (\<lambda>(p, retireEpoch). \<not> retireEpoch < e) (is_retired s) @ [(is_configured s, e)],
      is_configured := new, is_setup := Sp_Publish\<rparr>)"
| publish_state: "is_setup s = Sp_Publish \<Longrightarrow>
    input_step s (s\<lparr>is_published := is_configured s, is_setup := Sp_Idle\<rparr>)"

text \<open>A run in which no chunk ends while a setup is being exchanged.\<close>

definition quiet_step :: "input_states \<Rightarrow> input_states \<Rightarrow> bool" where
  "quiet_step s t = (input_step s t \<and> (is_completedEpoch t \<noteq> is_completedEpoch s \<longrightarrow> is_setup s = Sp_Idle))"

text \<open>A state the callback may be reading: the published one, or one retired in the epoch that still lasts.\<close>

definition input_inv :: "input_states \<Rightarrow> bool" where
  "input_inv s =
     ((\<forall>e. is_setup s = Sp_Read e \<longrightarrow> e = is_completedEpoch s)
      \<and> (if is_setup s = Sp_Publish then (is_published s, is_completedEpoch s) \<in> set (is_retired s)
         else is_published s = is_configured s)
      \<and> (\<forall>p. is_reading s = Some p \<longrightarrow> p = is_published s \<or> (p, is_completedEpoch s) \<in> set (is_retired s)))"

interpretation input_states: invariant_system input_states_start quiet_step input_inv
proof unfold_locales
  show "input_inv input_states_start" by (simp add: input_inv_def input_states_start_def)
next
  fix s t assume "quiet_step s t" and inv: "input_inv s"
  then have "input_step s t" and quiet: "is_completedEpoch t \<noteq> is_completedEpoch s \<longrightarrow> is_setup s = Sp_Idle"
    by (auto simp: quiet_step_def)
  from this(1) show "input_inv t"
    by cases (use inv quiet in \<open>auto simp: input_inv_def split: if_splits\<close>)
qed

text \<open>
  C31: While no audio chunk ends between the moment at which \<open>setChannelSetup\<close> reads the epoch and the
  moment at which it publishes the new state, the input state that the callback reads and the one it would read next are kept
  alive by the engine, however the callback and the message thread interleave.
\<close>
theorem input_state_in_use_is_kept:
  assumes "quiet_step\<^sup>*\<^sup>* input_states_start s"
  shows "is_published s \<in> kept_states s \<and> (is_reading s = Some p \<longrightarrow> p \<in> kept_states s)"
  using input_states.reachable_inv [OF assms]
  by (force simp: input_inv_def kept_states_def image_iff split: if_splits)

definition chunk_over_two_setups :: input_states where
  "chunk_over_two_setups =
     \<lparr>is_published = 2, is_configured = 2, is_retired = [(0, 0), (1, 0)], is_completedEpoch = 0,
      is_reading = Some 0, is_setup = Sp_Idle\<rparr>"

lemma quiet_exchange:
  assumes "is_setup s = Sp_Idle" "new \<notin> kept_states s"
  shows "quiet_step\<^sup>*\<^sup>* s (s\<lparr>is_retired := filter (\<lambda>(p, e). \<not> e < is_completedEpoch s) (is_retired s)
      @ [(is_configured s, is_completedEpoch s)], is_configured := new, is_published := new\<rparr>)"
proof -
  let ?e = "is_completedEpoch s"
  let ?a = "s\<lparr>is_setup := Sp_Read ?e\<rparr>"
  let ?b = "?a\<lparr>is_retired := filter (\<lambda>(p, e). \<not> e < ?e) (is_retired s) @ [(is_configured s, ?e)],
      is_configured := new, is_setup := Sp_Publish\<rparr>"
  let ?c = "?b\<lparr>is_published := is_configured ?b, is_setup := Sp_Idle\<rparr>"
  have "quiet_step s ?a"
    using input_step.read_epoch [of s] assms(1) by (simp add: quiet_step_def)
  moreover have "quiet_step ?a ?b"
    using input_step.replace [of ?a ?e new] assms(2) by (simp add: quiet_step_def kept_states_def)
  moreover have "quiet_step ?b ?c"
    using input_step.publish_state [of ?b] by (simp add: quiet_step_def)
  ultimately have "quiet_step\<^sup>*\<^sup>* s ?c"
    by (meson converse_rtranclp_into_rtranclp rtranclp.rtrancl_refl)
  then show ?thesis using assms(1) by (cases s) simp
qed

lemma chunk_over_two_setups_reachable: "quiet_step\<^sup>*\<^sup>* input_states_start chunk_over_two_setups"
proof -
  let ?s = "input_states_start\<lparr>is_reading := Some 0\<rparr>"
  let ?t = "?s\<lparr>is_published := 1, is_configured := 1, is_retired := [(0, 0)]\<rparr>"
  have "quiet_step input_states_start ?s"
    using input_step.begin_chunk [of input_states_start] by (simp add: quiet_step_def input_states_start_def)
  moreover have "quiet_step\<^sup>*\<^sup>* ?s ?t"
    using quiet_exchange [of ?s 1] by (simp add: input_states_start_def kept_states_def)
  moreover have "quiet_step\<^sup>*\<^sup>* ?t chunk_over_two_setups"
    using quiet_exchange [of ?t 2] by (simp add: input_states_start_def kept_states_def chunk_over_two_setups_def)
  ultimately show ?thesis by (meson converse_rtranclp_into_rtranclp rtranclp_trans)
qed

theorem input_state_in_use_is_kept_witness:
  "is_reading chunk_over_two_setups = Some 0 \<and> 0 \<in> kept_states chunk_over_two_setups"
  using input_state_in_use_is_kept [OF chunk_over_two_setups_reachable, of 0] by (simp add: chunk_over_two_setups_def)

text \<open>
  The epoch does not protect a state in every interleaving: when a chunk ends after \<open>setChannelSetup\<close>
  has read the epoch and the next chunk begins before the new state is published, that chunk reads
  the retired state, and the next call releases it although the chunk is still running.
\<close>
lemma input_state_released_in_use:
  "\<exists>s p. input_step\<^sup>*\<^sup>* input_states_start s \<and> is_reading s = Some p \<and> p \<notin> kept_states s"
proof -
  let ?a = "input_states_start\<lparr>is_reading := Some 0\<rparr>"
  let ?b = "input_states_start\<lparr>is_reading := Some 0, is_completedEpoch := 1, is_setup := Sp_Read 0\<rparr>"
  let ?c = "?b\<lparr>is_published := 1, is_configured := 1, is_retired := [(0, 0)], is_setup := Sp_Idle\<rparr>"
  let ?d = "?b\<lparr>is_published := 1, is_configured := 2, is_retired := [(1, 1)], is_setup := Sp_Publish\<rparr>"
  have "input_step\<^sup>*\<^sup>* input_states_start ?b"
    using input_step.begin_chunk [of input_states_start] input_step.read_epoch [of ?a]
      input_step.end_chunk [of "?a\<lparr>is_setup := Sp_Read 0\<rparr>" 0] input_step.begin_chunk [of "?b\<lparr>is_reading := None\<rparr>"]
    by (auto simp: input_states_start_def intro: converse_rtranclp_into_rtranclp)
  moreover have "input_step\<^sup>*\<^sup>* ?b ?c"
    using input_step.replace [of ?b 0 1] input_step.publish_state [of "?c\<lparr>is_published := 0, is_setup := Sp_Publish\<rparr>"]
    by (auto simp: input_states_start_def kept_states_def intro: converse_rtranclp_into_rtranclp)
  moreover have "input_step\<^sup>*\<^sup>* ?c ?d"
    using input_step.read_epoch [of ?c] input_step.replace [of "?c\<lparr>is_setup := Sp_Read 1\<rparr>" 1 2]
    by (auto simp: input_states_start_def kept_states_def intro: converse_rtranclp_into_rtranclp)
  ultimately have "input_step\<^sup>*\<^sup>* input_states_start ?d"
    by (blast intro: rtranclp_trans)
  moreover have "is_reading ?d = Some 0" "0 \<notin> kept_states ?d"
    by (simp_all add: input_states_start_def kept_states_def)
  ultimately show ?thesis by blast
qed

end
