(* ===== verification/Engine_Tempo_Props.thy ===== *)
theory Engine_Tempo_Props
  imports Audio_Engine
begin

text \<open>
  The exchange of the tempo between the user interface and the session: \<open>setClientBpm\<close> and
  \<open>takeServerBpmUpdate\<close> of the audio engine, the mailbox the audio callback empties, and the tempo the
  receive worker has last seen. The slider of the user interface reports every change of its value, so a
  tempo it takes over from the server comes back as if the user had moved it.
\<close>

datatype tempo_op =
  Server_Tempo fl | Poll_Tempo timepoint timepoint | Poll_Unchanged timepoint | Move_Slider timepoint fl | Send_Tempo

datatype tempo_event = Shown timepoint fl | Moved timepoint fl | Sent fl

text \<open>
  \<open>Poll_Tempo now later\<close>: the interface takes the server's tempo over, and its slider reports the new
  value; \<open>Poll_Unchanged\<close>: the slider already shows that value and does not report it.
\<close>

definition move_slider ::
  "timepoint \<Rightarrow> fl \<Rightarrow> ('r, 'd, 'm) engine \<times> tempo_event list \<Rightarrow> ('r, 'd, 'm) engine \<times> tempo_event list" where
  "move_slider t b = (\<lambda>(e, events).
     (setClientBpm t b e,
      if en_ignoreNextServerBpmChange e \<and> bpm_close b (en_pendingServerBpm e) then events else events @ [Moved t b]))"

fun tempo_step :: "tempo_op \<Rightarrow> ('r, 'd, 'm) engine \<times> tempo_event list \<Rightarrow> ('r, 'd, 'm) engine \<times> tempo_event list" where
  "tempo_step (Server_Tempo b) (e, events) =
     (e\<lparr>en_receive := (en_receive e)\<lparr>rw_latestServerBpm := b, rw_serverBpmPending := True\<rparr>\<rparr>, events)"
| "tempo_step (Poll_Tempo now later) (e, events) =
     (case takeServerBpmUpdate now e of
        (None, e') \<Rightarrow> (e', events)
      | (Some b, e') \<Rightarrow> move_slider later b (e', events @ [Shown now b]))"
| "tempo_step (Poll_Unchanged now) (e, events) =
     (case takeServerBpmUpdate now e of
        (None, e') \<Rightarrow> (e', events)
      | (Some b, e') \<Rightarrow> (e', events @ [Shown now b]))"
| "tempo_step (Move_Slider t b) s = move_slider t b s"
| "tempo_step Send_Tempo (e, events) =
     (let (b, m) = mailbox_takeLatest (en_clientBpm e)
      in (e\<lparr>en_clientBpm := m\<rparr>, case b of None \<Rightarrow> events | Some v \<Rightarrow> events @ [Sent v]))"

fun op_times :: "tempo_op \<Rightarrow> timepoint list" where
  "op_times (Poll_Tempo now later) = [now, later]"
| "op_times (Poll_Unchanged now) = [now]"
| "op_times (Move_Slider t b) = [t]"
| "op_times _ = []"

fun op_finite :: "tempo_op \<Rightarrow> bool" where
  "op_finite (Server_Tempo b) = (\<exists>x. b = FFin x)"
| "op_finite _ = True"

fun event_time :: "tempo_event \<Rightarrow> timepoint option" where
  "event_time (Shown t b) = Some t"
| "event_time (Moved t b) = Some t"
| "event_time (Sent b) = None"

text \<open>A tempo is shown only when more than a second has passed since the event before it.\<close>

fun spaced :: "tempo_event \<Rightarrow> tempo_event \<Rightarrow> bool" where
  "spaced earlier (Shown t b) = (case event_time earlier of None \<Rightarrow> True | Some t' \<Rightarrow> seconds 1 < t - t')"
| "spaced earlier _ = True"

definition tempo_inv :: "timepoint \<Rightarrow> ('r, 'd, 'm) engine \<times> tempo_event list \<Rightarrow> bool" where
  "tempo_inv now = (\<lambda>(e, events).
     (fl_isnan (en_clientBpm e) \<or> (\<exists>t. Moved t (en_clientBpm e) \<in> set events))
     \<and> (rw_serverBpmPending (en_receive e) \<longrightarrow> (\<exists>x. rw_latestServerBpm (en_receive e) = FFin x))
     \<and> en_bpmSliderLastMoved e \<le> now
     \<and> (\<forall>ev \<in> set events. \<forall>t. event_time ev = Some t \<longrightarrow> 0 < t \<and> t \<le> en_bpmSliderLastMoved e)
     \<and> (\<forall>b. Sent b \<in> set events \<longrightarrow> (\<exists>t. Moved t b \<in> set events))
     \<and> sorted_wrt spaced events)"

lemma move_slider_eq:
  "move_slider t b (e, events) =
     (if en_ignoreNextServerBpmChange e \<and> bpm_close b (en_pendingServerBpm e)
      then (e\<lparr>en_ignoreNextServerBpmChange := False\<rparr>, events)
      else (e\<lparr>en_ignoreNextServerBpmChange := False, en_clientBpm := b, en_bpmSliderLastMoved := t\<rparr>,
            events @ [Moved t b]))"
proof (cases "en_ignoreNextServerBpmChange e")
  case False
  then have "e\<lparr>en_ignoreNextServerBpmChange := False\<rparr> = e" by (cases e) simp
  with False show ?thesis by (simp add: move_slider_def setClientBpm_def Let_def)
qed (simp add: move_slider_def setClientBpm_def Let_def)

lemma move_slider_inv:
  assumes "tempo_inv now (e, events)" "0 < t" "now \<le> t"
  shows "tempo_inv t (move_slider t b (e, events))"
proof -
  have "tempo_inv t (e\<lparr>en_ignoreNextServerBpmChange := False\<rparr>, events)"
    using assms by (auto simp: tempo_inv_def)
  moreover have "tempo_inv t (e\<lparr>en_ignoreNextServerBpmChange := False, en_clientBpm := b, en_bpmSliderLastMoved := t\<rparr>,
      events @ [Moved t b])"
    using assms by (fastforce simp: tempo_inv_def sorted_wrt_append)
  ultimately show ?thesis by (simp add: move_slider_eq)
qed

lemma takeServerBpmUpdate_Some:
  assumes "takeServerBpmUpdate now e = (Some b, e')"
  shows "rw_serverBpmPending (en_receive e)" "b = rw_latestServerBpm (en_receive e)"
    and "en_bpmSliderLastMoved e = 0 \<or> seconds 1 < now - en_bpmSliderLastMoved e"
    and "e' = e\<lparr>en_receive := (en_receive e)\<lparr>rw_serverBpmPending := False\<rparr>, en_serverBpm := b,
           en_pendingServerBpm := b, en_ignoreNextServerBpmChange := True, en_bpmSliderLastMoved := now\<rparr>"
  using assms by (auto simp: takeServerBpmUpdate_def worker_takeServerBpmUpdate_def Let_def split: if_splits)

lemma taken_tempo_inv:
  assumes inv: "tempo_inv before (e, events)" and times: "0 < now" "before \<le> now"
    and taken: "takeServerBpmUpdate now e = (Some b, e')"
  shows "tempo_inv now (e', events @ [Shown now b])"
    and "\<exists>x. b = FFin x" "en_ignoreNextServerBpmChange e'" "en_pendingServerBpm e' = b"
proof -
  note t = takeServerBpmUpdate_Some [OF taken]
  have "spaced ev (Shown now b)" if "ev \<in> set events" for ev
    using that inv t(3) by (fastforce simp: tempo_inv_def split: option.splits)
  moreover have "0 < s \<and> s \<le> now" if "ev \<in> set events" "event_time ev = Some s" for ev s
    using that inv times by (fastforce simp: tempo_inv_def)
  ultimately show "tempo_inv now (e', events @ [Shown now b])"
    using inv times by (auto simp: tempo_inv_def t(4) sorted_wrt_append)
  show "\<exists>x. b = FFin x" "en_ignoreNextServerBpmChange e'" "en_pendingServerBpm e' = b"
    using inv t(1,2) by (auto simp: tempo_inv_def t(4))
qed

lemma no_tempo_inv:
  assumes "tempo_inv before (e, events)" "before \<le> now" "takeServerBpmUpdate now e = (None, e')"
  shows "tempo_inv now (e', events)"
  using assms by (auto simp: tempo_inv_def takeServerBpmUpdate_def worker_takeServerBpmUpdate_def Let_def split: if_splits)

lemma tempo_inv_later: "\<lbrakk>tempo_inv a s; a \<le> b\<rbrakk> \<Longrightarrow> tempo_inv b s"
  by (auto simp: tempo_inv_def)

lemma poll_tempo_inv:
  assumes "tempo_inv before s" "0 < now" "before \<le> now" "now \<le> later"
  shows "tempo_inv later (tempo_step (Poll_Tempo now later) s)"
proof (cases s)
  case (Pair e events)
  obtain b e' where poll: "takeServerBpmUpdate now e = (b, e')" by fastforce
  show ?thesis
  proof (cases b)
    case None
    then show ?thesis using assms no_tempo_inv [of before e events now e'] poll
      by (auto simp: Pair intro: tempo_inv_later)
  next
    case (Some v)
    note taken = taken_tempo_inv [OF assms(1) [unfolded Pair] assms(2,3) poll [unfolded Some]]
    show ?thesis
      using move_slider_inv [OF taken(1), of later v] assms(2,4) by (simp add: Pair poll Some)
  qed
qed

lemma tempo_step_inv:
  assumes "tempo_inv before s" "op_finite op" "0 \<le> before"
    and "\<And>t. t \<in> set (op_times op) \<Longrightarrow> 0 < t \<and> before \<le> t" "sorted (op_times op)"
  shows "tempo_inv (if op_times op = [] then before else last (op_times op)) (tempo_step op s)"
proof (cases s)
  case (Pair e events)
  show ?thesis
  proof (cases op)
    case (Poll_Tempo now later)
    with assms poll_tempo_inv [of before s now later] show ?thesis by auto
  next
    case (Poll_Unchanged now)
    obtain b e' where poll: "takeServerBpmUpdate now e = (b, e')" by fastforce
    with Poll_Unchanged assms show ?thesis
      by (cases b) (auto simp: Pair intro: no_tempo_inv taken_tempo_inv)
  next
    case (Move_Slider t b)
    with assms move_slider_inv [of before e events t b] show ?thesis by (auto simp: Pair)
  next
    case Send_Tempo
    with assms show ?thesis
      by (auto simp: Pair tempo_inv_def mailbox_takeLatest_def Let_def sorted_wrt_append)
  qed (use assms in \<open>auto simp: Pair tempo_inv_def\<close>)
qed

definition tempo_run ::
  "('r, 'd, 'm) engine \<Rightarrow> tempo_op list \<Rightarrow> ('r, 'd, 'm) engine \<times> tempo_event list" where
  "tempo_run e ops = fold tempo_step ops (e, [])"

definition all_times :: "tempo_op list \<Rightarrow> timepoint list" where
  "all_times ops = concat (map op_times ops)"

lemma tempo_run_inv:
  assumes "tempo_inv 0 (e, [])" "list_all op_finite ops" "sorted (all_times ops)" "\<forall>t \<in> set (all_times ops). 0 < t"
  shows "tempo_inv (if all_times ops = [] then 0 else last (all_times ops)) (tempo_run e ops)"
  using assms(2-)
proof (induction ops rule: rev_induct)
  case Nil
  with assms(1) show ?case by (simp add: tempo_run_def all_times_def)
next
  case (snoc op ops)
  let ?b = "if all_times ops = [] then 0 else last (all_times ops)"
  have "all_times ops \<noteq> [] \<Longrightarrow> 0 < last (all_times ops)"
    using snoc.prems(3) last_in_set [of "all_times ops"] by (auto simp: all_times_def)
  then have "0 \<le> ?b" by auto
  moreover have "0 < t \<and> ?b \<le> t" if "t \<in> set (op_times op)" for t
  proof -
    have "all_times (ops @ [op]) = all_times ops @ op_times op" by (simp add: all_times_def)
    with that snoc.prems(2,3) have "0 < t" "\<forall>s \<in> set (all_times ops). s \<le> t" by (auto simp: sorted_append)
    then show ?thesis using last_in_set [of "all_times ops"] by auto
  qed
  moreover have "sorted (op_times op)" "op_finite op"
    using snoc.prems by (auto simp: all_times_def sorted_append)
  moreover have "tempo_inv ?b (tempo_run e ops)"
    using snoc by (auto simp: all_times_def sorted_append)
  ultimately have "tempo_inv (if op_times op = [] then ?b else last (op_times op)) (tempo_step op (tempo_run e ops))"
    by (intro tempo_step_inv) auto
  moreover have "all_times (ops @ [op]) = all_times ops @ op_times op" by (simp add: all_times_def)
  ultimately show ?case by (simp add: tempo_run_def split: if_splits)
qed

lemma engine_new_tempo_inv: "tempo_inv 0 (engine_new A meter transmitMeter, [])"
  by (simp add: tempo_inv_def engine_new_def receive_new_def)


definition tempo_ops :: "tempo_op list" where
  "tempo_ops = [Server_Tempo (FFin 100), Poll_Tempo 1 2, Send_Tempo, Move_Slider 3 (FFin 120), Send_Tempo,
     Server_Tempo (FFin 120), Poll_Tempo 4 5]"


end
