(* ===== verification/Audio_Recording_Props.thy ===== *)
theory Audio_Recording_Props
  imports Audio_Recording "HOL-Library.Sublist"
begin

text \<open>
  What ends up in a recording: any sequence of operations of the user, the audio callback and the
  recording worker on one recorder, with the blocks captured since the recording was started.
\<close>

section \<open>Runs\<close>

datatype record_op =
  Set_Recording format_env bool | Set_Channels int channel_setup | Set_Directory
| Capture "real list option list" nat | Worker_Pass bool

fun record_perform :: "record_op \<Rightarrow> recorder \<times> recording_worker \<Rightarrow> recorder \<times> recording_worker" where
  "record_perform (Set_Recording e on) (r, g) = (setRecording e on r, g)"
| "record_perform (Set_Channels rate setup) (r, g) = (setChannelInfo rate setup r, g)"
| "record_perform Set_Directory (r, g) = (setDirectory r, g)"
| "record_perform (Capture channels n) (r, g) = (r, snd (recording_enqueue Recording_Local (Some r) channels n g))"
| "record_perform (Worker_Pass room) (r, g) =
     (let (recs, g') = recording_pass room (Some r, None) g in (the (fst recs), g'))"

definition captured_rows :: "real list option list \<Rightarrow> nat \<Rightarrow> real list list" where
  "captured_rows channels n = map (\<lambda>ch. case ch of Some row \<Rightarrow> take n row | None \<Rightarrow> replicate n 0) channels"

text \<open>The blocks captured since the last change from not recording to recording.\<close>

fun session_after :: "record_op \<Rightarrow> recorder \<Rightarrow> recorder \<Rightarrow> real list list list \<Rightarrow> real list list list" where
  "session_after (Capture channels n) r r' blocks = blocks @ [captured_rows channels n]"
| "session_after (Set_Recording e on) r r' blocks = (if \<not> rc_writing r \<and> rc_writing r' then [] else blocks)"
| "session_after _ r r' blocks = blocks"

type_synonym record_state = "recorder \<times> recording_worker \<times> real list list list"

fun record_step :: "record_op \<Rightarrow> record_state \<Rightarrow> record_state" where
  "record_step op (r, g, blocks) =
     (let (r', g') = record_perform op (r, g) in (r', g', session_after op r r' blocks))"

definition record_run :: "int \<Rightarrow> record_op list \<Rightarrow> record_state" where
  "record_run rate ops = fold record_step ops (recorder_new rate, recording_new, [])"

text \<open>Operations that cannot lose a block: the writer has room, and a captured block is not empty.\<close>

fun lossless_op :: "record_op \<Rightarrow> bool" where
  "lossless_op (Worker_Pass room) = room"
| "lossless_op (Capture channels n) = (\<forall>row. Some row \<in> set channels \<longrightarrow> length row = n)"
| "lossless_op _ = True"

section \<open>Invariant\<close>

text \<open>Equal when nothing was lost, a subsequence otherwise.\<close>

definition follows :: "bool \<Rightarrow> 'a list \<Rightarrow> 'a list \<Rightarrow> bool" where
  "follows whole xs ys = (subseq xs ys \<and> (whole \<longrightarrow> xs = ys))"

lemma follows_refl [simp]: "follows c xs xs"
  by (simp add: follows_def)

lemma follows_weaken: "\<lbrakk>follows c xs ys; d \<Longrightarrow> c\<rbrakk> \<Longrightarrow> follows d xs ys"
  by (auto simp: follows_def)

lemma follows_append: "follows c xs ys \<Longrightarrow> follows c (xs @ [x]) (ys @ [x])"
  by (simp add: follows_def)

lemma follows_lose_new: "follows c xs ys \<Longrightarrow> follows False xs (ys @ [y])"
  by (auto simp: follows_def)

lemma follows_lose_old: "follows c (xs @ x # zs) ys \<Longrightarrow> follows False (xs @ zs) ys"
proof -
  have "subseq (xs @ zs) (xs @ x # zs)" by (simp add: subseq_append' list_emb_Cons del: subseq_append)
  then show "follows c (xs @ x # zs) ys \<Longrightarrow> follows False (xs @ zs) ys"
    by (auto simp: follows_def intro: subseq_order.order_trans)
qed

definition waiting_blocks :: "u64 \<Rightarrow> recording_worker \<Rightarrow> real list list list" where
  "waiting_blocks gen g = map gf_samples (filter (\<lambda>f. gf_recordingGeneration f = gen) (gw_queue g))"

definition frame_ok :: "bool \<Rightarrow> u64 \<Rightarrow> recording_frame \<Rightarrow> bool" where
  "frame_ok full latest f =
     (gf_target f = Recording_Local \<and> 0 < gf_recordingGeneration f \<and> gf_recordingGeneration f \<le> latest
      \<and> gf_samples f \<noteq> [] \<and> (full \<longrightarrow> hd (gf_samples f) \<noteq> []))"

definition the_file :: "recorder \<Rightarrow> recording_file" where
  "the_file r = last (rc_files r)"

definition record_inv :: "bool \<Rightarrow> nat \<Rightarrow> record_state \<Rightarrow> bool" where
  "record_inv full n = (\<lambda>(r, g, blocks).
     unat (rc_nextRecordingGeneration r) \<le> n \<and> unat (gw_dropped g) \<le> n
     \<and> (rc_writing r \<longleftrightarrow> rc_recordingGeneration r \<noteq> 0)
     \<and> (\<forall>f \<in> set (gw_queue g). frame_ok full (rc_nextRecordingGeneration r) f)
     \<and> (rc_writing r \<longrightarrow> rc_recordingGeneration r = rc_nextRecordingGeneration r \<and> rc_files r \<noteq> []
          \<and> follows (full \<and> gw_dropped g = 0)
              (fi_blocks (the_file r) @ map (take (fi_channels (the_file r))) (waiting_blocks (rc_recordingGeneration r) g))
              (map (take (fi_channels (the_file r))) blocks)))"

section \<open>Preservation\<close>

lemma next_generation_Suc:
  assumes "unat g \<le> n" "n < 2 ^ 64 - 1"
  shows "next_generation g \<noteq> 0" "unat (next_generation g) = Suc (unat g)" "g < next_generation g"
proof -
  have u: "unat (g + 1) = Suc (unat g)"
    using assms by (simp add: unat_word_ariths(1))
  then have "g + 1 \<noteq> 0" by auto
  then show "next_generation g \<noteq> 0" "unat (next_generation g) = Suc (unat g)"  "g < next_generation g"
    using u by (simp_all add: next_generation_def word_less_nat_alt)
qed

lemma dropped_Suc:
  assumes "unat (g :: u64) \<le> n" "n < 2 ^ 64 - 1"
  shows "unat (g + 1) = Suc (unat g)" "g + 1 \<noteq> 0"
proof -
  show u: "unat (g + 1) = Suc (unat g)"
    using assms by (simp add: unat_word_ariths(1))
  then show "g + 1 \<noteq> 0" by auto
qed

lemma frame_ok_later: "\<lbrakk>frame_ok full a f; a \<le> b\<rbrakk> \<Longrightarrow> frame_ok full b f"
  by (auto simp: frame_ok_def)

lemma no_waiting_of_new_generation:
  assumes "\<forall>f \<in> set (gw_queue g). frame_ok full a f" "a < b"
  shows "waiting_blocks b g = []"
  using assms by (auto simp: waiting_blocks_def frame_ok_def filter_empty_conv)

lemma setRecording_cases:
  assumes "rc_writing r \<longleftrightarrow> rc_recordingGeneration r \<noteq> 0"
  obtains (started) new_file where "\<not> rc_writing r" "rc_writing (setRecording e on r)"
      "rc_files (setRecording e on r) = rc_files r @ [new_file]" "fi_blocks new_file = []"
      "rc_nextRecordingGeneration (setRecording e on r) = next_generation (rc_nextRecordingGeneration r)"
      "rc_recordingGeneration (setRecording e on r) = next_generation (rc_nextRecordingGeneration r)"
  | (continued) "rc_writing r" "rc_writing (setRecording e on r)" "rc_files (setRecording e on r) = rc_files r"
      "rc_nextRecordingGeneration (setRecording e on r) = rc_nextRecordingGeneration r"
      "rc_recordingGeneration (setRecording e on r) = rc_recordingGeneration r"
  | (stopped) "\<not> rc_writing (setRecording e on r)" "rc_recordingGeneration (setRecording e on r) = 0"
      "rc_nextRecordingGeneration (setRecording e on r) = rc_nextRecordingGeneration r"
proof (cases "rc_writing r"; cases on)
  assume *: "\<not> rc_writing r" on
  let ?ok = "fst (updateChannelInfo e (rc_lastSampleRate r) (rc_lastChannelSetup r) r)"
  show thesis
  proof (cases ?ok)
    case True
    with * show thesis
      by (intro started [of "\<lparr>fi_channels = length (file_layout (rc_lastChannelSetup r)), fi_blocks = []\<rparr>"])
        (auto simp: setRecording_def updateChannelInfo_def launchWriter_def Let_def split: if_splits)
  next
    case False
    with * show thesis
      by (intro stopped) (auto simp: setRecording_def updateChannelInfo_def launchWriter_def Let_def split: if_splits)
  qed
qed (rule continued stopped; simp add: setRecording_def Let_def)+

lemma setRecording_inv:
  assumes "record_inv full n (r, g, blocks)" "n < 2 ^ 64 - 1"
  shows "record_inv full (Suc n) (setRecording e on r, g,
    if \<not> rc_writing r \<and> rc_writing (setRecording e on r) then [] else blocks)"
proof -
  have "rc_writing r \<longleftrightarrow> rc_recordingGeneration r \<noteq> 0" using assms(1) by (simp add: record_inv_def)
  then show ?thesis
  proof (cases rule: setRecording_cases [where e = e and on = on])
    case (started new_file)
    have "unat (rc_nextRecordingGeneration r) \<le> n" using assms(1) by (simp add: record_inv_def)
    note generation = next_generation_Suc [OF this assms(2)]
    with assms(1) started show ?thesis
      using generation no_waiting_of_new_generation [OF _ generation(3), of g full]
      by (auto simp: record_inv_def the_file_def intro: frame_ok_later)
  next
    case continued
    with assms(1) show ?thesis by (auto simp: record_inv_def the_file_def)
  next
    case stopped
    with assms(1) show ?thesis by (auto simp: record_inv_def)
  qed
qed

lemma capture_inv:
  assumes "record_inv full n (r, g, blocks)" "n < 2 ^ 64 - 1" "full \<longrightarrow> lossless_op (Capture channels m)"
  shows "record_inv full (Suc n) (r, snd (recording_enqueue Recording_Local (Some r) channels m g),
    blocks @ [captured_rows channels m])"
proof (cases "fst (recording_enqueue Recording_Local (Some r) channels m g)")
  case False
  then have "snd (recording_enqueue Recording_Local (Some r) channels m g) = g\<lparr>gw_dropped := gw_dropped g + 1\<rparr>"
    by (auto simp: recording_enqueue_def queue_write_def Let_def split: if_splits)
  then show ?thesis
    using assms dropped_Suc [of "gw_dropped g" n]
    by (auto simp: record_inv_def waiting_blocks_def intro: follows_lose_new)
next
  case True
  show ?thesis
  proof (cases "rc_recordingGeneration r = 0")
    case True
    then show ?thesis using assms(1) by (auto simp: record_inv_def recording_enqueue_def)
  next
    case False
    let ?f = "\<lparr>gf_target = Recording_Local, gf_recordingGeneration = rc_recordingGeneration r,
      gf_samples = captured_rows channels m\<rparr>"
    have new: "snd (recording_enqueue Recording_Local (Some r) channels m g) = g\<lparr>gw_queue := gw_queue g @ [?f]\<rparr>"
      and ok: "channels \<noteq> []" "0 < m"
      using True False by (auto simp: recording_enqueue_def queue_write_def captured_rows_def Let_def split: if_splits)
    have "frame_ok full (rc_nextRecordingGeneration r) ?f"
      using False assms(1,3) ok
      by (cases channels) (auto simp: record_inv_def frame_ok_def captured_rows_def word_neq_0_conv split: option.splits)
    with assms(1) False show ?thesis
      by (auto simp: record_inv_def new waiting_blocks_def simp flip: append_assoc intro: follows_append)
  qed
qed

lemma pass_inv:
  assumes inv: "record_inv full n (r, g, blocks)" and room: "full \<longrightarrow> room"
  shows "record_inv full (Suc n)
    (let (recs, g') = recording_pass room (Some r, None) g in (the (fst recs), g', blocks))"
proof (cases "gw_queue g")
  case Nil
  then show ?thesis using inv by (auto simp: record_inv_def recording_pass_def)
next
  case (Cons f q)
  then have ok: "frame_ok full (rc_nextRecordingGeneration r) f" using inv by (simp add: record_inv_def)
  let ?g = "g\<lparr>gw_queue := q\<rparr>"
  show ?thesis
  proof (cases "gf_recordingGeneration f = rc_recordingGeneration r")
    case False
    then have "recording_pass room (Some r, None) g = ((Some r, None), ?g)"
      using Cons ok by (simp add: recording_pass_def writeFrame_def frame_ok_def)
    with inv Cons False show ?thesis by (auto simp: record_inv_def waiting_blocks_def)
  next
    case True
    let ?r = "saveBlock room (gf_samples f) (length (hd (gf_samples f))) r"
    have writing: "rc_writing r" and files: "rc_files r \<noteq> []"
      using inv True ok by (auto simp: record_inv_def frame_ok_def)
    have pass: "recording_pass room (Some r, None) g = ((Some ?r, None), ?g\<lparr>gw_written := gw_written g + 1\<rparr>)"
      using Cons ok True by (simp add: recording_pass_def writeFrame_def frame_ok_def)
    have fields: "rc_nextRecordingGeneration ?r = rc_nextRecordingGeneration r"
      "rc_recordingGeneration ?r = rc_recordingGeneration r" "rc_writing ?r" "rc_files ?r \<noteq> []"
      "fi_channels (the_file ?r) = fi_channels (the_file r)"
      using writing files by (simp_all add: saveBlock_def the_file_def append_block_def)
    let ?k = "take (fi_channels (the_file r))"
    have waits: "waiting_blocks (rc_recordingGeneration r) g = gf_samples f # waiting_blocks (rc_recordingGeneration r) ?g"
      using Cons True by (simp add: waiting_blocks_def)
    have "follows (full \<and> gw_dropped g = 0)
        (fi_blocks (the_file r) @ map ?k (waiting_blocks (rc_recordingGeneration r) g)) (map ?k blocks)"
      using inv writing by (auto simp: record_inv_def)
    then have old: "follows (full \<and> gw_dropped g = 0)
        (fi_blocks (the_file r) @ ?k (gf_samples f) # map ?k (waiting_blocks (rc_recordingGeneration r) ?g)) (map ?k blocks)"
      by (simp only: waits list.map)
    have "follows (full \<and> gw_dropped g = 0)
        (fi_blocks (the_file ?r) @ map ?k (waiting_blocks (rc_recordingGeneration r) ?g)) (map ?k blocks)"
    proof (cases "room \<and> hd (gf_samples f) \<noteq> []")
      case True
      then have "fi_blocks (the_file ?r) = fi_blocks (the_file r) @ [?k (gf_samples f)]"
        using ok writing files by (simp add: saveBlock_def the_file_def append_block_def frame_ok_def)
      with old show ?thesis by simp
    next
      case False
      then have "\<not> full" "fi_blocks (the_file ?r) = fi_blocks (the_file r)"
        using ok room by (auto simp: saveBlock_def the_file_def frame_ok_def)
      with follows_lose_old [OF old] show ?thesis by simp
    qed
    with inv Cons fields writing show ?thesis
      by (auto simp: record_inv_def pass waiting_blocks_def)
  qed
qed

lemma record_step_inv:
  assumes "record_inv full n s" "n < 2 ^ 64 - 1" "full \<longrightarrow> lossless_op op"
  shows "record_inv full (Suc n) (record_step op s)"
proof (cases s)
  case (fields r g blocks)
  show ?thesis
  proof (cases op)
    case (Set_Recording e on)
    then show ?thesis using setRecording_inv [OF assms(1,2) [unfolded fields], of e on] by (simp add: fields)
  next
    case (Capture channels m)
    then show ?thesis using capture_inv [OF assms(1) [unfolded fields] assms(2), of channels m] assms(3) by (simp add: fields)
  next
    case (Worker_Pass room)
    then show ?thesis
      using pass_inv [OF assms(1) [unfolded fields], of room] assms(3) by (simp add: fields split_beta Let_def)
  qed (use assms(1) in \<open>auto simp: fields record_inv_def setChannelInfo_def setDirectory_def the_file_def\<close>)
qed

lemma record_run_inv:
  assumes "length ops < 2 ^ 64 - 1" "full \<longrightarrow> list_all lossless_op ops"
  shows "record_inv full (length ops) (record_run rate ops)"
  using assms
proof (induction ops rule: rev_induct)
  case Nil
  show ?case by (simp add: record_inv_def record_run_def recorder_new_def recording_new_def)
next
  case (snoc op ops)
  then show ?case using record_step_inv [of full "length ops" "record_run rate ops" op] by (simp add: record_run_def)
qed


text \<open>Two channels, the first of which is muted: the file has one channel, and holds the muted one.\<close>

definition muted_first :: channel_setup where
  "muted_first = channel_setup_of False [single_channel (channel_target_code Mute), single_channel (channel_target_code Mono)]"

definition any_format :: format_env where
  "any_format = \<lparr>fe_bitDepthOk = True, fe_rateOk = \<lambda>_. True, fe_layoutOk = \<lambda>_. True, fe_writerOk = True\<rparr>"

definition muted_ops :: "record_op list" where
  "muted_ops = [Set_Channels 48000 muted_first, Set_Recording any_format True, Capture [Some [1], Some [2]] 1, Worker_Pass True]"

lemma muted_run:
  "\<exists>r g. record_run 0 muted_ops = (r, g, [[[1], [2]]]) \<and> rc_writing r \<and> gw_queue g = [] \<and> gw_dropped g = 0
     \<and> rc_files r = [\<lparr>fi_channels = 1, fi_blocks = [[[1]]]\<rparr>]"
  by (simp add: record_run_def muted_ops_def recorder_new_def recording_new_def setChannelInfo_def setRecording_def
      updateChannelInfo_def launchWriter_def any_format_def muted_first_def file_layout_def channel_setup_of_def
      single_channel_def recording_enqueue_def queue_write_def recording_pass_def writeFrame_def saveBlock_def
      append_block_def captured_rows_def next_generation_def target_of_u8_def recordingQueueCapacity_def
      JAMMERNETZ_MAX_AUDIO_CHANNELS_def JAMMERNETZ_MAX_CALLBACK_SAMPLES_def Let_def)


end
