(* ===== verification/Plugin_Processor.thy ===== *)
theory Plugin_Processor
  imports Engine_Callback Data_Receive
begin

text \<open>
  The plug-in, \<open>Plugin/Source/JammerNetzPluginProcessor.cpp\<close>: its configuration and its saved state,
  the lease that lets one instance of a host be connected, connecting and disconnecting, and the audio
  block. The host's string functions, its binary form of a property tree, the key files and the settings of the
  machine are parameters. Gains are real numbers.
\<close>

unbundle bit_operations_syntax

section \<open>Configuration\<close>

record plugin_configuration =
  pc_serverName :: string
  pc_serverPort :: int
  pc_username :: string
  pc_sendGain :: real
  pc_remoteGain :: real
  pc_dryGain :: real
  pc_minimumJitterFrames :: u64
  pc_maximumJitterFrames :: u64
  pc_useLocalhost :: bool
  pc_useFEC :: bool
  pc_localPassthrough :: bool

definition plugin_configuration_new :: plugin_configuration where
  "plugin_configuration_new =
     \<lparr>pc_serverName = [], pc_serverPort = 7777, pc_username = ''Musician'', pc_sendGain = 1, pc_remoteGain = 1,
      pc_dryGain = 1, pc_minimumJitterFrames = word_of_nat CLIENT_PLAYOUT_JITTER_BUFFER,
      pc_maximumJitterFrames = word_of_nat CLIENT_PLAYOUT_MAX_BUFFER, pc_useLocalhost = False, pc_useFEC = False,
      pc_localPassthrough = True\<rparr>"

definition jlimit :: "'a :: linorder \<Rightarrow> 'a \<Rightarrow> 'a \<Rightarrow> 'a" where
  "jlimit lower upper v = (if v < lower then lower else if upper < v then upper else v)"

text \<open>\<open>trim\<close> is the host library's \<open>String::trim\<close>.\<close>

definition sanitise :: "(string \<Rightarrow> string) \<Rightarrow> plugin_configuration \<Rightarrow> plugin_configuration" where
  "sanitise trim c =
     (let minimum = min 256 (pc_minimumJitterFrames c)
      in c\<lparr>pc_serverName := trim (pc_serverName c), pc_username := take 20 (trim (pc_username c)),
           pc_serverPort := jlimit 1 65535 (pc_serverPort c), pc_sendGain := jlimit 0 2 (pc_sendGain c),
           pc_remoteGain := jlimit 0 2 (pc_remoteGain c), pc_dryGain := jlimit 0 2 (pc_dryGain c),
           pc_minimumJitterFrames := minimum,
           pc_maximumJitterFrames := min 256 (max minimum (pc_maximumJitterFrames c))\<rparr>)"

section \<open>Saved state\<close>

text \<open>
  A property tree has a type and named values; \<open>'b\<close> is its binary form, \<open>'v\<close> a value as it is read
  back, which the conversions turn into what the reader asks for.
\<close>

datatype state_value = Value_Int int | Value_Real real | Value_Bool bool | Value_String string

record ('b, 'v) tree_codec =
  tc_write :: "string \<Rightarrow> (string \<times> state_value) list \<Rightarrow> 'b"
  tc_read :: "'b \<Rightarrow> (string \<times> (string \<Rightarrow> 'v option)) option"
  tc_int :: "'v \<Rightarrow> int"
  tc_real :: "'v \<Rightarrow> real"
  tc_bool :: "'v \<Rightarrow> bool"
  tc_string :: "'v \<Rightarrow> string"

definition plugin_stateType :: string where "plugin_stateType = ''JammerNetzPluginState''"

definition state_properties :: "plugin_configuration \<Rightarrow> (string \<times> state_value) list" where
  "state_properties c =
     [(''schemaVersion'', Value_Int 1), (''serverName'', Value_String (pc_serverName c)),
      (''serverPort'', Value_Int (pc_serverPort c)), (''username'', Value_String (pc_username c)),
      (''sendGain'', Value_Real (pc_sendGain c)), (''remoteGain'', Value_Real (pc_remoteGain c)),
      (''dryGain'', Value_Real (pc_dryGain c)),
      (''minimumJitterFrames'', Value_Int (sint (pc_minimumJitterFrames c))),
      (''maximumJitterFrames'', Value_Int (sint (pc_maximumJitterFrames c))),
      (''useLocalhost'', Value_Bool (pc_useLocalhost c)), (''useFEC'', Value_Bool (pc_useFEC c)),
      (''localPassthrough'', Value_Bool (pc_localPassthrough c))]"

definition property_or :: "('v \<Rightarrow> 'a) \<Rightarrow> (string \<Rightarrow> 'v option) \<Rightarrow> string \<Rightarrow> 'a \<Rightarrow> 'a" where
  "property_or convert state name otherwise = (case state name of None \<Rightarrow> otherwise | Some v \<Rightarrow> convert v)"

definition configuration_of_state :: "('b, 'v) tree_codec \<Rightarrow> (string \<Rightarrow> 'v option) \<Rightarrow> plugin_configuration" where
  "configuration_of_state t state =
     (let c = plugin_configuration_new
      in \<lparr>pc_serverName = property_or (tc_string t) state ''serverName'' (pc_serverName c),
          pc_serverPort = property_or (tc_int t) state ''serverPort'' (pc_serverPort c),
          pc_username = property_or (tc_string t) state ''username'' (pc_username c),
          pc_sendGain = property_or (tc_real t) state ''sendGain'' (pc_sendGain c),
          pc_remoteGain = property_or (tc_real t) state ''remoteGain'' (pc_remoteGain c),
          pc_dryGain = property_or (tc_real t) state ''dryGain'' (pc_dryGain c),
          pc_minimumJitterFrames = property_or (\<lambda>v. word_of_int (tc_int t v)) state ''minimumJitterFrames'' (pc_minimumJitterFrames c),
          pc_maximumJitterFrames = property_or (\<lambda>v. word_of_int (tc_int t v)) state ''maximumJitterFrames'' (pc_maximumJitterFrames c),
          pc_useLocalhost = property_or (tc_bool t) state ''useLocalhost'' (pc_useLocalhost c),
          pc_useFEC = property_or (tc_bool t) state ''useFEC'' (pc_useFEC c),
          pc_localPassthrough = property_or (tc_bool t) state ''localPassthrough'' (pc_localPassthrough c)\<rparr>)"

section \<open>The processor\<close>

datatype error_source = No_Source | Source_SampleRate | Source_Session

record ('r, 'd, 'm) plugin =
  pl_configuration :: plugin_configuration
  pl_error :: string
  pl_errorSource :: error_source
  pl_session :: session
  pl_engine :: "('r, 'd, 'm) engine"
  pl_ownsLease :: bool
  pl_connected :: bool
  pl_processGate :: u32
  pl_preparedSampleRate :: real
  pl_dryGain :: real
  pl_localPassthrough :: bool

definition plugin_new :: "('r, 'd, 'm) engine \<Rightarrow> ('r, 'd, 'm) plugin" where
  "plugin_new e =
     \<lparr>pl_configuration = plugin_configuration_new, pl_error = [], pl_errorSource = No_Source,
      pl_session = session_new, pl_engine = e, pl_ownsLease = False, pl_connected = False, pl_processGate = 0,
      pl_preparedSampleRate = 0, pl_dryGain = 1, pl_localPassthrough = True\<rparr>"

definition setError :: "string \<Rightarrow> error_source \<Rightarrow> ('r, 'd, 'm) plugin \<Rightarrow> ('r, 'd, 'm) plugin" where
  "setError error source p = p\<lparr>pl_error := error, pl_errorSource := (if error = [] then No_Source else source)\<rparr>"

definition clearError :: "('r, 'd, 'm) plugin \<Rightarrow> ('r, 'd, 'm) plugin" where
  "clearError p = setError [] Source_Session p"

definition clearErrorOf :: "error_source \<Rightarrow> ('r, 'd, 'm) plugin \<Rightarrow> ('r, 'd, 'm) plugin" where
  "clearErrorOf source p = (if pl_errorSource p = source then p\<lparr>pl_error := [], pl_errorSource := No_Source\<rparr> else p)"

text \<open>
  The lease: \<open>activeOwner\<close> is the instance of the process that is connected. An instance passes itself
  as the owner.
\<close>

definition lease_acquire :: "nat \<Rightarrow> bool \<Rightarrow> nat option \<Rightarrow> bool \<times> bool \<times> nat option" where
  "lease_acquire owner owns activeOwner =
     (if owns then (True, owns, activeOwner)
      else if activeOwner \<noteq> None then (False, owns, activeOwner)
      else (True, True, Some owner))"

definition lease_release :: "nat \<Rightarrow> bool \<Rightarrow> nat option \<Rightarrow> bool \<times> nat option" where
  "lease_release owner owns activeOwner =
     (if \<not> owns then (False, activeOwner)
      else (False, if activeOwner = Some owner then None else activeOwner))"

definition release_lease :: "nat \<Rightarrow> nat option \<times> ('r, 'd, 'm) plugin \<Rightarrow> nat option \<times> ('r, 'd, 'm) plugin" where
  "release_lease me = (\<lambda>(activeOwner, p).
     (let (owns, owner) = lease_release me (pl_ownsLease p) activeOwner in (owner, p\<lparr>pl_ownsLease := owns\<rparr>)))"

definition disconnectSession :: "nat \<Rightarrow> nat option \<times> ('r, 'd, 'm) plugin \<Rightarrow> nat option \<times> ('r, 'd, 'm) plugin" where
  "disconnectSession me = (\<lambda>(activeOwner, p).
     release_lease me (activeOwner,
       p\<lparr>pl_connected := False, pl_session := session_shutdown (pl_session p),
         pl_engine := snd (engine_shutdown (pl_engine p)), pl_processGate := 0\<rparr>))"

definition limitedChannelName :: "string \<Rightarrow> string" where
  "limitedChannelName name = take 20 name"

definition plugin_setup :: "plugin_configuration \<Rightarrow> channel_setup" where
  "plugin_setup c =
     channel_setup_of (pc_localPassthrough c)
       [(single_channel (channel_target_code Left))
          \<lparr>sc_volume := pc_sendGain c, sc_name := limitedChannelName (pc_username c @ '' L'')\<rparr>,
        (single_channel (channel_target_code Right))
          \<lparr>sc_volume := pc_sendGain c, sc_name := limitedChannelName (pc_username c @ '' R'')\<rparr>]"

definition configureEngine :: "'r ring_api \<Rightarrow> plugin_configuration \<Rightarrow> ('r, 'd, 'm) engine \<Rightarrow> ('r, 'd, 'm) engine" where
  "configureEngine A c e =
     newServer
       (setPlayoutBufferRange (pc_minimumJitterFrames c) (pc_maximumJitterFrames c)
         (setMasterVolume (pc_remoteGain c)
           (setMonitorBalance 1
             (setLocalMonitoring False (engine_setChannelSetup A (plugin_setup c) e)))))"

text \<open>What connecting reads from the machine: the key path of the settings, key files, ports, the network.\<close>

record connect_env =
  ec_keyPath :: string
  ec_loadKeyfile :: "string \<Rightarrow> cipher option"
  ec_codec :: codec
  ec_write :: socket_write
  ec_bindToPort :: "int \<Rightarrow> bool"
  ec_firstPortOffset :: nat

definition makeSessionConfiguration :: "connect_env \<Rightarrow> plugin_configuration \<Rightarrow> session_configuration" where
  "makeSessionConfiguration env c =
     \<lparr>sf_serverName = pc_serverName c, sf_serverPort = pc_serverPort c, sf_useLocalhost = pc_useLocalhost c,
      sf_useFEC = pc_useFEC c,
      sf_cryptoKey = (if ec_keyPath env \<noteq> [] then ec_loadKeyfile env (ec_keyPath env) else None)\<rparr>"

definition rate_ok :: "real \<Rightarrow> bool" where
  "rate_ok sampleRate \<longleftrightarrow> \<not> 0.5 < \<bar>sampleRate - real SAMPLE_RATE\<bar>"

definition connectSession ::
  "'r ring_api \<Rightarrow> int \<Rightarrow> connect_env \<Rightarrow> nat \<Rightarrow> nat option \<times> ('r, 'd, 'm) plugin \<Rightarrow> bool \<times> nat option \<times> ('r, 'd, 'm) plugin" where
  "connectSession A uninitialisedRate env me = (\<lambda>(activeOwner, p).
     if pl_connected p then (True, activeOwner, p)
     else if \<not> rate_ok (pl_preparedSampleRate p)
     then (False, activeOwner, setError ''Set the host project to 48 kHz before connecting'' Source_SampleRate p)
     else (let config = pl_configuration p
           in if \<not> pc_useLocalhost config \<and> pc_serverName config = []
              then (False, activeOwner, setError ''Enter a JammerNetz server before connecting'' Source_Session p)
              else (let (ok, owns, owner) = lease_acquire me (pl_ownsLease p) activeOwner;
                        p1 = p\<lparr>pl_ownsLease := owns\<rparr>
                    in if \<not> ok
                       then (False, owner, setError ''Another JammerNetz plug-in instance is already active in this host'' Source_Session p1)
                       else (let sessionConfiguration = makeSessionConfiguration env config
                             in if ec_keyPath env \<noteq> [] \<and> sf_cryptoKey sessionConfiguration = None
                                then (let (owner', p2) = release_lease me (owner, p1)
                                      in (False, owner', setError ''Could not load the configured JammerNetz key file'' Source_Session p2))
                                else (let engine1 = engine_start uninitialisedRate False (configureEngine A config (pl_engine p1));
                                          ((started, out), session1) = session_start (ec_codec env) (ec_write env) (ec_bindToPort env)
                                            (ec_firstPortOffset env) sessionConfiguration (pl_session p1);
                                          p2 = p1\<lparr>pl_processGate := 0, pl_engine := engine1, pl_session := session1\<rparr>
                                      in if \<not> started
                                         then (let (owner', p3) = release_lease me (owner, p2\<lparr>pl_engine := snd (engine_shutdown engine1)\<rparr>)
                                               in (False, owner', setError (if se_startupError session1 \<noteq> [] then se_startupError session1
                                                     else ''Could not start the JammerNetz session'') Source_Session p3))
                                         else (True, owner, clearError (p2\<lparr>pl_connected := True\<rparr>)))))))"

section \<open>Operations of the host\<close>

definition prepareToPlay :: "nat \<Rightarrow> real \<Rightarrow> int \<Rightarrow> nat option \<times> ('r, 'd, 'm) plugin \<Rightarrow> nat option \<times> ('r, 'd, 'm) plugin" where
  "prepareToPlay me sampleRate maximumExpectedSamplesPerBlock = (\<lambda>(activeOwner, p).
     (let previousSampleRate = pl_preparedSampleRate p;
          p1 = p\<lparr>pl_preparedSampleRate := sampleRate\<rparr>;
          (owner, p2) = (if pl_connected p1 \<and> 0.5 < \<bar>previousSampleRate - sampleRate\<bar>
                         then disconnectSession me (activeOwner, p1) else (activeOwner, p1));
          p3 = p2\<lparr>pl_engine := snd (prepare sampleRate (min maximumExpectedSamplesPerBlock (int JAMMERNETZ_MAX_CALLBACK_SAMPLES)) (pl_engine p2))\<rparr>
      in (owner, if \<not> rate_ok sampleRate
                 then setError ''JammerNetz currently requires a 48 kHz host sample rate'' Source_SampleRate p3
                 else clearErrorOf Source_SampleRate p3)))"

definition releaseResources :: "nat \<Rightarrow> nat option \<times> ('r, 'd, 'm) plugin \<Rightarrow> nat option \<times> ('r, 'd, 'm) plugin" where
  "releaseResources me s = (let (owner, p) = disconnectSession me s in (owner, p\<lparr>pl_engine := snd (release (pl_engine p))\<rparr>))"

definition setNonRealtime :: "nat \<Rightarrow> bool \<Rightarrow> nat option \<times> ('r, 'd, 'm) plugin \<Rightarrow> nat option \<times> ('r, 'd, 'm) plugin" where
  "setNonRealtime me shouldUseNonRealtimeMode s = (if shouldUseNonRealtimeMode then disconnectSession me s else s)"

definition setConfiguration ::
  "(string \<Rightarrow> string) \<Rightarrow> nat \<Rightarrow> plugin_configuration \<Rightarrow> nat option \<times> ('r, 'd, 'm) plugin \<Rightarrow> nat option \<times> ('r, 'd, 'm) plugin" where
  "setConfiguration trim me configuration = (\<lambda>(activeOwner, p).
     (let (owner, p1) = (if pl_connected p then disconnectSession me (activeOwner, p) else (activeOwner, p));
          clean = sanitise trim configuration
      in (owner, p1\<lparr>pl_configuration := clean, pl_dryGain := pc_dryGain clean, pl_localPassthrough := pc_localPassthrough clean\<rparr>)))"

definition getStateInformation :: "('b, 'v) tree_codec \<Rightarrow> ('r, 'd, 'm) plugin \<Rightarrow> 'b" where
  "getStateInformation t p = tc_write t plugin_stateType (state_properties (pl_configuration p))"

definition setStateInformation ::
  "(string \<Rightarrow> string) \<Rightarrow> ('b, 'v) tree_codec \<Rightarrow> nat \<Rightarrow> 'b \<Rightarrow> nat option \<times> ('r, 'd, 'm) plugin \<Rightarrow> nat option \<times> ('r, 'd, 'm) plugin" where
  "setStateInformation trim t me data s =
     (case tc_read t data of
        None \<Rightarrow> s
      | Some (type, state) \<Rightarrow>
          if type \<noteq> plugin_stateType then s else setConfiguration trim me (configuration_of_state t state) s)"

definition isReceivingAudio :: "('r, 'd, 'm) plugin \<Rightarrow> bool" where
  "isReceivingAudio p \<longleftrightarrow> pl_connected p \<and> session_isReceivingData (pl_session p)"

text \<open>The text that describes the reception is a parameter.\<close>

definition statusText :: "('r, 'd, 'm) plugin \<Rightarrow> string \<Rightarrow> string" where
  "statusText p reception =
     (if pl_error p \<noteq> [] then pl_error p
      else if \<not> pl_connected p then ''Disconnected''
      else if \<not> session_isReceivingData (pl_session p) then ''Connected; waiting for server audio''
      else reception)"

section \<open>The audio block\<close>

definition closingMask :: u32 where "closingMask = 0x80000000"

definition processCountMask :: u32 where "processCountMask = 0x7FFFFFFF"

definition gate_open :: "u32 \<Rightarrow> bool" where
  "gate_open state \<longleftrightarrow> state AND closingMask = 0 \<and> state AND processCountMask \<noteq> processCountMask"

text \<open>Entering and leaving without interference; the interleaving with the message thread is in \<open>Plugin_Gate\<close>.\<close>

definition enterProcess :: "('r, 'd, 'm) plugin \<Rightarrow> bool \<times> ('r, 'd, 'm) plugin" where
  "enterProcess p =
     (if \<not> pl_connected p \<or> \<not> gate_open (pl_processGate p) then (False, p)
      else (True, p\<lparr>pl_processGate := pl_processGate p + 1\<rparr>))"

definition leaveProcess :: "('r, 'd, 'm) plugin \<Rightarrow> ('r, 'd, 'm) plugin" where
  "leaveProcess p = p\<lparr>pl_processGate := pl_processGate p - 1\<rparr>"

text \<open>The rows of the engine's output; it writes both of them whenever it is called with some samples.\<close>

definition engine_rows :: "nat \<Rightarrow> real list option list option \<Rightarrow> real list list" where
  "engine_rows n out = (case out of None \<Rightarrow> replicate 2 (replicate n 0) | Some rows \<Rightarrow> map (\<lambda>r. case r of Some x \<Rightarrow> x | None \<Rightarrow> replicate n 0) rows)"

text \<open>What a chunk of the host's buffer becomes: the dry signal, or silence, and the remote audio.\<close>

definition mix_rows ::
  "(real \<Rightarrow> real \<Rightarrow> real \<Rightarrow> real) \<Rightarrow> bool \<Rightarrow> real \<Rightarrow> real list list \<Rightarrow> real list list \<Rightarrow> real list list" where
  "mix_rows mac localPassthrough dryGain dry remote =
     map2 (map2 (\<lambda>d s. mac d s 1)) (map (map (\<lambda>x. if localPassthrough then x * dryGain else 0)) dry) remote"

record block_env =
  be_chunk :: "nat \<Rightarrow> chunk_env"
  be_start :: timepoint
  be_end :: timepoint
  be_receiving :: bool

text \<open>
  The loop over chunks of at most 8192 samples; it gives the two processed rows. Whether data arrives is
  asked after every chunk.
\<close>

function plugin_chunks ::
  "'r ring_api \<Rightarrow> 'm meter_api \<Rightarrow> (real \<Rightarrow> real \<Rightarrow> real \<Rightarrow> real) \<Rightarrow> (nat \<Rightarrow> block_env) \<Rightarrow> bool \<Rightarrow> real
    \<Rightarrow> real list list \<Rightarrow> nat \<Rightarrow> nat \<Rightarrow> ('r, 'd, 'm) engine \<Rightarrow> real list list \<times> ('r, 'd, 'm) engine" where
  "plugin_chunks A L mac env localPassthrough dryGain buffer samples offset e =
     (if \<not> offset < samples then (replicate 2 [], e)
      else (let block = min JAMMERNETZ_MAX_CALLBACK_SAMPLES (samples - offset);
                b = env offset;
                dry = map (\<lambda>row. take block (drop offset row)) (take 2 buffer);
                ((out, taps), e1) = process A L mac (be_chunk b) (be_start b) (be_end b) (map Some dry)
                   (Some [True, True]) (int block) e;
                rows = (if be_receiving b then mix_rows mac localPassthrough dryGain dry (engine_rows block out) else dry);
                (rows', e2) = plugin_chunks A L mac env localPassthrough dryGain buffer samples
                   (offset + JAMMERNETZ_MAX_CALLBACK_SAMPLES) e1
            in (map2 (@) rows rows', e2)))"
  by auto
termination
  by (relation "measure (\<lambda>(A, L, mac, env, localPassthrough, dryGain, buffer, samples, offset, e). samples - offset)")
    (auto simp: JAMMERNETZ_MAX_CALLBACK_SAMPLES_def)

declare plugin_chunks.simps [simp del]

text \<open>
  The block of the host: its channels, all of the same length. The play head may report a tempo; the
  time of its report is the last argument but three.
\<close>

definition processBlock ::
  "'r ring_api \<Rightarrow> 'm meter_api \<Rightarrow> (real \<Rightarrow> real \<Rightarrow> real \<Rightarrow> real) \<Rightarrow> (nat \<Rightarrow> block_env) \<Rightarrow> bool \<Rightarrow> fl option \<Rightarrow> timepoint
    \<Rightarrow> nat \<Rightarrow> real list list \<Rightarrow> ('r, 'd, 'm) plugin \<Rightarrow> real list list \<times> ('r, 'd, 'm) plugin" where
  "processBlock A L mac env nonRealtime bpm now samples buffer p =
     (if nonRealtime \<or> length buffer < 2 then (buffer, p)
      else (let (entered, p1) = enterProcess p
            in if \<not> entered then (buffer, p1)
               else (let e1 = (case bpm of None \<Rightarrow> pl_engine p1 | Some b \<Rightarrow> setClientBpm now b (pl_engine p1));
                         (rows, e2) = plugin_chunks A L mac env (pl_localPassthrough p1) (pl_dryGain p1) buffer samples 0 e1
                     in (rows @ drop 2 buffer, leaveProcess (p1\<lparr>pl_engine := e2\<rparr>)))))"

definition processBlockBypassed :: "real list list \<Rightarrow> ('r, 'd, 'm) plugin \<Rightarrow> real list list \<times> ('r, 'd, 'm) plugin" where
  "processBlockBypassed buffer p = (buffer, p)"

end
