(* ===== verification/Plugin_Gate.thy ===== *)
theory Plugin_Gate
  imports Plugin_Processor Engine_Handshakes
begin

text \<open>
  The gate of the plug-in between the host's audio thread and its message thread: \<open>enterProcess\<close>,
  \<open>leaveProcess\<close>, \<open>connectSession\<close> and \<open>disconnectSession\<close> of
  \<open>Plugin/Source/JammerNetzPluginProcessor.cpp\<close>, as steps of single atomic accesses. A host calls
  \<open>processBlock\<close> of an instance from one thread at a time.
\<close>

section \<open>Steps\<close>

datatype audio_pc = Au_Idle | Au_Checked | Au_Loaded u32 | Au_Incremented | Au_Inside | Au_Leaving

datatype message_pc = Ms_Idle | Ms_Opening | Ms_Closing | Ms_Waiting | Ms_Releasing

record gate_state =
  gt_connected :: bool
  gt_gate :: u32
  gt_audio :: audio_pc
  gt_message :: message_pc

definition gate_start :: gate_state where
  "gate_start = \<lparr>gt_connected = False, gt_gate = 0, gt_audio = Au_Idle, gt_message = Ms_Idle\<rparr>"

text \<open>
  A weak exchange may fail although the value is the expected one; it then loads the value again.
  The session and the engine are shut down in \<open>Ms_Releasing\<close>.
\<close>

inductive gate_step :: "gate_state \<Rightarrow> gate_state \<Rightarrow> bool" where
  gate_check: "\<lbrakk>gt_audio s = Au_Idle; gt_connected s\<rbrakk> \<Longrightarrow> gate_step s (s\<lparr>gt_audio := Au_Checked\<rparr>)"
| gate_load: "gt_audio s = Au_Checked \<Longrightarrow> gate_step s (s\<lparr>gt_audio := Au_Loaded (gt_gate s)\<rparr>)"
| gate_refuse: "\<lbrakk>gt_audio s = Au_Loaded v; \<not> gate_open v\<rbrakk> \<Longrightarrow> gate_step s (s\<lparr>gt_audio := Au_Idle\<rparr>)"
| gate_fail: "\<lbrakk>gt_audio s = Au_Loaded v; gate_open v\<rbrakk> \<Longrightarrow> gate_step s (s\<lparr>gt_audio := Au_Loaded (gt_gate s)\<rparr>)"
| gate_increment: "\<lbrakk>gt_audio s = Au_Loaded v; gate_open v; gt_gate s = v\<rbrakk> \<Longrightarrow>
    gate_step s (s\<lparr>gt_gate := v + 1, gt_audio := Au_Incremented\<rparr>)"
| gate_enter: "\<lbrakk>gt_audio s = Au_Incremented; gt_connected s\<rbrakk> \<Longrightarrow> gate_step s (s\<lparr>gt_audio := Au_Inside\<rparr>)"
| gate_withdraw: "\<lbrakk>gt_audio s = Au_Incremented; \<not> gt_connected s\<rbrakk> \<Longrightarrow> gate_step s (s\<lparr>gt_audio := Au_Leaving\<rparr>)"
| gate_done: "gt_audio s = Au_Inside \<Longrightarrow> gate_step s (s\<lparr>gt_audio := Au_Leaving\<rparr>)"
| gate_leave: "gt_audio s = Au_Leaving \<Longrightarrow> gate_step s (s\<lparr>gt_gate := gt_gate s - 1, gt_audio := Au_Idle\<rparr>)"
| gate_reset: "\<lbrakk>gt_message s = Ms_Idle; \<not> gt_connected s\<rbrakk> \<Longrightarrow> gate_step s (s\<lparr>gt_gate := 0, gt_message := Ms_Opening\<rparr>)"
| gate_connect: "gt_message s = Ms_Opening \<Longrightarrow> gate_step s (s\<lparr>gt_connected := True, gt_message := Ms_Idle\<rparr>)"
| gate_not_started: "gt_message s = Ms_Opening \<Longrightarrow> gate_step s (s\<lparr>gt_message := Ms_Idle\<rparr>)"
| gate_disconnect: "gt_message s = Ms_Idle \<Longrightarrow> gate_step s (s\<lparr>gt_connected := False, gt_message := Ms_Closing\<rparr>)"
| gate_close: "gt_message s = Ms_Closing \<Longrightarrow> gate_step s (s\<lparr>gt_gate := gt_gate s OR closingMask, gt_message := Ms_Waiting\<rparr>)"
| gate_waited: "\<lbrakk>gt_message s = Ms_Waiting; gt_gate s AND processCountMask = 0\<rbrakk> \<Longrightarrow> gate_step s (s\<lparr>gt_message := Ms_Releasing\<rparr>)"
| gate_released: "gt_message s = Ms_Releasing \<Longrightarrow> gate_step s (s\<lparr>gt_gate := 0, gt_message := Ms_Idle\<rparr>)"

text \<open>A run in which \<open>connectSession\<close> does not reset the gate while the audio thread is counted.\<close>

fun audio_counted :: "audio_pc \<Rightarrow> bool" where
  "audio_counted Au_Incremented = True"
| "audio_counted Au_Inside = True"
| "audio_counted Au_Leaving = True"
| "audio_counted _ = False"

definition calm_step :: "gate_state \<Rightarrow> gate_state \<Rightarrow> bool" where
  "calm_step s t = (gate_step s t \<and> (gt_message t = Ms_Opening \<longrightarrow> gt_message s = Ms_Opening \<or> \<not> audio_counted (gt_audio s)))"

section \<open>Invariant\<close>

fun message_closing :: "message_pc \<Rightarrow> bool" where
  "message_closing Ms_Waiting = True"
| "message_closing Ms_Releasing = True"
| "message_closing _ = False"

definition gate_value :: "bool \<Rightarrow> bool \<Rightarrow> u32" where
  "gate_value closing counts = (if closing then closingMask else 0) + (if counts then 1 else 0)"

definition gate_inv :: "gate_state \<Rightarrow> bool" where
  "gate_inv s =
     (gt_gate s = gate_value (message_closing (gt_message s)) (audio_counted (gt_audio s))
      \<and> (gt_message s = Ms_Releasing \<longrightarrow> \<not> audio_counted (gt_audio s))
      \<and> (gt_message s \<in> {Ms_Opening, Ms_Closing, Ms_Waiting, Ms_Releasing} \<longrightarrow> \<not> gt_connected s)
      \<and> (gt_audio s = Au_Inside \<longrightarrow> gt_connected s \<or> gt_message s \<in> {Ms_Closing, Ms_Waiting}))"

lemma gate_value_simps [simp]:
  "gate_value False False = 0"
  "gate_value c True - 1 = gate_value c False"
  "gate_value c False + 1 = gate_value c True"
  "gate_value False n OR closingMask = gate_value True n"
  "gate_value c n AND processCountMask = 0 \<longleftrightarrow> \<not> n"
  "gate_open (gate_value c n) \<longleftrightarrow> \<not> c"
  by (auto simp: gate_value_def closingMask_def processCountMask_def gate_open_def)

interpretation gate: invariant_system gate_start calm_step gate_inv
proof unfold_locales
  show "gate_inv gate_start" by (simp add: gate_inv_def gate_start_def)
next
  fix s t assume "calm_step s t" and inv: "gate_inv s"
  then have "gate_step s t" and calm: "gt_message t = Ms_Opening \<Longrightarrow> gt_message s = Ms_Opening \<or> \<not> audio_counted (gt_audio s)"
    by (auto simp: calm_step_def)
  from this(1) show "gate_inv t"
    by cases (use inv calm in \<open>auto simp: gate_inv_def\<close>)
qed


text \<open>The audio thread has been counted when the message thread closes the gate, and withdraws.\<close>

lemma gate_closing_reachable:
  "calm_step\<^sup>*\<^sup>* gate_start \<lparr>gt_connected = False, gt_gate = closingMask, gt_audio = Au_Idle, gt_message = Ms_Waiting\<rparr>"
proof -
  have run: "\<lbrakk>gate_step s t; gt_message t \<noteq> Ms_Opening \<or> \<not> audio_counted (gt_audio s); calm_step\<^sup>*\<^sup>* t u\<rbrakk> \<Longrightarrow> calm_step\<^sup>*\<^sup>* s u" for s t u
    by (rule converse_rtranclp_into_rtranclp [of _ s t]) (auto simp: calm_step_def)
  show ?thesis
    unfolding gate_start_def
    by (rule run, rule gate_reset, simp_all, rule run, rule gate_connect, simp_all, rule run, rule gate_check, simp_all,
        rule run, rule gate_load, simp_all, rule run, rule gate_increment, simp_all add: gate_open_def processCountMask_def,
        rule run, rule gate_disconnect, simp_all, rule run, rule gate_withdraw, simp_all,
        rule run, rule gate_close, simp_all, rule run, rule gate_leave, simp_all add: closingMask_def)
qed


text \<open>
  The gate does not protect the shutdown in every interleaving: when the audio thread has loaded the gate
  and the plug-in is disconnected and connected again before it counts itself and checks the connection, the reset in
  \<open>connectSession\<close> takes its count away, and the next \<open>disconnectSession\<close> does not wait for it.
\<close>

lemma gate_reset_race: "\<exists>s. gate_step\<^sup>*\<^sup>* gate_start s \<and> gt_message s = Ms_Releasing \<and> gt_audio s = Au_Inside"
proof -
  note run = converse_rtranclp_into_rtranclp [of gate_step]
  have "gate_step\<^sup>*\<^sup>* gate_start \<lparr>gt_connected = False, gt_gate = 0, gt_audio = Au_Incremented, gt_message = Ms_Opening\<rparr>"
    unfolding gate_start_def
    by (rule run, rule gate_reset, simp_all, rule run, rule gate_connect, simp_all, rule run, rule gate_check, simp_all,
        rule run, rule gate_load, simp_all, rule run, rule gate_disconnect, simp_all, rule run, rule gate_close, simp_all,
        rule run, rule gate_waited, simp_all add: closingMask_def processCountMask_def, rule run, rule gate_released, simp_all,
        rule run, rule gate_increment, simp_all add: gate_open_def processCountMask_def, rule run, rule gate_reset, simp_all)
  moreover have "gate_step\<^sup>*\<^sup>* \<lparr>gt_connected = False, gt_gate = 0, gt_audio = Au_Incremented, gt_message = Ms_Opening\<rparr>
      \<lparr>gt_connected = False, gt_gate = closingMask, gt_audio = Au_Inside, gt_message = Ms_Releasing\<rparr>"
    by (rule run, rule gate_connect, simp_all, rule run, rule gate_enter, simp_all, rule run, rule gate_disconnect, simp_all,
        rule run, rule gate_close, simp_all, rule run, rule gate_waited, simp_all add: closingMask_def processCountMask_def)
  ultimately have "gate_step\<^sup>*\<^sup>* gate_start \<lparr>gt_connected = False, gt_gate = closingMask, gt_audio = Au_Inside, gt_message = Ms_Releasing\<rparr>"
    by (rule rtranclp_trans)
  then show ?thesis by fastforce
qed

end
