(* ===== verification/Plugin_Props.thy ===== *)
theory Plugin_Props
  imports Plugin_Processor Wire_Format_Props
begin

text \<open>
  The instances of the plug-in in one host: whatever the host and the user do with them, what is
  connected, started, available and leased agrees; and the saved state of an instance.
\<close>

section \<open>Frames\<close>

named_theorems plugin_frame \<open>fields that an operation leaves alone\<close>

lemma engine_started_frames [plugin_frame]:
  "en_started (snd (engine_shutdown e)) = False"
  "en_started (configureEngine A c e) = en_started e"
  "en_started (snd (prepare rate n e)) = en_started e"
  "en_started (snd (release e)) = en_started e"
  "en_started (engine_start r b e)"
  "en_shutdownRequested (snd (prepare rate n e)) = en_shutdownRequested e"
  "en_shutdownRequested (snd (release e)) = en_shutdownRequested e"
  by (simp_all add: engine_shutdown_def retireMidiSender_def configureEngine_def newServer_def split_beta
      setPlayoutBufferRange_def setMasterVolume_def setMonitorBalance_def setLocalMonitoring_def
      engine_setChannelSetup_def prepare_def release_def engine_start_def Let_def split: option.splits)

lemma engine_start_open [plugin_frame]: "\<not> en_started e \<Longrightarrow> \<not> en_shutdownRequested (engine_start r b e)"
  by (simp add: engine_start_def Let_def)

lemma session_shutdown_frames [plugin_frame]:
  "se_shutdown (session_shutdown s)"
  "\<not> session_isAvailable (session_shutdown s)"
  by (simp_all add: session_shutdown_def session_isAvailable_def)

lemma updateConfiguration_frames [plugin_frame]:
  "se_shutdown (snd (updateConfiguration k write c s)) = se_shutdown s"
  "se_sender (snd (updateConfiguration k write c s)) = None \<longleftrightarrow> se_sender s = None"
  "se_receiver (snd (updateConfiguration k write c s)) = None \<longleftrightarrow> se_receiver s = None"
  "(\<exists>x. se_sender (snd (updateConfiguration k write c s)) = Some x) \<longleftrightarrow> (\<exists>x. se_sender s = Some x)"
  "(\<exists>x. se_receiver (snd (updateConfiguration k write c s)) = Some x) \<longleftrightarrow> (\<exists>x. se_receiver s = Some x)"
  by (auto simp: updateConfiguration_def Let_def split_beta split: option.splits)

lemma session_start_frames [plugin_frame]:
  assumes "se_shutdown s"
  shows "se_shutdown (snd (session_start k write bind n c s)) \<longleftrightarrow> \<not> fst (fst (session_start k write bind n c s))"
    and "session_isAvailable (snd (session_start k write bind n c s)) \<longleftrightarrow> fst (fst (session_start k write bind n c s))"
  using assms
  by (simp_all add: session_start_def session_isAvailable_def plugin_frame split_beta Let_def split: option.splits)

section \<open>One instance\<close>

definition plugin_ok :: "nat \<Rightarrow> nat option \<Rightarrow> ('r, 'd, 'm) plugin \<Rightarrow> bool" where
  "plugin_ok i owner p =
     ((pl_ownsLease p \<longleftrightarrow> owner = Some i) \<and> (pl_connected p \<longleftrightarrow> pl_ownsLease p)
      \<and> (en_started (pl_engine p) \<longleftrightarrow> pl_connected p) \<and> (pl_connected p \<longrightarrow> \<not> en_shutdownRequested (pl_engine p))
      \<and> (session_isAvailable (pl_session p) \<longleftrightarrow> pl_connected p) \<and> (se_shutdown (pl_session p) \<longleftrightarrow> \<not> pl_connected p))"

text \<open>What an operation of instance \<open>i\<close> may do to the lease of the process.\<close>

definition lease_moves :: "nat \<Rightarrow> nat option \<Rightarrow> nat option \<Rightarrow> bool" where
  "lease_moves i owner owner' \<longleftrightarrow> (\<forall>j. j \<noteq> i \<longrightarrow> (owner' = Some j) = (owner = Some j))"

definition keeps_ok :: "nat \<Rightarrow> nat option \<times> ('r, 'd, 'm) plugin \<Rightarrow> nat option \<times> ('r, 'd, 'm) plugin \<Rightarrow> bool" where
  "keeps_ok i s t \<longleftrightarrow> (plugin_ok i (fst s) (snd s) \<longrightarrow> plugin_ok i (fst t) (snd t) \<and> lease_moves i (fst s) (fst t))"

lemma keeps_ok_trans: "\<lbrakk>keeps_ok i s t; keeps_ok i t u\<rbrakk> \<Longrightarrow> keeps_ok i s u"
  by (auto simp: keeps_ok_def lease_moves_def)

lemma plugin_ok_error [simp]:
  "plugin_ok i owner (setError error source p) = plugin_ok i owner p"
  "plugin_ok i owner (clearError p) = plugin_ok i owner p"
  "plugin_ok i owner (clearErrorOf source p) = plugin_ok i owner p"
  by (simp_all add: plugin_ok_def setError_def clearError_def clearErrorOf_def)

lemma plugin_ok_settings [simp]:
  "plugin_ok i owner (p\<lparr>pl_preparedSampleRate := rate\<rparr>) = plugin_ok i owner p"
  "plugin_ok i owner (p\<lparr>pl_configuration := c, pl_dryGain := d, pl_localPassthrough := l\<rparr>) = plugin_ok i owner p"
  "plugin_ok i owner (p\<lparr>pl_engine := snd (prepare rate n (pl_engine p))\<rparr>) = plugin_ok i owner p"
  "plugin_ok i owner (p\<lparr>pl_engine := snd (release (pl_engine p))\<rparr>) = plugin_ok i owner p"
  by (simp_all add: plugin_ok_def plugin_frame)

lemma disconnect_keeps: "keeps_ok i s (disconnectSession i s)"
  by (cases s) (auto simp: keeps_ok_def disconnectSession_def release_lease_def lease_release_def plugin_ok_def
      lease_moves_def plugin_frame)

lemma keeps_okI:
  "\<lbrakk>keeps_ok i s t; fst u = fst t; plugin_ok i (fst t) (snd u) = plugin_ok i (fst t) (snd t)\<rbrakk> \<Longrightarrow> keeps_ok i s u"
  by (simp add: keeps_ok_def)

lemma keeps_ok_refl: "keeps_ok i s s"
  by (simp add: keeps_ok_def lease_moves_def)

lemma releaseResources_keeps: "keeps_ok i s (releaseResources i s)"
  by (rule keeps_okI [OF disconnect_keeps]) (simp_all add: releaseResources_def split_beta)

lemma setNonRealtime_keeps: "keeps_ok i s (setNonRealtime i b s)"
  by (simp add: setNonRealtime_def disconnect_keeps keeps_ok_refl)

lemma setConfiguration_keeps: "keeps_ok i s (setConfiguration trim i c s)"
proof (cases "pl_connected (snd s)")
  case True
  then show ?thesis
    by (intro keeps_okI [OF disconnect_keeps]) (cases s; simp add: setConfiguration_def split_beta Let_def)+
next
  case False
  then show ?thesis
    by (intro keeps_okI [OF keeps_ok_refl]) (cases s; simp add: setConfiguration_def split_beta Let_def)+
qed

lemma setStateInformation_keeps: "keeps_ok i s (setStateInformation trim t i data s)"
  by (auto simp: setStateInformation_def setConfiguration_keeps keeps_ok_refl split: option.splits)

lemma prepareToPlay_keeps: "keeps_ok i s (prepareToPlay i rate n s)"
proof (cases s)
  case (Pair owner p)
  let ?s = "(owner, p\<lparr>pl_preparedSampleRate := rate\<rparr>)"
  let ?t = "if pl_connected p \<and> 0.5 < \<bar>pl_preparedSampleRate p - rate\<bar> then disconnectSession i ?s else ?s"
  have "keeps_ok i s ?s" by (rule keeps_okI [OF keeps_ok_refl]) (simp_all add: Pair)
  moreover have "keeps_ok i ?s ?t" by (simp add: disconnect_keeps keeps_ok_refl)
  ultimately have t: "keeps_ok i s ?t" by (rule keeps_ok_trans)
  have "prepareToPlay i rate n s = (fst ?t,
      let p3 = (snd ?t)\<lparr>pl_engine := snd (prepare rate (min n (int JAMMERNETZ_MAX_CALLBACK_SAMPLES)) (pl_engine (snd ?t)))\<rparr>
      in if \<not> rate_ok rate then setError ''JammerNetz currently requires a 48 kHz host sample rate'' Source_SampleRate p3
         else clearErrorOf Source_SampleRate p3)"
    unfolding Pair prepareToPlay_def by (simp add: split_beta Let_def)
  then show ?thesis by (intro keeps_okI [OF t]) (simp_all add: Let_def del: split_paired_All)
qed

text \<open>The states that \<open>connectSession\<close> ends in when the instance was not connected.\<close>

lemma connectSession_cases:
  assumes ok: "plugin_ok i owner p" and "\<not> pl_connected p"
  obtains (refused) error source where "error \<noteq> []" "connectSession A r env i (owner, p) = (False, owner, setError error source p)"
  | (no_key) error where "error \<noteq> []" "owner = None"
      "connectSession A r env i (owner, p) = (False, None, setError error Source_Session p)"
  | (not_started) error session e where "error \<noteq> []" "owner = None" "se_shutdown session" "\<not> session_isAvailable session"
      "connectSession A r env i (owner, p) = (False, None,
         setError error Source_Session (p\<lparr>pl_processGate := 0, pl_engine := snd (engine_shutdown e), pl_session := session\<rparr>))"
  | (connected) session e where "owner = None" "rate_ok (pl_preparedSampleRate p)" "en_started e" "\<not> en_shutdownRequested e"
      "\<not> se_shutdown session" "session_isAvailable session"
      "connectSession A r env i (owner, p) = (True, Some i,
         clearError (p\<lparr>pl_ownsLease := True, pl_processGate := 0, pl_engine := e, pl_session := session, pl_connected := True\<rparr>))"
proof -
  let ?c = "pl_configuration p"
  let ?conf = "makeSessionConfiguration env ?c"
  let ?e = "engine_start r False (configureEngine A ?c (pl_engine p))"
  let ?st = "session_start (ec_codec env) (ec_write env) (ec_bindToPort env) (ec_firstPortOffset env) ?conf (pl_session p)"
  have free: "\<not> pl_ownsLease p" "se_shutdown (pl_session p)" "\<not> en_started (pl_engine p)"
    using assms by (auto simp: plugin_ok_def)
  have same: "p\<lparr>pl_ownsLease := False\<rparr> = p" using free by (cases p) simp
  have same_failed: "p\<lparr>pl_processGate := 0, pl_session := s, pl_engine := e, pl_ownsLease := False\<rparr>
      = p\<lparr>pl_processGate := 0, pl_engine := e, pl_session := s\<rparr>" for s e
    using free by (cases p) simp
  note start = session_start_frames [OF free(2), of "ec_codec env" "ec_write env" "ec_bindToPort env" "ec_firstPortOffset env" ?conf]
  note step = connectSession_def lease_acquire_def release_lease_def lease_release_def
  consider (rate) "\<not> rate_ok (pl_preparedSampleRate p)"
    | (server) "rate_ok (pl_preparedSampleRate p)" "\<not> pc_useLocalhost ?c \<and> pc_serverName ?c = []"
    | (lease) "rate_ok (pl_preparedSampleRate p)" "\<not> (\<not> pc_useLocalhost ?c \<and> pc_serverName ?c = [])" "owner \<noteq> None"
    | (go) "rate_ok (pl_preparedSampleRate p)" "\<not> (\<not> pc_useLocalhost ?c \<and> pc_serverName ?c = [])" "owner = None"
    by blast
  then show thesis
  proof cases
    case rate
    then show thesis using assms(2)
      by (intro refused [of "''Set the host project to 48 kHz before connecting''" Source_SampleRate]) (simp_all add: step)
  next
    case server
    then show thesis using assms(2)
      by (intro refused [of "''Enter a JammerNetz server before connecting''" Source_Session]) (simp_all add: step Let_def)
  next
    case lease
    then show thesis using assms(2) free
      by (intro refused [of "''Another JammerNetz plug-in instance is already active in this host''" Source_Session])
        (auto simp: step same Let_def)
  next
    case go
    show thesis
    proof (cases "ec_keyPath env \<noteq> [] \<and> sf_cryptoKey ?conf = None")
      case True
      then show thesis using go assms(2) free same 
        by (intro no_key [of "''Could not load the configured JammerNetz key file''"]) (auto simp: step same Let_def)
    next
      case key: False
      show thesis
      proof (cases "fst (fst ?st)")
        case True
        with key go assms(2) free start show thesis
          by (intro connected [of ?e "snd ?st"]) (auto simp: step plugin_frame Let_def split_beta)
      next
        case False
        with key go assms(2) free start show thesis
          by (intro not_started [of "if se_startupError (snd ?st) \<noteq> [] then se_startupError (snd ?st)
                else ''Could not start the JammerNetz session''" "snd ?st" ?e])
            (auto simp: step same_failed plugin_frame Let_def split_beta)
      qed
    qed
  qed
qed

lemma connectSession_keeps: "keeps_ok i s (snd (connectSession A r env i s))"
proof (cases s)
  case (Pair owner p)
  show ?thesis
  proof (cases "pl_connected p \<or> \<not> plugin_ok i owner p")
    case True
    then show ?thesis by (auto simp: Pair connectSession_def keeps_ok_def lease_moves_def)
  next
    case False
    then have "plugin_ok i owner p" "\<not> pl_connected p" by auto
    then show ?thesis
      by (cases rule: connectSession_cases [where A = A and r = r and env = env])
        (auto simp: Pair keeps_ok_def lease_moves_def plugin_ok_def setError_def clearError_def plugin_frame)
  qed
qed

section \<open>The instances of a host\<close>

datatype ('b, 'v) host_op =
  Prepare_To_Play real int | Release_Resources | Set_Non_Realtime bool | Set_Configuration plugin_configuration
| Restore_State 'b | Connect connect_env | Disconnect

type_synonym ('r, 'd, 'm) plugin_host = "nat option \<times> ('r, 'd, 'm) plugin list"

fun host_perform ::
  "'r ring_api \<Rightarrow> int \<Rightarrow> (string \<Rightarrow> string) \<Rightarrow> ('b, 'v) tree_codec \<Rightarrow> nat \<Rightarrow> ('b, 'v) host_op
    \<Rightarrow> nat option \<times> ('r, 'd, 'm) plugin \<Rightarrow> nat option \<times> ('r, 'd, 'm) plugin" where
  "host_perform A r trim t i (Prepare_To_Play rate n) s = prepareToPlay i rate n s"
| "host_perform A r trim t i Release_Resources s = releaseResources i s"
| "host_perform A r trim t i (Set_Non_Realtime b) s = setNonRealtime i b s"
| "host_perform A r trim t i (Set_Configuration c) s = setConfiguration trim i c s"
| "host_perform A r trim t i (Restore_State data) s = setStateInformation trim t i data s"
| "host_perform A r trim t i (Connect env) s = snd (connectSession A r env i s)"
| "host_perform A r trim t i Disconnect s = disconnectSession i s"

definition host_step ::
  "'r ring_api \<Rightarrow> int \<Rightarrow> (string \<Rightarrow> string) \<Rightarrow> ('b, 'v) tree_codec \<Rightarrow> nat \<times> ('b, 'v) host_op
    \<Rightarrow> ('r, 'd, 'm) plugin_host \<Rightarrow> ('r, 'd, 'm) plugin_host" where
  "host_step A r trim t = (\<lambda>(i, op) (owner, plugins).
     if i < length plugins
     then (let (owner', p) = host_perform A r trim t i op (owner, plugins ! i) in (owner', plugins[i := p]))
     else (owner, plugins))"

lemma host_perform_keeps: "keeps_ok i s (host_perform A r trim t i op s)"
  by (cases op) (simp_all add: prepareToPlay_keeps releaseResources_keeps setNonRealtime_keeps setConfiguration_keeps
      setStateInformation_keeps connectSession_keeps disconnect_keeps)

definition host_ok :: "('r, 'd, 'm) plugin_host \<Rightarrow> bool" where
  "host_ok = (\<lambda>(owner, plugins). \<forall>i < length plugins. plugin_ok i owner (plugins ! i))"

lemma plugin_ok_other: "\<lbrakk>plugin_ok j owner p; lease_moves i owner owner'; j \<noteq> i\<rbrakk> \<Longrightarrow> plugin_ok j owner' p"
  by (simp add: plugin_ok_def lease_moves_def)

lemma host_step_ok: "host_ok h \<Longrightarrow> host_ok (host_step A r trim t (i, op) h)"
  using host_perform_keeps [of i "(fst h, snd h ! i)" A r trim t op]
  by (auto simp: host_ok_def host_step_def keeps_ok_def nth_list_update split_beta Let_def intro: plugin_ok_other)

definition host_run ::
  "'r ring_api \<Rightarrow> int \<Rightarrow> (string \<Rightarrow> string) \<Rightarrow> ('b, 'v) tree_codec \<Rightarrow> nat \<Rightarrow> 'm \<Rightarrow> 'm \<Rightarrow> (nat \<times> ('b, 'v) host_op) list
    \<Rightarrow> ('r, 'd, 'm) plugin_host" where
  "host_run A r trim t n meter transmitMeter ops =
     fold (host_step A r trim t) ops (None, replicate n (plugin_new (engine_new A meter transmitMeter)))"

lemma host_run_ok: "host_ok (host_run A r trim t n meter transmitMeter ops)"
proof (induction ops rule: rev_induct)
  case Nil
  show ?case
    by (simp add: host_run_def host_ok_def plugin_ok_def plugin_new_def engine_new_def session_new_def session_isAvailable_def)
next
  case (snoc op ops)
  then show ?case by (cases op) (simp add: host_run_def host_step_ok)
qed

text \<open>
  C35: Whatever a host and its user do with any number of instances of the plug-in, at most one is
  connected; and an instance is connected exactly when it holds the lease, its session is available, and
  its engine is started and processes audio.
\<close>
theorem one_instance_is_connected:
  assumes "host_run A r trim t n meter transmitMeter ops = (owner, plugins)" "i < length plugins"
  shows "(\<forall>j < length plugins. pl_connected (plugins ! i) \<and> pl_connected (plugins ! j) \<longrightarrow> i = j)
    \<and> (pl_connected (plugins ! i) \<longleftrightarrow> owner = Some i)
    \<and> (pl_connected (plugins ! i) \<longleftrightarrow> session_isAvailable (pl_session (plugins ! i)))
    \<and> (pl_connected (plugins ! i) \<longleftrightarrow> en_started (pl_engine (plugins ! i)) \<and> \<not> en_shutdownRequested (pl_engine (plugins ! i)))"
proof -
  have "host_ok (owner, plugins)" unfolding assms(1) [symmetric] by (rule host_run_ok)
  with assms(2) show ?thesis by (auto simp: host_ok_def plugin_ok_def)
qed

text \<open>Two instances; the second one wants to connect while the first one is connected.\<close>

definition local_configuration :: plugin_configuration where
  "local_configuration = plugin_configuration_new\<lparr>pc_useLocalhost := True\<rparr>"

definition two_ops :: "connect_env \<Rightarrow> (nat \<times> (unit, unit) host_op) list" where
  "two_ops env = [(0, Prepare_To_Play 48000 512), (0, Set_Configuration local_configuration), (0, Connect env),
     (1, Prepare_To_Play 48000 512), (1, Set_Configuration local_configuration), (1, Connect env)]"

definition no_states :: "(unit, unit) tree_codec" where
  "no_states = \<lparr>tc_write = \<lambda>_ _. (), tc_read = \<lambda>_. None, tc_int = \<lambda>_. 0, tc_real = \<lambda>_. 0, tc_bool = \<lambda>_. False,
     tc_string = \<lambda>_. []\<rparr>"

lemma session_start_succeeds:
  assumes "se_shutdown s"
  shows "fst (fst (session_start k write (\<lambda>_. True) n c s))"
proof -
  have "bind_port (\<lambda>_. True) n 64 0 = Some (8888 + int (n mod 64))"
    using bind_port.simps(2) [of "\<lambda>_. True" n 63 0] by (simp add: Let_def)
  with assms show ?thesis by (simp add: session_start_def split_beta)
qed

lemma two_run:
  assumes "ec_keyPath env = []" "ec_bindToPort env = (\<lambda>_. True)"
  shows "pl_connected (snd (host_run A r trim no_states 2 meter transmitMeter (two_ops env)) ! 0)"
    and "length (snd (host_run A r trim no_states 2 meter transmitMeter (two_ops env))) = 2"
  using assms
  by (simp_all add: host_run_def two_ops_def host_step_def prepareToPlay_def setConfiguration_def rate_ok_def SAMPLE_RATE_def
      clearErrorOf_def local_configuration_def plugin_new_def sanitise_def plugin_configuration_new_def connectSession_def
      lease_acquire_def makeSessionConfiguration_def session_start_succeeds session_new_def clearError_def setError_def
      numeral_2_eq_2 split_beta Let_def)

definition example_env :: connect_env where
  "example_env = \<lparr>ec_keyPath = [], ec_loadKeyfile = \<lambda>_. None, ec_codec = zero_codec,
     ec_write = (\<lambda>_ _ data. int (length data)), ec_bindToPort = \<lambda>_. True, ec_firstPortOffset = 0\<rparr>"

theorem one_instance_is_connected_witness:
  "\<exists>owner plugins :: (list_ring, unit, real list \<times> real list) plugin list.
     host_run list_ring_api 0 (\<lambda>s. s) no_states 2 ([], []) ([], []) (two_ops example_env) = (owner, plugins)
     \<and> owner = Some 0 \<and> pl_connected (plugins ! 0) \<and> \<not> pl_connected (plugins ! 1)"
proof -
  obtain owner and plugins :: "(list_ring, unit, real list \<times> real list) plugin list" where
    run: "host_run list_ring_api 0 (\<lambda>s. s) no_states 2 ([], []) ([], []) (two_ops example_env) = (owner, plugins)"
    by fastforce
  have "pl_connected (snd (owner, plugins) ! 0)" "length (snd (owner, plugins)) = 2"
    unfolding run [symmetric] by (rule two_run; simp add: example_env_def)+
  then have first: "pl_connected (plugins ! 0)" "length plugins = 2" by simp_all
  have "owner = Some 0" "\<not> pl_connected (plugins ! 1)"
    using one_instance_is_connected [OF run, of 0] one_instance_is_connected [OF run, of 1] first by auto
  with run first show ?thesis by auto
qed

section \<open>Saved state\<close>

text \<open>
  What is relied on: a property tree that is read back from its binary form has its type and its values, up to the
  conversions of a reader; trimming twice is trimming once and makes no string longer.
\<close>

fun reads_back :: "('b, 'v) tree_codec \<Rightarrow> 'v \<Rightarrow> state_value \<Rightarrow> bool" where
  "reads_back t w (Value_Int n) = (tc_int t w = n)"
| "reads_back t w (Value_Real x) = (tc_real t w = x)"
| "reads_back t w (Value_Bool b) = (tc_bool t w = b)"
| "reads_back t w (Value_String s) = (tc_string t w = s)"

definition tree_laws :: "('b, 'v) tree_codec \<Rightarrow> bool" where
  "tree_laws t \<longleftrightarrow> (\<forall>type properties. distinct (map fst properties) \<longrightarrow>
     (\<exists>state. tc_read t (tc_write t type properties) = Some (type, state)
        \<and> (\<forall>name v. (name, v) \<in> set properties \<longrightarrow> (\<exists>w. state name = Some w \<and> reads_back t w v))))"

definition trim_laws :: "(string \<Rightarrow> string) \<Rightarrow> bool" where
  "trim_laws trim \<longleftrightarrow> (\<forall>s. trim (trim s) = trim s \<and> length (trim s) \<le> length s)"

lemma jlimit_idem [simp]: "lower \<le> upper \<Longrightarrow> jlimit lower upper (jlimit lower upper v) = jlimit lower upper v"
  by (auto simp: jlimit_def)

lemma sanitise_again:
  assumes "trim_laws trim"
  shows "sanitise trim (sanitise trim c) = (sanitise trim c)\<lparr>pc_username := trim (pc_username (sanitise trim c))\<rparr>"
proof -
  have "length (trim (take 20 (trim (pc_username c)))) \<le> 20"
    using assms by (metis length_take min.bounded_iff order_trans trim_laws_def min.cobounded2)
  with assms show ?thesis by (simp add: sanitise_def trim_laws_def Let_def min_def max_def)
qed

lemma state_names_distinct: "distinct (map fst (state_properties c))"
  by (simp add: state_properties_def)

lemma configuration_survives:
  assumes "tree_laws t"
  shows "\<exists>state. tc_read t (tc_write t plugin_stateType (state_properties c)) = Some (plugin_stateType, state)
    \<and> configuration_of_state t state = c"
proof -
  obtain state where read: "tc_read t (tc_write t plugin_stateType (state_properties c)) = Some (plugin_stateType, state)"
    and entries: "\<And>name v. (name, v) \<in> set (state_properties c) \<Longrightarrow> \<exists>w. state name = Some w \<and> reads_back t w v"
    using assms state_names_distinct [of c] unfolding tree_laws_def by blast
  have ints: "property_or (tc_int t) state name n' = n" if "(name, Value_Int n) \<in> set (state_properties c)" for name n n'
    using entries [OF that] by (auto simp: property_or_def)
  have words: "property_or (\<lambda>v. word_of_int (tc_int t v)) state name n' = word_of_int n"
    if "(name, Value_Int n) \<in> set (state_properties c)" for name n and n' :: u64
    using entries [OF that] by (auto simp: property_or_def)
  have reals: "property_or (tc_real t) state name x' = x" if "(name, Value_Real x) \<in> set (state_properties c)" for name x x'
    using entries [OF that] by (auto simp: property_or_def)
  have bools: "property_or (tc_bool t) state name b' = b" if "(name, Value_Bool b) \<in> set (state_properties c)" for name b b'
    using entries [OF that] by (auto simp: property_or_def)
  have strings: "property_or (tc_string t) state name s' = s" if "(name, Value_String s) \<in> set (state_properties c)" for name s s'
    using entries [OF that] by (auto simp: property_or_def)
  have "configuration_of_state t state = c"
    by (cases c) (auto simp: configuration_of_state_def state_properties_def Let_def
        intro!: ints reals bools strings words [THEN trans])
  with read show ?thesis by blast
qed


text \<open>A property tree that is kept as it is, and a function that removes blanks at both ends.\<close>

fun value_int :: "state_value \<Rightarrow> int" where "value_int (Value_Int n) = n" | "value_int _ = 0"
fun value_real :: "state_value \<Rightarrow> real" where "value_real (Value_Real x) = x" | "value_real _ = 0"
fun value_bool :: "state_value \<Rightarrow> bool" where "value_bool (Value_Bool b) = b" | "value_bool _ = False"
fun value_string :: "state_value \<Rightarrow> string" where "value_string (Value_String s) = s" | "value_string _ = []"

definition plain_tree :: "(string \<times> (string \<times> state_value) list, state_value) tree_codec" where
  "plain_tree = \<lparr>tc_write = \<lambda>type properties. (type, properties), tc_read = \<lambda>(type, properties). Some (type, map_of properties),
     tc_int = value_int, tc_real = value_real, tc_bool = value_bool, tc_string = value_string\<rparr>"

lemma plain_tree_laws: "tree_laws plain_tree"
proof -
  have "reads_back plain_tree v v" for v by (cases v) (simp_all add: plain_tree_def)
  then show ?thesis by (auto simp: tree_laws_def plain_tree_def)
qed

definition trim_blanks :: "string \<Rightarrow> string" where
  "trim_blanks s = rev (dropWhile (\<lambda>c. c = CHR '' '') (rev (dropWhile (\<lambda>c. c = CHR '' '') s)))"

lemma trim_blanks_laws: "trim_laws trim_blanks"
proof -
  let ?b = "\<lambda>c. c = CHR '' ''"
  have "trim_blanks (trim_blanks s) = trim_blanks s" for s
  proof -
    let ?u = "dropWhile ?b s"
    let ?v = "rev (dropWhile ?b (rev ?u))"
    have "dropWhile ?b ?v = ?v"
    proof (cases ?v)
      case Nil
      then show ?thesis by (simp only: dropWhile.simps)
    next
      case (Cons c cs)
      have "?u = ?v @ rev (takeWhile ?b (rev ?u))" by (metis rev_append rev_rev_ident takeWhile_dropWhile_id)
      with Cons have "?u \<noteq> [] \<and> hd ?u = c" by (metis append_Cons list.distinct(1) list.sel(1))
      then have "c \<noteq> CHR '' ''" using hd_dropWhile [of ?b s] by blast
      with Cons show ?thesis by (simp only: dropWhile.simps if_False)
    qed
    then show ?thesis by (simp add: trim_blanks_def dropWhile_idem)
  qed
  moreover have "length (trim_blanks s) \<le> length s" for s
    unfolding trim_blanks_def by (metis length_dropWhile_le length_rev le_trans)
  ultimately show ?thesis by (simp add: trim_laws_def)
qed

definition long_name :: plugin_configuration where
  "long_name = plugin_configuration_new\<lparr>pc_username := replicate 19 (CHR ''a'') @ '' b''\<rparr>"


end
