(* ===== verification/Audio_Service.thy ===== *)
theory Audio_Service
  imports Engine_Callback Data_Receive
begin

text \<open>
  The audio service of the client, \<open>Client/Source/AudioService.cpp\<close>, with the device selection rules of
  \<open>Client/Source/AudioCorrectness.h\<close> and the callback object of \<open>Client/Source/AudioCallback.cpp\<close>: it
  brings the settings of the user to the engine and the session, and starts and stops the audio device. The settings are a
  record of what the service reads from the application's data; a missing value is \<open>None\<close>. The
  device types and devices of the machine, key files and the network are parameters.
\<close>

section \<open>Device selection\<close>

text \<open>The loop over the sizes, with the smallest size at or above the preferred one and the largest size seen so far.\<close>

definition select_step :: "int \<Rightarrow> int \<Rightarrow> int option \<times> int option \<Rightarrow> int option \<times> int option" where
  "select_step preferredMinimum candidate = (\<lambda>(smallestAtLeastPreferred, largestAvailable).
     if candidate \<le> 0 then (smallestAtLeastPreferred, largestAvailable)
     else (if preferredMinimum \<le> candidate \<and> (case smallestAtLeastPreferred of None \<Rightarrow> True | Some b \<Rightarrow> candidate < b)
           then Some candidate else smallestAtLeastPreferred,
           if (case largestAvailable of None \<Rightarrow> True | Some b \<Rightarrow> b < candidate) then Some candidate else largestAvailable))"

definition selectBufferSize :: "int list \<Rightarrow> int \<Rightarrow> int option" where
  "selectBufferSize availableSizes preferredMinimum =
     (let (smallestAtLeastPreferred, largestAvailable) = fold (select_step preferredMinimum) availableSizes (None, None)
      in if smallestAtLeastPreferred \<noteq> None then smallestAtLeastPreferred else largestAvailable)"

definition hasUsableChannelSelection :: "nat list \<Rightarrow> nat list \<Rightarrow> bool" where
  "hasUsableChannelSelection inputChannels outputChannels \<longleftrightarrow> inputChannels \<noteq> [] \<and> outputChannels \<noteq> []"

section \<open>Settings\<close>

record channel_controller =
  ct_target :: "int option"
  ct_volume :: "real option"

text \<open>The channels of a device, by index, with their names and whether they are active.\<close>

record device_choice =
  dc_deviceName :: string
  dc_channels :: "(string \<times> bool) option list"

record app_data =
  da_useLocalMonitor :: bool
  da_controllers :: "channel_controller option list"
  da_userName :: string
  da_minPlayout :: "int option"
  da_maxPlayout :: "int option"
  da_masterVolume :: "real option"
  da_monitorBalance :: "real option"
  da_serverBpm :: fl
  da_serverName :: string
  da_serverPort :: int
  da_useLocalhost :: bool
  da_useFEC :: bool
  da_cryptoPath :: string
  da_deviceType :: string
  da_inputSetup :: device_choice
  da_outputSetup :: device_choice
  da_inputLatency :: real
  da_outputLatency :: real

section \<open>Machine\<close>

text \<open>A device that is asked to open, and what it reports.\<close>

record device_report =
  dr_bufferSizes :: "int list"
  dr_openError :: "nat list \<Rightarrow> nat list \<Rightarrow> int \<Rightarrow> string"
  dr_sampleRate :: fl
  dr_inputLatency :: int
  dr_outputLatency :: int

record device_type =
  dt_name :: string
  dt_separateInputsAndOutputs :: bool
  dt_createDevice :: "string \<Rightarrow> string \<Rightarrow> device_report option"

definition deviceTypeByName :: "device_type list \<Rightarrow> string \<Rightarrow> device_type option" where
  "deviceTypeByName types name = find (\<lambda>t. dt_name t = name) types"

record device_setup =
  ds_typeName :: string
  ds_device :: string
  ds_isInputAndOutput :: bool
  ds_activeChannelNames :: "string list"
  ds_activeChannelIndices :: "nat list"

definition getSetup :: "device_type list \<Rightarrow> app_data \<Rightarrow> device_choice \<Rightarrow> device_setup" where
  "getSetup types d choice =
     (let s = \<lparr>ds_typeName = [], ds_device = dc_deviceName choice, ds_isInputAndOutput = False,
               ds_activeChannelNames = [], ds_activeChannelIndices = []\<rparr>
      in case deviceTypeByName types (da_deviceType d) of
           None \<Rightarrow> s
         | Some t \<Rightarrow>
             if dt_name t = [] then s
             else (let active = concat (map (\<lambda>(i, c). case c of Some (name, True) \<Rightarrow> [(i, name)] | _ \<Rightarrow> [])
                                          (enumerate 0 (dc_channels choice)))
                   in s\<lparr>ds_typeName := dt_name t, ds_isInputAndOutput := \<not> dt_separateInputsAndOutputs t,
                        ds_activeChannelIndices := map fst active, ds_activeChannelNames := map snd active\<rparr>))"

section \<open>The service\<close>

text \<open>The open device with what it was opened for; requests for the microphone wait for an answer.\<close>

record open_device =
  od_inputSetup :: device_setup
  od_outputSetup :: device_setup
  od_bufferSize :: int
  od_sampleRate :: real

record pending_request =
  pr_generation :: u64
  pr_inputSetup :: device_setup
  pr_outputSetup :: device_setup

record ('r, 'd, 'm) service =
  sv_data :: app_data
  sv_audioRunning :: bool
  sv_audioShouldRun :: bool
  sv_device :: "open_device option"
  sv_session :: session
  sv_engine :: "('r, 'd, 'm) engine"
  sv_audioRestartGeneration :: u64
  sv_pending :: "pending_request list"
  sv_shutdown :: bool

text \<open>
  The channel of an input: the target of its controller is stored one higher than its code. A missing one is
  read as the code of a mono channel.
\<close>

definition controller_channel :: "channel_controller option \<Rightarrow> string \<Rightarrow> single_channel_setup" where
  "controller_channel c name =
     (let t = (case Option.bind c ct_target of Some v \<Rightarrow> v | None \<Rightarrow> uint (channel_target_code Mono));
          volume = (case Option.bind c ct_volume of Some v \<Rightarrow> v | None \<Rightarrow> 100)
      in (single_channel (word_of_int (t - 1)))\<lparr>sc_volume := volume / 100, sc_name := take 20 name\<rparr>)"

definition service_channel_setup :: "app_data \<Rightarrow> device_setup option \<Rightarrow> channel_setup" where
  "service_channel_setup d setup =
     channel_setup_of (da_useLocalMonitor d)
       (case setup of
          None \<Rightarrow> []
        | Some s \<Rightarrow> map (\<lambda>i. controller_channel (if i < length (da_controllers d) then da_controllers d ! i else None)
              (if 1 < length (ds_activeChannelIndices s) then da_userName d @ '' '' @ ds_activeChannelNames s ! i else da_userName d))
            [0..<length (ds_activeChannelIndices s)])"

definition refreshChannelSetup ::
  "'r ring_api \<Rightarrow> device_setup option \<Rightarrow> ('r, 'd, 'm) service \<Rightarrow> ('r, 'd, 'm) service" where
  "refreshChannelSetup A setup s = s\<lparr>sv_engine := engine_setChannelSetup A (service_channel_setup (sv_data s) setup) (sv_engine s)\<rparr>"

text \<open>Every refresh hands the stored tempo to the engine again.\<close>

definition refreshEngineConfiguration :: "timepoint \<Rightarrow> ('r, 'd, 'm) service \<Rightarrow> ('r, 'd, 'm) service" where
  "refreshEngineConfiguration now s =
     (let d = sv_data s;
          configuredMinimum = (case da_minPlayout d of Some v \<Rightarrow> v | None \<Rightarrow> int CLIENT_PLAYOUT_JITTER_BUFFER);
          configuredMaximum = (case da_maxPlayout d of Some v \<Rightarrow> v | None \<Rightarrow> int CLIENT_PLAYOUT_MAX_BUFFER);
          minimum = word_of_int (max 1 configuredMinimum);
          maximum = word_of_int (max 1 configuredMaximum)
      in s\<lparr>sv_engine := setClientBpm now (da_serverBpm d)
             (setLocalMonitoring (da_useLocalMonitor d)
               (setMonitorBalance (case da_monitorBalance d of Some v \<Rightarrow> v | None \<Rightarrow> 0)
                 (setMasterVolume ((case da_masterVolume d of Some v \<Rightarrow> v | None \<Rightarrow> 100) / 100)
                   (setPlayoutBufferRange minimum maximum (sv_engine s)))))\<rparr>)"

definition getSessionConfiguration :: "(string \<Rightarrow> cipher option) \<Rightarrow> app_data \<Rightarrow> session_configuration option" where
  "getSessionConfiguration loadKeyfile d =
     (let c = \<lparr>sf_serverName = da_serverName d, sf_serverPort = da_serverPort d, sf_useLocalhost = da_useLocalhost d,
               sf_useFEC = da_useFEC d, sf_cryptoKey = None\<rparr>
      in if da_cryptoPath d = [] then Some c
         else (case loadKeyfile (da_cryptoPath d) of None \<Rightarrow> None | Some key \<Rightarrow> Some (c\<lparr>sf_cryptoKey := Some key\<rparr>)))"

record network_env =
  ne_loadKeyfile :: "string \<Rightarrow> cipher option"
  ne_codec :: codec
  ne_write :: socket_write
  ne_bindToPort :: "int \<Rightarrow> bool"
  ne_firstPortOffset :: nat

definition refreshSessionConfiguration :: "network_env \<Rightarrow> ('r, 'd, 'm) service \<Rightarrow> datagram list \<times> ('r, 'd, 'm) service" where
  "refreshSessionConfiguration n s =
     (case getSessionConfiguration (ne_loadKeyfile n) (sv_data s) of
        None \<Rightarrow> ([], s)
      | Some configuration \<Rightarrow>
          (let (out, session) =
                 (if session_isAvailable (sv_session s)
                  then updateConfiguration (ne_codec n) (ne_write n) configuration (sv_session s)
                  else (let ((ok, out), session) = session_start (ne_codec n) (ne_write n) (ne_bindToPort n)
                              (ne_firstPortOffset n) configuration (sv_session s)
                        in (out, session)))
           in (out, s\<lparr>sv_session := session, sv_engine := newServer (sv_engine s)\<rparr>)))"

section \<open>Starting and stopping the device\<close>

text \<open>Stopping and closing the device ends the callbacks: the engine is told with \<open>release\<close>.\<close>

definition close_device :: "('r, 'd, 'm) service \<Rightarrow> ('r, 'd, 'm) service" where
  "close_device s =
     (case sv_device s of None \<Rightarrow> s | Some d \<Rightarrow> s\<lparr>sv_device := None, sv_engine := snd (release (sv_engine s))\<rparr>)"

definition stopAudioIfRunning :: "('r, 'd, 'm) service \<Rightarrow> ('r, 'd, 'm) service" where
  "stopAudioIfRunning s =
     close_device (s\<lparr>sv_audioRestartGeneration := sv_audioRestartGeneration s + 1, sv_audioRunning := False\<rparr>)"

definition reportAudioStartupFailure :: "'r ring_api \<Rightarrow> ('r, 'd, 'm) service \<Rightarrow> ('r, 'd, 'm) service" where
  "reportAudioStartupFailure A s =
     close_device (refreshChannelSetup A None (s\<lparr>sv_audioRunning := False, sv_audioShouldRun := False\<rparr>))"

text \<open>
  Opening the device that was asked for. It is there as soon as it has been created, so each failure closes it; a failure
  before it was started leaves the engine alone.
\<close>

fun usable_rate :: "fl \<Rightarrow> bool" where
  "usable_rate (FFin r) = (0 < r)"
| "usable_rate _ = False"

definition startup_failure :: "'r ring_api \<Rightarrow> ('r, 'd, 'm) service \<Rightarrow> ('r, 'd, 'm) service" where
  "startup_failure A s = reportAudioStartupFailure A (s\<lparr>sv_device := None\<rparr>)"

definition startAudio ::
  "'r ring_api \<Rightarrow> device_type list \<Rightarrow> device_setup \<Rightarrow> device_setup \<Rightarrow> ('r, 'd, 'm) service \<Rightarrow> ('r, 'd, 'm) service" where
  "startAudio A types inputSetup outputSetup s =
     (if sv_shutdown s then s
      else if \<not> hasUsableChannelSelection (ds_activeChannelIndices inputSetup) (ds_activeChannelIndices outputSetup)
      then reportAudioStartupFailure A s
      else (case deviceTypeByName types (ds_typeName inputSetup) of
              None \<Rightarrow> reportAudioStartupFailure A s
            | Some t \<Rightarrow>
                (case dt_createDevice t (if dt_separateInputsAndOutputs t then ds_device outputSetup else []) (ds_device inputSetup) of
                   None \<Rightarrow> startup_failure A s
                 | Some dev \<Rightarrow>
                     (case selectBufferSize (dr_bufferSizes dev) (int SAMPLE_BUFFER_SIZE) of
                        None \<Rightarrow> startup_failure A s
                      | Some sz \<Rightarrow>
                          if dr_openError dev (ds_activeChannelIndices inputSetup) (ds_activeChannelIndices outputSetup) sz \<noteq> []
                             \<or> \<not> usable_rate (dr_sampleRate dev) \<or> 0.5 < \<bar>fl_value (dr_sampleRate dev) - real SAMPLE_RATE\<bar>
                          then startup_failure A s
                          else (let rate = fl_value (dr_sampleRate dev);
                                    s1 = s\<lparr>sv_data := (sv_data s)\<lparr>da_inputLatency := of_int (dr_inputLatency dev) / rate * 1000,
                                             da_outputLatency := of_int (dr_outputLatency dev) / rate * 1000\<rparr>\<rparr>;
                                    s2 = refreshChannelSetup A (Some inputSetup) s1
                                in s2\<lparr>sv_device := Some \<lparr>od_inputSetup = inputSetup, od_outputSetup = outputSetup,
                                         od_bufferSize = sz, od_sampleRate = rate\<rparr>,
                                      sv_engine := snd (prepare rate sz (sv_engine s2)), sv_audioRunning := True\<rparr>)))))"

text \<open>A restart asks for the microphone first; the answer may come later.\<close>

definition restartAudio ::
  "'r ring_api \<Rightarrow> device_type list \<Rightarrow> ('r, 'd, 'm) service \<Rightarrow> ('r, 'd, 'm) service" where
  "restartAudio A types s =
     (if sv_shutdown s then s
      else (let s1 = stopAudioIfRunning s;
                inputSetup = getSetup types (sv_data s1) (da_inputSetup (sv_data s1));
                outputSetup = getSetup types (sv_data s1) (da_outputSetup (sv_data s1))
            in if \<not> hasUsableChannelSelection (ds_activeChannelIndices inputSetup) (ds_activeChannelIndices outputSetup)
               then reportAudioStartupFailure A s1
               else s1\<lparr>sv_pending := sv_pending s1 @ [\<lparr>pr_generation = sv_audioRestartGeneration s1,
                        pr_inputSetup = inputSetup, pr_outputSetup = outputSetup\<rparr>]\<rparr>))"

datatype permission_status = Granted | Denied | Restricted

definition permission_answer ::
  "'r ring_api \<Rightarrow> device_type list \<Rightarrow> permission_status \<Rightarrow> pending_request \<Rightarrow> ('r, 'd, 'm) service \<Rightarrow> ('r, 'd, 'm) service" where
  "permission_answer A types status r s =
     (if sv_shutdown s \<or> sv_audioRestartGeneration s \<noteq> pr_generation r \<or> \<not> sv_audioShouldRun s then s
      else if status = Granted then startAudio A types (pr_inputSetup r) (pr_outputSetup r) s
      else reportAudioStartupFailure A s)"

definition service_shutdown :: "('r, 'd, 'm) service \<Rightarrow> ('r, 'd, 'm) service" where
  "service_shutdown s =
     (if sv_shutdown s then s
      else (let s1 = stopAudioIfRunning (s\<lparr>sv_shutdown := True\<rparr>);
                engine1 = setOutputTap False (sv_engine s1)
            in s1\<lparr>sv_session := session_shutdown (sv_session s1), sv_engine := snd (engine_shutdown engine1)\<rparr>))"

section \<open>Reaction to changes of the settings\<close>

text \<open>What kind of value has changed; the answer to a change of whether audio should run is debounced.\<close>

datatype data_change = Mixer_Or_User | Playout_Or_Tempo | Server_Or_Key | Should_Run | Other_Change

definition valueTreePropertyChanged ::
  "'r ring_api \<Rightarrow> device_type list \<Rightarrow> network_env \<Rightarrow> timepoint \<Rightarrow> data_change \<Rightarrow> ('r, 'd, 'm) service
    \<Rightarrow> datagram list \<times> ('r, 'd, 'm) service" where
  "valueTreePropertyChanged A types n now change s =
     (if sv_shutdown s then ([], s)
      else case change of
             Should_Run \<Rightarrow> ([], s)
           | Mixer_Or_User \<Rightarrow>
               ([], refreshChannelSetup A (Some (getSetup types (sv_data s) (da_inputSetup (sv_data s))))
                      (refreshEngineConfiguration now s))
           | Playout_Or_Tempo \<Rightarrow> ([], refreshEngineConfiguration now s)
           | Server_Or_Key \<Rightarrow> refreshSessionConfiguration n s
           | Other_Change \<Rightarrow> ([], s))"

definition should_run_debounced :: "'r ring_api \<Rightarrow> device_type list \<Rightarrow> ('r, 'd, 'm) service \<Rightarrow> ('r, 'd, 'm) service" where
  "should_run_debounced A types s =
     (if sv_shutdown s then s
      else if sv_audioShouldRun s then restartAudio A types s else stopAudioIfRunning s)"

definition service_new ::
  "network_env \<Rightarrow> int \<Rightarrow> timepoint \<Rightarrow> app_data \<Rightarrow> ('r, 'd, 'm) engine \<Rightarrow> datagram list \<times> ('r, 'd, 'm) service" where
  "service_new n uninitialisedRate now d e =
     refreshSessionConfiguration n
       (refreshEngineConfiguration now
         \<lparr>sv_data = d, sv_audioRunning = False, sv_audioShouldRun = False, sv_device = None, sv_session = session_new,
          sv_engine = engine_start uninitialisedRate True (setOutputTap True e), sv_audioRestartGeneration = 0,
          sv_pending = [], sv_shutdown = False\<rparr>)"

text \<open>The timer of the callback object: a tempo of the server is stored in the settings.\<close>

definition timerCallback :: "timepoint \<Rightarrow> ('r, 'd, 'm) service \<Rightarrow> fl option \<times> ('r, 'd, 'm) service" where
  "timerCallback now s =
     (let (bpm, e) = takeServerBpmUpdate now (sv_engine s) in (bpm, s\<lparr>sv_engine := e\<rparr>))"

definition setClockOutputs :: "('r, 'd, 'm) service \<Rightarrow> ('r, 'd, 'm) service" where
  "setClockOutputs s = s\<lparr>sv_engine := restartClock (sv_engine s)\<rparr>"

definition setMidiSignal :: "u8 \<Rightarrow> ('r, 'd, 'm) service \<Rightarrow> ('r, 'd, 'm) service" where
  "setMidiSignal signal s = s\<lparr>sv_engine := setMidiSignalToSend signal (sv_engine s)\<rparr>"

end
