(* ===== verification/Audio_Service_Props.thy ===== *)
theory Audio_Service_Props
  imports Audio_Service Wire_Format_Props
begin

text \<open>
  The buffer size chosen for a device, and when the audio service has a device open: the events of the user, the
  settings, the operating system and the timer in any order.
\<close>

section \<open>Buffer size\<close>

definition least_of :: "int set \<Rightarrow> int option" where
  "least_of S = (if S = {} then None else Some (Min S))"

definition greatest_of :: "int set \<Rightarrow> int option" where
  "greatest_of S = (if S = {} then None else Some (Max S))"

lemma least_of_insert: "finite S \<Longrightarrow> least_of (insert x S) = (case least_of S of None \<Rightarrow> Some x | Some b \<Rightarrow> Some (min x b))"
  by (auto simp: least_of_def)

lemma greatest_of_insert: "finite S \<Longrightarrow> greatest_of (insert x S) = (case greatest_of S of None \<Rightarrow> Some x | Some b \<Rightarrow> Some (max x b))"
  by (auto simp: greatest_of_def)

lemma select_fold:
  "fold (select_step preferred) sizes (None, None)
     = (least_of {n \<in> set sizes. 0 < n \<and> preferred \<le> n}, greatest_of {n \<in> set sizes. 0 < n})"
proof (induction sizes rule: rev_induct)
  case (snoc n sizes)
  have "{k \<in> set (sizes @ [n]). P k} = (if P n then insert n {k \<in> set sizes. P k} else {k \<in> set sizes. P k})" for P
    by auto
  with snoc show ?case
    by (auto simp: select_step_def least_of_insert greatest_of_insert min_def max_def split: option.splits)
qed (simp add: least_of_def greatest_of_def)

text \<open>
  The buffer size chosen for a device is the smallest of its positive sizes that is not below the preferred one; if
  there is none, the largest positive size; and none exactly when the device has no positive size.
\<close>
lemma buffer_size_is_best:
  "selectBufferSize sizes preferred =
     (if \<exists>n \<in> set sizes. 0 < n \<and> preferred \<le> n then Some (Min {n \<in> set sizes. 0 < n \<and> preferred \<le> n})
      else if \<exists>n \<in> set sizes. 0 < n then Some (Max {n \<in> set sizes. 0 < n})
      else None)"
  by (auto simp: selectBufferSize_def select_fold least_of_def greatest_of_def)

section \<open>Runs of the service\<close>

datatype ('r, 'd, 'm) service_event =
  User_Edits app_data | User_Wants bool | Data_Changed network_env timepoint "device_type list" data_change
| Debounce_Ends "device_type list" | Permission_Answered "device_type list" nat permission_status
| Timer_Ticks timepoint | Audio_Works "('r, 'd, 'm) engine" | Service_Ends

text \<open>The state of a run, with the requests for the microphone made so far.\<close>

type_synonym ('r, 'd, 'm) service_run = "('r, 'd, 'm) service \<times> pending_request list"

definition ask :: "('r, 'd, 'm) service \<Rightarrow> ('r, 'd, 'm) service \<Rightarrow> pending_request list \<Rightarrow> pending_request list" where
  "ask s t asked = (if length (sv_pending s) < length (sv_pending t) then asked @ [last (sv_pending t)] else asked)"

definition without :: "nat \<Rightarrow> 'a list \<Rightarrow> 'a list" where
  "without k xs = take k xs @ drop (Suc k) xs"

fun service_step :: "'r ring_api \<Rightarrow> ('r, 'd, 'm) service_event \<Rightarrow> ('r, 'd, 'm) service_run \<Rightarrow> ('r, 'd, 'm) service_run" where
  "service_step A (User_Edits d) (s, asked) = (s\<lparr>sv_data := d\<rparr>, asked)"
| "service_step A (User_Wants b) (s, asked) = (s\<lparr>sv_audioShouldRun := b\<rparr>, asked)"
| "service_step A (Data_Changed n now types change) (s, asked) = (snd (valueTreePropertyChanged A types n now change s), asked)"
| "service_step A (Debounce_Ends types) (s, asked) =
     (let t = should_run_debounced A types s in (t, ask s t asked))"
| "service_step A (Permission_Answered types k status) (s, asked) =
     (if k < length (sv_pending s)
      then (permission_answer A types status (sv_pending s ! k) (s\<lparr>sv_pending := without k (sv_pending s)\<rparr>), asked)
      else (s, asked))"
| "service_step A (Timer_Ticks now) (s, asked) = (snd (timerCallback now s), asked)"
| "service_step A (Audio_Works e) (s, asked) = (s\<lparr>sv_engine := e\<rparr>, asked)"
| "service_step A Service_Ends (s, asked) = (service_shutdown s, asked)"


definition device_ok :: "open_device \<Rightarrow> bool" where
  "device_ok d \<longleftrightarrow> 0 < od_bufferSize d \<and> \<bar>od_sampleRate d - real SAMPLE_RATE\<bar> \<le> 0.5
     \<and> hasUsableChannelSelection (ds_activeChannelIndices (od_inputSetup d)) (ds_activeChannelIndices (od_outputSetup d))"

definition service_inv :: "nat \<Rightarrow> ('r, 'd, 'm) service_run \<Rightarrow> bool" where
  "service_inv n = (\<lambda>(s, asked).
     unat (sv_audioRestartGeneration s) \<le> n
     \<and> (sv_audioRunning s \<longleftrightarrow> sv_device s \<noteq> None)
     \<and> (\<forall>r \<in> set (sv_pending s). pr_generation r \<le> sv_audioRestartGeneration s
          \<and> (pr_generation r = sv_audioRestartGeneration s \<longrightarrow> asked \<noteq> [] \<and> last asked = r))
     \<and> (\<forall>d. sv_device s = Some d \<longrightarrow> device_ok d \<and> asked \<noteq> []
          \<and> last asked = \<lparr>pr_generation = sv_audioRestartGeneration s, pr_inputSetup = od_inputSetup d, pr_outputSetup = od_outputSetup d\<rparr>)
     \<and> (sv_shutdown s \<longrightarrow> sv_device s = None \<and> \<not> session_isAvailable (sv_session s)))"

lemma close_device_fields [simp]:
  "sv_device (close_device s) = None"
  "sv_audioRunning (close_device s) = sv_audioRunning s"
  "sv_pending (close_device s) = sv_pending s"
  "sv_shutdown (close_device s) = sv_shutdown s"
  "sv_session (close_device s) = sv_session s"
  "sv_audioRestartGeneration (close_device s) = sv_audioRestartGeneration s"
  by (simp_all add: close_device_def split: option.splits)

lemma refreshChannelSetup_fields [simp]:
  "sv_device (refreshChannelSetup A c s) = sv_device s"
  "sv_audioRunning (refreshChannelSetup A c s) = sv_audioRunning s"
  "sv_pending (refreshChannelSetup A c s) = sv_pending s"
  "sv_shutdown (refreshChannelSetup A c s) = sv_shutdown s"
  "sv_session (refreshChannelSetup A c s) = sv_session s"
  "sv_audioRestartGeneration (refreshChannelSetup A c s) = sv_audioRestartGeneration s"
  by (simp_all add: refreshChannelSetup_def)

lemma refreshEngineConfiguration_fields [simp]:
  "sv_device (refreshEngineConfiguration now s) = sv_device s"
  "sv_audioRunning (refreshEngineConfiguration now s) = sv_audioRunning s"
  "sv_pending (refreshEngineConfiguration now s) = sv_pending s"
  "sv_shutdown (refreshEngineConfiguration now s) = sv_shutdown s"
  "sv_session (refreshEngineConfiguration now s) = sv_session s"
  "sv_audioRestartGeneration (refreshEngineConfiguration now s) = sv_audioRestartGeneration s"
  by (simp_all add: refreshEngineConfiguration_def Let_def)

lemma reportAudioStartupFailure_fields [simp]:
  "sv_device (reportAudioStartupFailure A s) = None"
  "\<not> sv_audioRunning (reportAudioStartupFailure A s)"
  "sv_pending (reportAudioStartupFailure A s) = sv_pending s"
  "sv_shutdown (reportAudioStartupFailure A s) = sv_shutdown s"
  "sv_session (reportAudioStartupFailure A s) = sv_session s"
  "sv_audioRestartGeneration (reportAudioStartupFailure A s) = sv_audioRestartGeneration s"
  by (simp_all add: reportAudioStartupFailure_def)

lemma stopAudioIfRunning_fields [simp]:
  "sv_device (stopAudioIfRunning s) = None"
  "\<not> sv_audioRunning (stopAudioIfRunning s)"
  "sv_pending (stopAudioIfRunning s) = sv_pending s"
  "sv_shutdown (stopAudioIfRunning s) = sv_shutdown s"
  "sv_session (stopAudioIfRunning s) = sv_session s"
  "sv_audioRestartGeneration (stopAudioIfRunning s) = sv_audioRestartGeneration s + 1"
  by (simp_all add: stopAudioIfRunning_def)

text \<open>A start either fails, and no device is open, or opens the device that was asked for.\<close>

definition start_result ::
  "'r ring_api \<Rightarrow> device_setup \<Rightarrow> device_setup \<Rightarrow> ('r, 'd, 'm) service \<Rightarrow> ('r, 'd, 'm) service \<Rightarrow> bool" where
  "start_result A i out s t \<longleftrightarrow>
     ((t = reportAudioStartupFailure A s \<or> t = startup_failure A s)
      \<or> (\<exists>d. sv_device t = Some d \<and> sv_audioRunning t \<and> device_ok d \<and> od_inputSetup d = i \<and> od_outputSetup d = out
          \<and> sv_pending t = sv_pending s \<and> sv_shutdown t = sv_shutdown s \<and> sv_session t = sv_session s
          \<and> sv_audioRestartGeneration t = sv_audioRestartGeneration s))"

lemma least_of_member: "\<lbrakk>least_of S = Some n; finite S\<rbrakk> \<Longrightarrow> n \<in> S"
  by (metis Min_in least_of_def option.distinct(1) option.inject)

lemma greatest_of_member: "\<lbrakk>greatest_of S = Some n; finite S\<rbrakk> \<Longrightarrow> n \<in> S"
  by (metis Max_in greatest_of_def option.distinct(1) option.inject)

lemma selectBufferSize_positive: "selectBufferSize sizes preferred = Some n \<Longrightarrow> 0 < n"
  by (auto simp: selectBufferSize_def select_fold split: if_splits dest!: least_of_member greatest_of_member)

lemma startAudio_result: "\<not> sv_shutdown s \<Longrightarrow> start_result A i out s (startAudio A types i out s)"
  using selectBufferSize_positive
  by (auto simp: startAudio_def start_result_def device_ok_def not_less Let_def split: option.splits)

lemma report_inv:
  assumes "unat (sv_audioRestartGeneration s) \<le> n" "sv_shutdown s \<longrightarrow> \<not> session_isAvailable (sv_session s)"
    and "\<forall>r \<in> set (sv_pending s). pr_generation r \<le> sv_audioRestartGeneration s
          \<and> (pr_generation r = sv_audioRestartGeneration s \<longrightarrow> asked \<noteq> [] \<and> last asked = r)"
  shows "service_inv n (reportAudioStartupFailure A s, asked)"
  using assms by (simp add: service_inv_def)

lemma startup_failure_inv:
  assumes "service_inv n (s, asked)"
  shows "service_inv n (reportAudioStartupFailure A s, asked)" "service_inv n (startup_failure A s, asked)"
  using assms by (auto simp: service_inv_def startup_failure_def intro!: report_inv)

lemma without_subset: "x \<in> set (without k xs) \<Longrightarrow> x \<in> set xs"
  by (auto simp: without_def dest: in_set_takeD in_set_dropD)

lemma permission_inv:
  assumes inv: "service_inv n (s, asked)" and k: "k < length (sv_pending s)"
  shows "service_inv n (permission_answer A types status (sv_pending s ! k) (s\<lparr>sv_pending := without k (sv_pending s)\<rparr>), asked)"
proof -
  let ?r = "sv_pending s ! k"
  let ?s = "s\<lparr>sv_pending := without k (sv_pending s)\<rparr>"
  have s: "service_inv n (?s, asked)" using inv without_subset [of _ k "sv_pending s"] by (auto simp: service_inv_def)
  show ?thesis
  proof (cases "sv_shutdown s \<or> sv_audioRestartGeneration s \<noteq> pr_generation ?r \<or> \<not> sv_audioShouldRun s")
    case True
    with s show ?thesis by (simp add: permission_answer_def)
  next
    case False
    have asked: "asked \<noteq> [] \<and> last asked = ?r"
      using inv k False nth_mem [OF k] by (auto simp: service_inv_def)
    have running_on: "\<not> sv_shutdown ?s" using False by simp
    show ?thesis
    proof (cases "status = Granted")
      case True
      with False have step: "permission_answer A types status ?r ?s = startAudio A types (pr_inputSetup ?r) (pr_outputSetup ?r) ?s"
        by (simp add: permission_answer_def)
      let ?t = "startAudio A types (pr_inputSetup ?r) (pr_outputSetup ?r) ?s"
      have "start_result A (pr_inputSetup ?r) (pr_outputSetup ?r) ?s ?t" by (rule startAudio_result [OF running_on])
      then consider "?t = reportAudioStartupFailure A ?s" | "?t = startup_failure A ?s"
        | (started) d where "sv_device ?t = Some d" "sv_audioRunning ?t" "device_ok d" "od_inputSetup d = pr_inputSetup ?r"
            "od_outputSetup d = pr_outputSetup ?r" "sv_pending ?t = sv_pending ?s" "sv_shutdown ?t = sv_shutdown ?s"
            "sv_session ?t = sv_session ?s" "sv_audioRestartGeneration ?t = sv_audioRestartGeneration ?s"
        unfolding start_result_def by blast
      then show ?thesis
      proof cases
        case started
        have "?r = \<lparr>pr_generation = sv_audioRestartGeneration s, pr_inputSetup = pr_inputSetup ?r, pr_outputSetup = pr_outputSetup ?r\<rparr>"
          using False by (cases ?r) simp
        with started s asked running_on show ?thesis unfolding step by (simp add: service_inv_def)
      qed (simp_all add: step startup_failure_inv s)
    next
      case False
      with s running_on \<open>\<not> (sv_shutdown s \<or> _)\<close> show ?thesis by (simp add: permission_answer_def startup_failure_inv)
    qed
  qed
qed

lemma next_generation_above:
  assumes "unat (g :: u64) \<le> n" "n < 2 ^ 64 - 1"
  shows "unat (g + 1) = Suc (unat g)" "g < g + 1"
proof -
  show "unat (g + 1) = Suc (unat g)" using assms by (simp add: unat_word_ariths(1))
  then show "g < g + 1" by (simp add: word_less_nat_alt)
qed

text \<open>Stopping makes every pending request stale.\<close>

lemma stop_inv:
  assumes "service_inv n (s, asked)" "n < 2 ^ 64 - 1"
  shows "service_inv (Suc n) (stopAudioIfRunning s, asked)"
    and "r \<in> set (sv_pending s) \<Longrightarrow> pr_generation r < sv_audioRestartGeneration s + 1"
proof -
  have g: "unat (sv_audioRestartGeneration s) \<le> n" using assms(1) by (simp add: service_inv_def)
  note up = next_generation_above [OF g assms(2)]
  show stale: "pr_generation r < sv_audioRestartGeneration s + 1" if "r \<in> set (sv_pending s)" for r
    using that assms(1) up(2) by (auto simp: service_inv_def)
  show "service_inv (Suc n) (stopAudioIfRunning s, asked)"
    using assms(1) up(1) stale by (force simp: service_inv_def)
qed

lemma restart_inv:
  assumes inv: "service_inv n (s, asked)" "n < 2 ^ 64 - 1" and on: "\<not> sv_shutdown s"
  shows "service_inv (Suc n) (restartAudio A types s, ask s (restartAudio A types s) asked)"
proof -
  let ?s = "stopAudioIfRunning s"
  let ?i = "getSetup types (sv_data ?s) (da_inputSetup (sv_data ?s))"
  let ?o = "getSetup types (sv_data ?s) (da_outputSetup (sv_data ?s))"
  have stopped: "service_inv (Suc n) (?s, asked)" by (rule stop_inv(1) [OF inv])
  show ?thesis
  proof (cases "hasUsableChannelSelection (ds_activeChannelIndices ?i) (ds_activeChannelIndices ?o)")
    case True
    let ?r = "\<lparr>pr_generation = sv_audioRestartGeneration s + 1, pr_inputSetup = ?i, pr_outputSetup = ?o\<rparr>"
    have "restartAudio A types s = ?s\<lparr>sv_pending := sv_pending s @ [?r]\<rparr>"
      using True on by (simp add: restartAudio_def Let_def)
    moreover have "pr_generation r \<le> sv_audioRestartGeneration s + 1 \<and> pr_generation r \<noteq> sv_audioRestartGeneration s + 1"
      if "r \<in> set (sv_pending s)" for r
      using stop_inv(2) [OF inv that] by auto
    ultimately show ?thesis using stopped by (auto simp: service_inv_def ask_def)
  next
    case False
    then have "restartAudio A types s = reportAudioStartupFailure A ?s" using on by (simp add: restartAudio_def Let_def)
    with startup_failure_inv(1) [OF stopped] show ?thesis by (simp add: ask_def)
  qed
qed

lemma service_inv_Suc: "service_inv n r \<Longrightarrow> service_inv (Suc n) r"
  by (auto simp: service_inv_def)

lemma change_inv:
  assumes "service_inv n (s, asked)"
  shows "service_inv n (snd (valueTreePropertyChanged A types net now change s), asked)"
proof (cases "sv_shutdown s")
  case False
  then show ?thesis using assms
    by (cases change; simp add: valueTreePropertyChanged_def; (auto simp: service_inv_def refreshSessionConfiguration_def
        Let_def split_beta split: option.splits)?)
qed (use assms in \<open>simp add: valueTreePropertyChanged_def\<close>)

lemma shutdown_inv_service:
  assumes "service_inv n (s, asked)" "n < 2 ^ 64 - 1"
  shows "service_inv (Suc n) (service_shutdown s, asked)"
proof (cases "sv_shutdown s")
  case True
  then show ?thesis using service_inv_Suc [OF assms(1)] by (simp add: service_shutdown_def)
next
  case False
  have "service_inv n (s, asked)" by (rule assms(1))
  from stop_inv(1) [OF this assms(2)] False show ?thesis
    by (auto simp: service_shutdown_def service_inv_def session_shutdown_def session_isAvailable_def
        stopAudioIfRunning_def close_device_def Let_def split: option.splits)
qed

lemma service_step_inv:
  assumes inv: "service_inv n r" and n: "n < 2 ^ 64 - 1"
  shows "service_inv (Suc n) (service_step A ev r)"
proof (cases r)
  case (Pair s asked)
  then have inv: "service_inv n (s, asked)" using inv by simp
  show ?thesis
  proof (cases ev)
    case (Data_Changed net now types change)
    then show ?thesis using service_inv_Suc [OF change_inv [OF inv]] by (simp add: Pair)
  next
    case (Debounce_Ends types)
    then show ?thesis
      using restart_inv [OF inv n, of A types] stop_inv(1) [OF inv n] service_inv_Suc [OF inv]
      by (auto simp: Pair should_run_debounced_def ask_def Let_def split: if_splits)
  next
    case (Permission_Answered types k status)
    then show ?thesis
      using service_inv_Suc [OF permission_inv [OF inv, of k A types status]] service_inv_Suc [OF inv] by (simp add: Pair)
  next
    case Service_Ends
    then show ?thesis using shutdown_inv_service [OF inv n] by (simp add: Pair)
  qed (use service_inv_Suc [OF inv] in \<open>auto simp: Pair service_inv_def timerCallback_def split_beta\<close>)
qed

definition service_run_from :: "'r ring_api \<Rightarrow> ('r, 'd, 'm) service \<Rightarrow> ('r, 'd, 'm) service_event list \<Rightarrow> ('r, 'd, 'm) service_run" where
  "service_run_from A s evs = fold (service_step A) evs (s, [])"

lemma service_new_inv: "service_inv 0 (snd (service_new net rate now d e), [])"
  by (auto simp: service_new_def service_inv_def refreshSessionConfiguration_def refreshEngineConfiguration_def
      Let_def split_beta split: option.splits)

lemma service_run_inv:
  assumes "service_inv 0 (s, [])" "length evs < 2 ^ 64 - 1"
  shows "service_inv (length evs) (service_run_from A s evs)"
  using assms(2)
proof (induction evs rule: rev_induct)
  case Nil
  with assms(1) show ?case by (simp add: service_run_from_def)
next
  case (snoc ev evs)
  then show ?case using service_step_inv [of "length evs" "service_run_from A s evs" A ev] by (simp add: service_run_from_def)
qed

text \<open>
  C37: Whatever the user, the settings, the timer, the audio threads and the operating system do, in any order and
  fewer than \<open>2\<^sup>6\<^sup>4 - 1\<close> events: the application shows audio as running exactly when a device is open;
  an open device was opened for the latest request for the microphone, never for an older one whose answer
  came late, with input and output channels, a positive buffer size and a rate within half a hertz of 48 kHz; and after
  the shutdown no device is open and the session is not available.
\<close>
theorem device_belongs_to_latest_request:
  assumes "length evs < 2 ^ 64 - 1"
    and "service_run_from A (snd (service_new net rate now d e)) evs = (s, asked)"
  shows "(sv_audioRunning s \<longleftrightarrow> sv_device s \<noteq> None)
    \<and> (\<forall>dev. sv_device s = Some dev \<longrightarrow> device_ok dev \<and> asked \<noteq> []
         \<and> last asked = \<lparr>pr_generation = sv_audioRestartGeneration s, pr_inputSetup = od_inputSetup dev, pr_outputSetup = od_outputSetup dev\<rparr>)
    \<and> (sv_shutdown s \<longrightarrow> sv_device s = None \<and> \<not> session_isAvailable (sv_session s))"
  using service_run_inv [OF service_new_inv [of net rate now d e] assms(1), of A] assms(2)
  by (auto simp: service_inv_def)

text \<open>
  The user starts the audio, the settings change, and the audio is started again; the answer to the first request comes
  after the second one was made.
\<close>

definition duplex_device :: device_report where
  "duplex_device = \<lparr>dr_bufferSizes = [64, 256], dr_openError = \<lambda>_ _ _. [], dr_sampleRate = FFin 48000,
     dr_inputLatency = 128, dr_outputLatency = 128\<rparr>"

definition duplex_types :: "device_type list" where
  "duplex_types = [\<lparr>dt_name = ''ALSA'', dt_separateInputsAndOutputs = False, dt_createDevice = \<lambda>_ _. Some duplex_device\<rparr>]"

definition duplex_data :: "string \<Rightarrow> app_data" where
  "duplex_data name =
     \<lparr>da_useLocalMonitor = False, da_controllers = [], da_userName = ''me'', da_minPlayout = None, da_maxPlayout = None,
      da_masterVolume = None, da_monitorBalance = None, da_serverBpm = FFin 0, da_serverName = [], da_serverPort = 7777,
      da_useLocalhost = False, da_useFEC = False, da_cryptoPath = [], da_deviceType = ''ALSA'',
      da_inputSetup = \<lparr>dc_deviceName = name, dc_channels = [Some (''1'', True)]\<rparr>,
      da_outputSetup = \<lparr>dc_deviceName = name, dc_channels = [Some (''1'', True)]\<rparr>, da_inputLatency = 0, da_outputLatency = 0\<rparr>"

definition duplex_setup :: "string \<Rightarrow> device_setup" where
  "duplex_setup name = \<lparr>ds_typeName = ''ALSA'', ds_device = name, ds_isInputAndOutput = True,
     ds_activeChannelNames = [''1''], ds_activeChannelIndices = [0]\<rparr>"

definition late_answer :: "('r, 'd, 'm) service_event list" where
  "late_answer = [User_Wants True, Debounce_Ends duplex_types, User_Edits (duplex_data ''B''), Debounce_Ends duplex_types,
     Permission_Answered duplex_types 0 Granted, Permission_Answered duplex_types 0 Granted]"

lemma duplex_getSetup [simp]:
  "getSetup duplex_types (duplex_data name) (da_inputSetup (duplex_data name)) = duplex_setup name"
  "getSetup duplex_types (duplex_data name) (da_outputSetup (duplex_data name)) = duplex_setup name"
  by (simp_all add: getSetup_def duplex_types_def duplex_data_def duplex_setup_def deviceTypeByName_def)

lemma fresh_service_fields:
  fixes s :: "('r, 'd, 'm) service"
  assumes "s = snd (service_new net rate now d e)"
  shows "sv_data s = d" "sv_pending s = []" "\<not> sv_shutdown s" "sv_audioRestartGeneration s = 0" "sv_device s = None"
    "\<not> sv_audioRunning s"
  using assms by (simp_all add: service_new_def refreshSessionConfiguration_def refreshEngineConfiguration_def
      Let_def split_beta split: option.splits)

lemma duplex_restart:
  assumes "sv_data s = duplex_data name" "\<not> sv_shutdown s" "sv_device s = None"
  shows "restartAudio A duplex_types s =
    s\<lparr>sv_audioRestartGeneration := sv_audioRestartGeneration s + 1, sv_audioRunning := False,
      sv_pending := sv_pending s @ [\<lparr>pr_generation = sv_audioRestartGeneration s + 1,
        pr_inputSetup = duplex_setup name, pr_outputSetup = duplex_setup name\<rparr>]\<rparr>"
proof -
  have "stopAudioIfRunning s = s\<lparr>sv_audioRestartGeneration := sv_audioRestartGeneration s + 1, sv_audioRunning := False\<rparr>"
    using assms(3) by (simp add: stopAudioIfRunning_def close_device_def)
  moreover have "ds_activeChannelIndices (duplex_setup name) \<noteq> []" by (simp add: duplex_setup_def)
  ultimately show ?thesis using assms by (simp add: restartAudio_def hasUsableChannelSelection_def Let_def)
qed

lemma duplex_start:
  assumes "\<not> sv_shutdown s"
  shows "\<exists>dev. sv_device (startAudio A duplex_types (duplex_setup name) (duplex_setup name) s) = Some dev
    \<and> od_inputSetup dev = duplex_setup name"
proof -
  have "selectBufferSize [64, 256] 128 = Some 256"
    by (simp add: selectBufferSize_def select_step_def)
  with assms show ?thesis
    by (simp add: startAudio_def hasUsableChannelSelection_def duplex_setup_def deviceTypeByName_def duplex_types_def
        duplex_device_def SAMPLE_BUFFER_SIZE_def SAMPLE_RATE_def Let_def)
qed

lemma late_answer_run:
  fixes s :: "('r, 'd, 'm) service"
  assumes "sv_data s = duplex_data ''A''" "sv_pending s = []" "\<not> sv_shutdown s" "sv_audioRestartGeneration s = 0"
    "sv_device s = None"
  shows "\<exists>dev. sv_device (fst (service_run_from A s late_answer)) = Some dev \<and> od_inputSetup dev = duplex_setup ''B''"
proof -
  let ?pending = "\<lambda>g n. \<lparr>pr_generation = g, pr_inputSetup = duplex_setup n, pr_outputSetup = duplex_setup n\<rparr>"
  let ?s = "s\<lparr>sv_audioShouldRun := True, sv_audioRunning := False, sv_data := duplex_data ''B'',
    sv_audioRestartGeneration := 2, sv_pending := [?pending 2 ''B'']\<rparr>"
  let ?a = "s\<lparr>sv_audioShouldRun := True\<rparr>"
  let ?b = "?a\<lparr>sv_audioRestartGeneration := 1, sv_audioRunning := False, sv_pending := [?pending 1 ''A''], sv_data := duplex_data ''B''\<rparr>"
  have "restartAudio A duplex_types ?a = ?a\<lparr>sv_audioRestartGeneration := 1, sv_audioRunning := False, sv_pending := [?pending 1 ''A'']\<rparr>"
    using duplex_restart [of ?a "''A''" A] assms by simp
  moreover have "restartAudio A duplex_types ?b = ?s\<lparr>sv_pending := [?pending 1 ''A'', ?pending 2 ''B'']\<rparr>"
    using duplex_restart [of ?b "''B''" A] assms by simp
  ultimately have "fst (service_run_from A s late_answer) = permission_answer A duplex_types Granted (?pending 2 ''B'') (?s\<lparr>sv_pending := []\<rparr>)"
    using assms by (simp add: service_run_from_def late_answer_def should_run_debounced_def ask_def Let_def
        permission_answer_def without_def)
  also have "\<dots> = startAudio A duplex_types (duplex_setup ''B'') (duplex_setup ''B'') (?s\<lparr>sv_pending := []\<rparr>)"
    using assms by (simp add: permission_answer_def)
  finally show ?thesis using duplex_start [of "?s\<lparr>sv_pending := []\<rparr>" A "''B''"] assms by simp
qed

definition home_network :: network_env where
  "home_network = \<lparr>ne_loadKeyfile = \<lambda>_. None, ne_codec = zero_codec, ne_write = \<lambda>_ _ data. int (length data),
     ne_bindToPort = \<lambda>_. True, ne_firstPortOffset = 0\<rparr>"

theorem device_belongs_to_latest_request_witness:
  "\<exists>(s :: (list_ring, unit, real list \<times> real list) service) asked dev.
     service_run_from list_ring_api
       (snd (service_new home_network 0 1 (duplex_data ''A'') (engine_new list_ring_api ([], []) ([], [])))) late_answer = (s, asked)
     \<and> sv_device s = Some dev \<and> od_inputSetup dev = duplex_setup ''B'' \<and> pr_inputSetup (last asked) = duplex_setup ''B''
     \<and> sv_audioRunning s"
proof -
  let ?e = "engine_new list_ring_api ([], []) ([], []) :: (list_ring, unit, real list \<times> real list) engine"
  let ?s = "snd (service_new home_network 0 1 (duplex_data ''A'') ?e)"
  obtain s asked where run: "service_run_from list_ring_api ?s late_answer = (s, asked)" by fastforce
  obtain dev where dev: "sv_device s = Some dev" "od_inputSetup dev = duplex_setup ''B''"
    using late_answer_run [of ?s list_ring_api] fresh_service_fields [of ?s home_network 0 1 "duplex_data ''A''" ?e] run by auto
  have "length (late_answer :: (list_ring, unit, real list \<times> real list) service_event list) < 2 ^ 64 - 1"
    by (simp add: late_answer_def)
  from device_belongs_to_latest_request [OF this run] dev run show ?thesis by auto
qed

text \<open>
  A change of the mixer hands the stored tempo to the engine: unless it is the tempo the server has just sent, it goes to the
  server again, and tempi from the server are held back for a second.
\<close>

lemma mixer_change_sends_tempo:
  assumes "\<not> sv_shutdown s" "\<not> en_ignoreNextServerBpmChange (sv_engine s)" "da_serverBpm (sv_data s) = FFin b"
    and "0 < now" "now \<le> later" "later - now \<le> seconds 1"
  shows "let e = sv_engine (snd (valueTreePropertyChanged A types net now Mixer_Or_User s))
    in fst (mailbox_takeLatest (en_clientBpm e)) = Some (FFin b) \<and> fst (takeServerBpmUpdate later e) = None"
  using assms
  by (auto simp: valueTreePropertyChanged_def refreshChannelSetup_def refreshEngineConfiguration_def Let_def
      engine_setChannelSetup_def setClientBpm_def setLocalMonitoring_def setMonitorBalance_def setMasterVolume_def
      setPlayoutBufferRange_def mailbox_takeLatest_def takeServerBpmUpdate_def worker_takeServerBpmUpdate_def)

text \<open>A channel without a stored target is sent to the right, one with a stored target of a mono channel is mono.\<close>

lemma missing_target_is_right:
  "target_of_u8 (sc_target (controller_channel None name)) = Some Right"
  "target_of_u8 (sc_target (controller_channel (Some \<lparr>ct_target = Some (uint (channel_target_code Mono) + 1), ct_volume = v\<rparr>) name)) = Some Mono"
  by (simp_all add: controller_channel_def target_of_u8_def single_channel_def)

end
