(* ===== verification/Text_Format.thy ===== *)
theory Text_Format
  imports Buffers_Config
begin

text \<open>
  The texts that the formatting functions of the C++ library produce where the program uses them: whole
  numbers with a minimal width (\<open>%6d\<close>, \<open>%6s\<close>, \<open>std::to_string\<close>), and numbers with a fixed count
  of decimals (\<open>%2.1f\<close>, \<open>std::fixed\<close> with \<open>std::setprecision\<close>), which are rounded to the nearest one
  and, half way, to the even one.
\<close>

definition pad_left :: "nat \<Rightarrow> string \<Rightarrow> string" where
  "pad_left width s = replicate (width - length s) (CHR '' '') @ s"

definition int_text :: "int \<Rightarrow> string" where
  "int_text i = (if i < 0 then CHR ''-'' # decimal (nat (- i)) else decimal (nat i))"

definition round_half_even :: "real \<Rightarrow> int" where
  "round_half_even x =
     (let n = \<lfloor>x\<rfloor>; rest = x - real_of_int n
      in if rest < 1 / 2 \<or> rest = 1 / 2 \<and> even n then n else n + 1)"

definition zero_padded :: "nat \<Rightarrow> nat \<Rightarrow> string" where
  "zero_padded width n = (let s = decimal n in replicate (width - length s) (CHR ''0'') @ s)"

definition fixed_text :: "nat \<Rightarrow> real \<Rightarrow> string" where
  "fixed_text decimals x =
     (let n = nat (round_half_even (\<bar>x\<bar> * 10 ^ decimals))
      in (if x < 0 then ''-'' else []) @ decimal (n div 10 ^ decimals)
         @ (if decimals = 0 then [] else ''.'' @ zero_padded decimals (n mod 10 ^ decimals)))"

fun fl_text :: "nat \<Rightarrow> fl \<Rightarrow> string" where
  "fl_text decimals (FFin x) = fixed_text decimals x"
| "fl_text decimals FPosInf = ''inf''"
| "fl_text decimals FNegInf = ''-inf''"
| "fl_text decimals FNaN = ''nan''"

text \<open>A cast of a 64 bit counter to \<open>int\<close> keeps the low 32 bits.\<close>

definition int_of_u64 :: "u64 \<Rightarrow> int" where
  "int_of_u64 w = sint (ucast w :: u32)"

lemma round_half_even_near: "\<bar>real_of_int (round_half_even x) - x\<bar> \<le> 1 / 2"
  by (simp add: round_half_even_def Let_def)

lemma int_of_u64_small: "uint w < 2 ^ 31 \<Longrightarrow> int_of_u64 w = uint w"
  using signed_take_bit_int_eq_self [of 31 "uint w"]
  by (simp add: int_of_u64_def sint_uint unsigned_ucast_eq take_bit_int_eq_self order_trans [OF _ uint_ge_0])

lemma decimal_nonempty [simp]: "decimal n \<noteq> []"
  by (subst decimal.simps) simp

lemma pad_left_length: "length (pad_left width s) = max width (length s)"
  by (simp add: pad_left_def)

end
