(* ===== verification/Server_Log.thy ===== *)
theory Server_Log
  imports Text_Format Server_Threads
begin

text \<open>
  The screen log of the server, \<open>Server/Source/ServerLogger.cpp\<close>, and the calls that the threads make of it. The
  terminal library is the list of the operations asked of it. Every client that is shown gets a row of its own. A call runs
  to its end here; the code has no lock, so two threads that log at once can also mix their output.
\<close>

section \<open>The logger\<close>

datatype screen_op =
  Move int int | Clrtoeol | Printw string | Mvprintw int int string | Refresh | Endwin | Delscreen
| Cout string | Cerr string

record server_logger =
  lo_terminal :: bool
  lo_lastMessage :: string
  lo_counter :: int
  lo_clientRows :: "(string \<times> int) list"
  lo_rowsInTable :: int

definition logger_new :: server_logger where
  "logger_new = \<lparr>lo_terminal = False, lo_lastMessage = [], lo_counter = 0, lo_clientRows = [], lo_rowsInTable = 0\<rparr>"

text \<open>\<open>newterm\<close> may fail, and then returns a null pointer.\<close>

definition logger_init :: "bool \<Rightarrow> bool \<Rightarrow> bool \<Rightarrow> server_logger \<Rightarrow> server_logger" where
  "logger_init stdinIsTerminal stdoutIsTerminal newterm s =
     (if \<not> stdinIsTerminal \<or> \<not> stdoutIsTerminal then s\<lparr>lo_terminal := False\<rparr> else s\<lparr>lo_terminal := newterm\<rparr>)"

definition logger_deinit :: "server_logger \<Rightarrow> screen_op list \<times> server_logger" where
  "logger_deinit s = (if lo_terminal s then ([Endwin, Delscreen], s\<lparr>lo_terminal := False\<rparr>) else ([], s))"

definition errorln :: "string \<Rightarrow> server_logger \<Rightarrow> screen_op list \<times> server_logger" where
  "errorln message s =
     (if message \<noteq> lo_lastMessage s then ([Cerr message], s\<lparr>lo_lastMessage := message\<rparr>) else ([], s))"

definition printAtPosition :: "int \<Rightarrow> int \<Rightarrow> string \<Rightarrow> server_logger \<Rightarrow> screen_op list" where
  "printAtPosition x y txt s = (if lo_terminal s then [Move x y, Printw txt, Refresh] else [Cout txt])"

definition columnHeaders :: "(int \<times> string) list" where
  "columnHeaders = [(0, ''Client''), (20, ''Len''), (26, ''ooO''), (32, ''span''), (38, ''dup''), (44, ''heal''),
     (50, ''late''), (56, ''drop''), (62, ''gap''), (70, ''Jitter ms''), (80, ''Jitter SD'')]"

definition printColumnHeader :: "int \<Rightarrow> server_logger \<Rightarrow> screen_op list" where
  "printColumnHeader row s =
     (if lo_terminal s then map (\<lambda>(x, title). Mvprintw row x (pad_left 6 title)) columnHeaders @ [Refresh] else [])"

definition yForClient :: "string \<Rightarrow> server_logger \<Rightarrow> int \<times> server_logger" where
  "yForClient clientID s =
     (let s1 = (if map_of (lo_clientRows s) clientID = None
                then s\<lparr>lo_clientRows := smap_emplace clientID (lo_rowsInTable s) (lo_clientRows s),
                       lo_rowsInTable := lo_rowsInTable s + 1\<rparr>
                else s)
      in (the (map_of (lo_clientRows s1) clientID), s1))"

definition quality_columns :: "stream_quality_info \<Rightarrow> string list" where
  "quality_columns q =
     map (\<lambda>w. pad_left 6 (int_text (int_of_u64 w)))
       [qi_packagesPushed q - qi_packagesPopped q, qi_outOfOrderPacketCounter q, qi_maxWrongOrderSpan q,
        qi_duplicatePacketCounter q, qi_dropsHealed q, qi_tooLateOrDuplicate q, qi_droppedPacketCounter q, qi_maxLengthOfGap q]
     @ [fixed_text 1 (qi_jitterMeanMillis q), fl_text 1 (qi_jitterSDMillis q)]"

definition printStatistics :: "int \<Rightarrow> string \<Rightarrow> stream_quality_info \<Rightarrow> server_logger \<Rightarrow> screen_op list \<times> server_logger" where
  "printStatistics row clientID quality s =
     (if lo_terminal s
      then (let (r, s1) = yForClient clientID s; y = row + r
            in ([Move y 0, Clrtoeol, Move y 0, Printw clientID]
                  @ map (\<lambda>((x, title), txt). Mvprintw y x txt) (zip (tl columnHeaders) (quality_columns quality)) @ [Refresh],
                s1))
      else ([], s))"

definition printServerStatus :: "string \<Rightarrow> server_logger \<Rightarrow> screen_op list" where
  "printServerStatus txt s =
     (if lo_terminal s then [Move 1 0, Clrtoeol, Move 1 0, Printw txt, Refresh] else [Cout txt])"

definition printServerStatistics :: "int \<Rightarrow> string \<Rightarrow> server_logger \<Rightarrow> screen_op list \<times> server_logger" where
  "printServerStatistics row txt s =
     (if lo_terminal s
      then (let s1 = s\<lparr>lo_counter := lo_counter s + 1\<rparr>
            in if lo_counter s mod 500 = 0
               then ([Move (row + int (length (lo_clientRows s)) + 2) 0, Clrtoeol, Printw txt, Refresh], s1)
               else ([], s1))
      else ([], s))"

definition printClientStatus :: "int \<Rightarrow> string \<Rightarrow> string \<Rightarrow> server_logger \<Rightarrow> screen_op list \<times> server_logger" where
  "printClientStatus row clientID txt s =
     (if lo_terminal s
      then (let (r, s1) = yForClient clientID s; y = row + r
            in ([Move y 0, Clrtoeol, Move y 0, Printw clientID, Printw '': '', Printw txt, Refresh], s1))
      else ([Cout (''Client '' @ clientID @ '': '' @ txt)], s))"

section \<open>Calls of the threads\<close>

datatype log_call =
  Init bool bool bool | Deinit | Errorln string | At_Position int int string | Column_Header int
| Statistics int string stream_quality_info | Server_Status string | Server_Statistics int string
| Client_Status int string string

fun logger_call :: "log_call \<Rightarrow> server_logger \<Rightarrow> screen_op list \<times> server_logger" where
  "logger_call (Init i o' t) s = ([], logger_init i o' t s)"
| "logger_call Deinit s = logger_deinit s"
| "logger_call (Errorln m) s = errorln m s"
| "logger_call (At_Position x y m) s = (printAtPosition x y m s, s)"
| "logger_call (Column_Header row) s = (printColumnHeader row s, s)"
| "logger_call (Statistics row c q) s = printStatistics row c q s"
| "logger_call (Server_Status m) s = (printServerStatus m s, s)"
| "logger_call (Server_Statistics row m) s = printServerStatistics row m s"
| "logger_call (Client_Status row c m) s = printClientStatus row c m s"

text \<open>The timer of the accept thread shows the quality of every connected client.\<close>

fun quality_tick :: "client_bundle \<Rightarrow> log_call list" where
  "quality_tick [] = []"
| "quality_tick ((name, Some c) # cs) =
     (case cl_qualityInfo c of
        None \<Rightarrow> []
      | Some q \<Rightarrow> [Statistics 4 name (qualityInfoPackage q)]) @ quality_tick cs"
| "quality_tick ((name, None) # cs) = quality_tick cs"

fun transition_log :: "string \<Rightarrow> client_connection_transition \<Rightarrow> log_call list" where
  "transition_log name InitialConnection = [Client_Status 4 name ''New client connected, first package received'']"
| "transition_log name GraceRecovery = [Client_Status 4 name ''Client recovered during disconnect grace period'']"
| "transition_log name Reconnection = [Client_Status 4 name ''Reconnected successfully and starts sending again'']"
| "transition_log name NoTransition = []"

definition fast_forward_text :: "fast_forward_result \<Rightarrow> string" where
  "fast_forward_text f =
     ''Queue pressure: discarded '' @ decimal (ff_discardedPackets f) @ '' stale packets''
       @ (case ff_oldestRetainedCounter f of
            None \<Rightarrow> []
          | Some n \<Rightarrow> '', retained counter '' @ decimal (unat n) @ '' onward'')"

definition mixer_log :: "scheduled_mix_result \<Rightarrow> log_call list" where
  "mixer_log r =
     map (\<lambda>client. Client_Status 4 client ''Disconnect grace period expired'') (sr_disconnectedClients r)
     @ map (\<lambda>client. Client_Status 4 client ''Jitter queue underrun, starting disconnect grace period'') (sr_underrunClients r)
     @ map (\<lambda>(client, f). Client_Status 4 client (fast_forward_text f)) (sr_fastForwardedClients r)
     @ (if sr_incoming r \<noteq> [] then map Errorln (ms_diagnostics (sr_mix r)) else [])"

section \<open>Rows\<close>

definition rows_inv :: "server_logger \<Rightarrow> bool" where
  "rows_inv s \<longleftrightarrow> smap_wf (lo_clientRows s) \<and> inj_on (map_of (lo_clientRows s)) (dom (map_of (lo_clientRows s)))
     \<and> ran (map_of (lo_clientRows s)) = {0..<lo_rowsInTable s} \<and> lo_rowsInTable s = int (length (lo_clientRows s))"

fun log_run :: "log_call list \<Rightarrow> server_logger \<Rightarrow> screen_op list list \<times> server_logger" where
  "log_run [] s = ([], s)"
| "log_run (c # cs) s = (let (out, s1) = logger_call c s; (outs, s2) = log_run cs s1 in (out # outs, s2))"

lemma smap_emplace_length:
  "map_of m k = None \<Longrightarrow> length (smap_emplace k v m) = Suc (length m)"
  by (induction k v m rule: smap_emplace.induct) (auto split: if_splits)

lemma yForClient_row: "rows_inv s \<Longrightarrow> map_of (lo_clientRows (snd (yForClient c s))) c = Some (fst (yForClient c s))"
  by (auto simp: yForClient_def Let_def smap_emplace_lookup rows_inv_def)

lemma yForClient_rows:
  assumes "rows_inv s"
  shows "map_of (lo_clientRows s) \<subseteq>\<^sub>m map_of (lo_clientRows (snd (yForClient c s)))"
  using assms by (auto simp: yForClient_def Let_def smap_emplace_lookup rows_inv_def map_le_def)

lemma yForClient_inv [inv_intros]:
  assumes "rows_inv s"
  shows "rows_inv (snd (yForClient c s))"
proof (cases "map_of (lo_clientRows s) c")
  case None
  let ?m = "map_of (lo_clientRows s)"
  have m': "map_of (smap_emplace c v (lo_clientRows s)) = ?m(c \<mapsto> v)" for v
    using assms None by (auto simp: smap_emplace_lookup rows_inv_def)
  have "inj_on (?m(c \<mapsto> lo_rowsInTable s)) (dom (?m(c \<mapsto> lo_rowsInTable s)))"
    using assms None unfolding rows_inv_def inj_on_def
    by (auto simp: dom_def ran_def set_eq_iff)
  moreover have "ran (?m(c \<mapsto> lo_rowsInTable s)) = {0..<lo_rowsInTable s + 1}"
    using assms None by (auto simp: rows_inv_def)
  ultimately show ?thesis
    using assms None by (simp add: yForClient_def Let_def rows_inv_def m' smap_emplace_length)
qed (use assms in \<open>simp add: yForClient_def\<close>)

lemmas logger_defs = logger_init_def logger_deinit_def errorln_def printAtPosition_def printColumnHeader_def
  printStatistics_def printServerStatus_def printServerStatistics_def printClientStatus_def

lemma logger_call_inv [inv_intros]: "rows_inv s \<Longrightarrow> rows_inv (snd (logger_call c s))"
  using yForClient_inv [of s]
  by (cases c) (auto simp: logger_defs Let_def split_beta rows_inv_def)

lemma logger_call_rows: "rows_inv s \<Longrightarrow> map_of (lo_clientRows s) \<subseteq>\<^sub>m map_of (lo_clientRows (snd (logger_call c s)))"
  using yForClient_rows [of s]
  by (cases c) (auto simp: logger_defs Let_def split_beta)

lemma log_run_inv: "rows_inv s \<Longrightarrow> rows_inv (snd (log_run cs s))"
  by (induction cs arbitrary: s) (simp_all add: split_beta Let_def logger_call_inv)

lemma log_run_rows: "rows_inv s \<Longrightarrow> map_of (lo_clientRows s) \<subseteq>\<^sub>m map_of (lo_clientRows (snd (log_run cs s)))"
proof (induction cs arbitrary: s)
  case (Cons c cs)
  then show ?case
    using logger_call_rows [of s c] logger_call_inv [of s c] by (auto simp: split_beta Let_def intro: map_le_trans)
qed simp

text \<open>The line a call about a client is printed on, relative to the top of the table.\<close>

fun client_call :: "log_call \<Rightarrow> (int \<times> string) option" where
  "client_call (Statistics row c q) = Some (row, c)"
| "client_call (Client_Status row c m) = Some (row, c)"
| "client_call _ = None"

definition printed_at :: "(string \<Rightarrow> int option) \<Rightarrow> log_call \<Rightarrow> screen_op list \<Rightarrow> bool" where
  "printed_at rows call out =
     (case client_call call of
        None \<Rightarrow> True
      | Some (base, c) \<Rightarrow> out = [] \<or> (\<exists>t. out = [Cout t]) \<or> (\<exists>y. rows c = Some y \<and> hd out = Move (base + y) 0))"

lemma printed_at_mono: "printed_at rows call out \<Longrightarrow> rows \<subseteq>\<^sub>m rows' \<Longrightarrow> printed_at rows' call out"
  by (fastforce simp: printed_at_def map_le_def dom_def split: option.splits)

lemma logger_call_printed:
  "rows_inv s \<Longrightarrow> printed_at (map_of (lo_clientRows (snd (logger_call c s)))) c (fst (logger_call c s))"
  using yForClient_row [of s] by (cases c) (auto simp: printed_at_def logger_defs Let_def split_beta)

lemma log_run_printed:
  "rows_inv s \<Longrightarrow> list_all2 (printed_at (map_of (lo_clientRows (snd (log_run cs s))))) cs (fst (log_run cs s))"
proof (induction cs arbitrary: s)
  case (Cons c cs)
  have "rows_inv (snd (logger_call c s))" using Cons.prems by (rule logger_call_inv)
  then show ?case
    using Cons printed_at_mono [OF logger_call_printed log_run_rows] by (simp add: split_beta Let_def)
qed simp

lemma logger_new_inv: "rows_inv logger_new"
  by (simp add: rows_inv_def logger_new_def)

text \<open>
  Whatever the threads log, each client that is shown keeps one row of the table, no two clients share
  a row, and the rows are used without a gap: there is one assignment of rows to clients such that every line about
  a client is printed at its row below the top of the table, or, without a terminal, as a plain line.
\<close>
lemma clients_have_own_rows:
  assumes "log_run calls logger_new = (outs, s)"
  shows "\<exists>rows. inj_on rows (dom rows) \<and> ran rows = {0..<int (card (dom rows))}
    \<and> list_all2 (printed_at rows) calls outs"
proof -
  let ?rows = "map_of (lo_clientRows s)"
  have inv: "rows_inv s" using log_run_inv [OF logger_new_inv, of calls] assms by simp
  then have "card (dom ?rows) = length (lo_clientRows s)"
    by (metis rows_inv_def dom_map_of_conv_image_fst smap_wf_distinct distinct_card length_map set_map)
  then show ?thesis
    using inv log_run_printed [OF logger_new_inv, of calls] assms by (intro exI [of _ ?rows]) (simp add: rows_inv_def)
qed


text \<open>Two clients, the second of which appears while the terminal is closed.\<close>

definition sample_calls :: "log_call list" where
  "sample_calls = [Init True True True, Client_Status 4 ''b:1'' ''x'', Client_Status 4 ''a:1'' ''y'', Deinit,
     Client_Status 4 ''c:1'' ''z'', Init True True True, Client_Status 4 ''b:1'' ''w'']"

definition sample_screen :: "screen_op list list" where
  "sample_screen = [[], [Move 4 0, Clrtoeol, Move 4 0, Printw ''b:1'', Printw '': '', Printw ''x'', Refresh],
     [Move 5 0, Clrtoeol, Move 5 0, Printw ''a:1'', Printw '': '', Printw ''y'', Refresh], [Endwin, Delscreen],
     [Cout ''Client c:1: z''], [], [Move 4 0, Clrtoeol, Move 4 0, Printw ''b:1'', Printw '': '', Printw ''w'', Refresh]]"

lemma sample_log_run: "fst (log_run sample_calls logger_new) = sample_screen"
  by (simp add: sample_calls_def sample_screen_def logger_new_def logger_defs yForClient_def)

lemma clients_have_own_rows_witness:
  "\<exists>rows. inj_on rows (dom rows) \<and> ran rows = {0..<int (card (dom rows))} \<and> list_all2 (printed_at rows) sample_calls sample_screen"
  using clients_have_own_rows [of sample_calls sample_screen "snd (log_run sample_calls logger_new)"]
  by (simp add: sample_log_run [symmetric])

section \<open>Errors\<close>

fun error_message :: "log_call \<Rightarrow> string list" where
  "error_message (Errorln m) = [m]"
| "error_message _ = []"

fun error_line :: "screen_op \<Rightarrow> string list" where
  "error_line (Cerr m) = [m]"
| "error_line _ = []"

definition error_lines :: "screen_op list \<Rightarrow> string list" where
  "error_lines ops = concat (map error_line ops)"

lemma error_lines_simps [simp]:
  "error_lines [] = []" "error_lines (x # xs) = error_line x @ error_lines xs"
  "error_lines (xs @ ys) = error_lines xs @ error_lines ys"
  by (simp_all add: error_lines_def)

lemma error_lines_none: "list_all (\<lambda>x. error_line x = []) ops \<Longrightarrow> error_lines ops = []"
  by (induction ops) auto

lemma error_lines_call:
  "error_lines (fst (logger_call c s)) = (if error_message c = [lo_lastMessage s] then [] else error_message c)
    \<and> lo_lastMessage (snd (logger_call c s)) = (case error_message c of [] \<Rightarrow> lo_lastMessage s | m # ms \<Rightarrow> m)"
  by (cases c) (auto simp: logger_defs Let_def split_beta yForClient_def list_all_iff intro!: error_lines_none)

lemma error_lines_run:
  "lo_lastMessage s # error_lines (concat (fst (log_run cs s))) = remdups_adj (lo_lastMessage s # concat (map error_message cs))"
proof (induction cs arbitrary: s)
  case (Cons c cs)
  show ?case
    using Cons [of "snd (logger_call c s)"] error_lines_call [of c s]
    by (cases c) (auto simp: split_beta Let_def)
qed simp

text \<open>
  An error is printed exactly when it differs from the error before it, whatever else is logged in between; the log
  starts as if the empty message had been printed.
\<close>

lemma errors_are_printed_once:
  "error_lines (concat (fst (log_run calls logger_new))) = tl (remdups_adj ([] # concat (map error_message calls)))"
proof -
  have "lo_lastMessage logger_new = []" by (simp add: logger_new_def)
  then show ?thesis using error_lines_run [of logger_new calls] by (metis list.sel(3))
qed

end
