(* ===== verification/Server_Launch.thy ===== *)
theory Server_Launch
  imports Server_Threads_Props Server_Log
begin

text \<open>
  The start of the server: \<open>main\<close> in \<open>Server/Source/Main.cpp\<close> with its options, the construction of
  \<open>Server\<close> and \<open>UDPEncryption::loadKeyfile\<close> (\<open>common/Encryption.cpp\<close>). The parsed command line, the number
  reader, the key files and the socket are parameters.
\<close>

record arguments =
  ar_containsOption :: "string \<Rightarrow> bool"
  ar_getValueForOption :: "string \<Rightarrow> string"
  ar_getFileForOption :: "string \<Rightarrow> string"

record machine =
  mc_getIntValue :: "string \<Rightarrow> int"
  mc_existsAsFile :: "string \<Rightarrow> bool"
  mc_loadFileAsData :: "string \<Rightarrow> bool \<times> u8 list"
  mc_getData :: "u8 list \<Rightarrow> bool"
  mc_bindToPort :: "int \<Rightarrow> bool"

text \<open>The result of the load, and the block it leaves behind.\<close>

definition loadKeyfile :: "machine \<Rightarrow> string \<Rightarrow> u8 list option \<Rightarrow> bool \<times> u8 list option" where
  "loadKeyfile mc filename outBlock =
     (if mc_existsAsFile mc filename
      then (let (loaded, block) = mc_loadFileAsData mc filename in (loaded, Some block))
      else (False, outBlock))"

record launch_config =
  lc_cryptoKey :: "u8 list option"
  lc_serverPort :: int
  lc_useFEC :: bool
  lc_bufferConfig :: server_buffer_config

definition default_launch :: launch_config where
  "default_launch = \<lparr>lc_cryptoKey = None, lc_serverPort = 7777, lc_useFEC = False, lc_bufferConfig = default_server_buffers\<rparr>"

text \<open>\<open>Inl\<close> is the message of a command that fails.\<close>

definition read_key :: "machine \<Rightarrow> arguments \<Rightarrow> launch_config \<Rightarrow> string + launch_config" where
  "read_key mc args c =
     (if ar_containsOption args ''--key|-k''
      then (let path = ar_getFileForOption args ''--key|-k'';
                (loaded, key) = loadKeyfile mc path (lc_cryptoKey c)
            in if \<not> mc_existsAsFile mc path \<or> \<not> loaded then Inl (''Failed to load crypto file from file '' @ path)
               else Inr (c\<lparr>lc_cryptoKey := key\<rparr>))
      else Inr c)"

definition read_port :: "arguments \<Rightarrow> launch_config \<Rightarrow> string + launch_config" where
  "read_port args c =
     (if ar_containsOption args ''--port|-P''
      then (let portValue = ar_getValueForOption args ''--port|-P''
            in case parseServerPort portValue of
                 Some port \<Rightarrow> Inr (c\<lparr>lc_serverPort := port\<rparr>)
               | None \<Rightarrow> Inl (''Invalid server port '' @ [CHR 0x27] @ portValue @ [CHR 0x27]
                   @ ''. Use --port=<port> or -P <port> with a value from 1 to 65535.''))
      else Inr c)"

definition int_option :: "machine \<Rightarrow> arguments \<Rightarrow> string \<Rightarrow> int \<Rightarrow> int" where
  "int_option mc args option otherwise =
     (if ar_containsOption args option then mc_getIntValue mc (ar_getValueForOption args option) else otherwise)"

definition read_buffers :: "machine \<Rightarrow> arguments \<Rightarrow> launch_config \<Rightarrow> launch_config" where
  "read_buffers mc args c =
     (let b = lc_bufferConfig c
      in c\<lparr>lc_useFEC := lc_useFEC c \<or> ar_containsOption args ''--fec|-F'',
           lc_bufferConfig :=
             \<lparr>serverIncomingJitterBuffer = int_option mc args ''--buffer|-b'' (serverIncomingJitterBuffer b),
              serverIncomingMaximumBuffer = int_option mc args ''--wait|-w'' (serverIncomingMaximumBuffer b),
              serverBufferPrefillOnConnect = int_option mc args ''--prefill|-p'' (serverBufferPrefillOnConnect b)\<rparr>\<rparr>)"

definition launch_options :: "machine \<Rightarrow> arguments \<Rightarrow> string + launch_config" where
  "launch_options mc args =
     (case read_key mc args default_launch of
        Inl e \<Rightarrow> Inl e
      | Inr c \<Rightarrow> (case read_port args c of Inl e \<Rightarrow> Inl e | Inr c' \<Rightarrow> Inr (read_buffers mc args c')))"

text \<open>The key that the threads get: the data of the block, unless there is none or it is too long.\<close>

definition server_key :: "machine \<Rightarrow> u8 list option \<Rightarrow> u8 list option" where
  "server_key mc cryptoKey =
     (case cryptoKey of
        None \<Rightarrow> None
      | Some block \<Rightarrow>
          if sizet_is_safe_as_int (word_of_nat (length block)) \<and> mc_getData mc block then Some block else None)"

definition mixdownSetup :: channel_setup where
  "mixdownSetup = channel_setup_of False [single_channel (channel_target_code Left), single_channel (channel_target_code Right)]"

datatype launch_result =
  Command_Failed string | Port_In_Use | Serving "server_state \<times> mix_scheduler" "u8 list option" int

definition server_main :: "machine \<Rightarrow> arguments \<Rightarrow> launch_result" where
  "server_main mc args =
     (case launch_options mc args of
        Inl e \<Rightarrow> Command_Failed e
      | Inr c \<Rightarrow>
          if \<not> mc_bindToPort mc (lc_serverPort c) then Port_In_Use
          else Serving (server_new (lc_useFEC c), scheduler_new mixdownSetup (lc_bufferConfig c))
                 (server_key mc (lc_cryptoKey c)) (lc_serverPort c))"

text \<open>
  The exit code; a server that serves ends only with the process. The result of a failed command, which is -1, is not
  looked at by \<open>main\<close>.
\<close>

fun exit_code :: "launch_result \<Rightarrow> int option" where
  "exit_code (Command_Failed e) = Some 0"
| "exit_code Port_In_Use = Some (- 1)"
| "exit_code (Serving st key port) = None"

lemma read_key_Inr:
  "read_key mc args c = Inr c' \<longleftrightarrow>
     (if ar_containsOption args ''--key|-k''
      then mc_existsAsFile mc (ar_getFileForOption args ''--key|-k'')
        \<and> (\<exists>key. mc_loadFileAsData mc (ar_getFileForOption args ''--key|-k'') = (True, key) \<and> c' = c\<lparr>lc_cryptoKey := Some key\<rparr>)
      else c' = c)"
  by (auto simp: read_key_def loadKeyfile_def Let_def split: prod.splits)

lemma read_port_Inr:
  "read_port args c = Inr c' \<longleftrightarrow>
     (if ar_containsOption args ''--port|-P''
      then \<exists>port. parseServerPort (ar_getValueForOption args ''--port|-P'') = Some port \<and> c' = c\<lparr>lc_serverPort := port\<rparr>
      else c' = c)"
  by (auto simp: read_port_def Let_def split: option.splits)

lemma parseServerPort_range: "parseServerPort s = Some p \<Longrightarrow> 1 \<le> p \<and> p \<le> 65535"
  by (auto simp: parseServerPort_def split: if_splits option.splits)

text \<open>The key and the port that were asked for.\<close>

definition key_usable :: "machine \<Rightarrow> arguments \<Rightarrow> bool" where
  "key_usable mc args \<longleftrightarrow> (ar_containsOption args ''--key|-k'' \<longrightarrow>
     mc_existsAsFile mc (ar_getFileForOption args ''--key|-k'') \<and> fst (mc_loadFileAsData mc (ar_getFileForOption args ''--key|-k'')))"

definition chosen_port :: "arguments \<Rightarrow> int option" where
  "chosen_port args =
     (if ar_containsOption args ''--port|-P'' then parseServerPort (ar_getValueForOption args ''--port|-P'') else Some 7777)"

lemma chosen_port_range: "chosen_port args = Some p \<Longrightarrow> 1 \<le> p \<and> p \<le> 65535"
  by (auto simp: chosen_port_def parseServerPort_range split: if_splits)

lemma launch_options_Inr:
  "launch_options mc args = Inr c \<longleftrightarrow> key_usable mc args \<and> (\<exists>p. chosen_port args = Some p \<and> c =
     (read_buffers mc args default_launch)\<lparr>lc_serverPort := p, lc_cryptoKey :=
        (if ar_containsOption args ''--key|-k'' then Some (snd (mc_loadFileAsData mc (ar_getFileForOption args ''--key|-k''))) else None)\<rparr>)"
proof -
  have "launch_options mc args = Inr c \<longleftrightarrow>
      (\<exists>c1 c2. read_key mc args default_launch = Inr c1 \<and> read_port args c1 = Inr c2 \<and> c = read_buffers mc args c2)"
    by (auto simp: launch_options_def split: sum.splits)
  also have "\<dots> \<longleftrightarrow> key_usable mc args \<and> (\<exists>p. chosen_port args = Some p \<and> c =
     (read_buffers mc args default_launch)\<lparr>lc_serverPort := p, lc_cryptoKey :=
        (if ar_containsOption args ''--key|-k'' then Some (snd (mc_loadFileAsData mc (ar_getFileForOption args ''--key|-k''))) else None)\<rparr>)"
    by (cases "mc_loadFileAsData mc (ar_getFileForOption args ''--key|-k'')")
      (auto simp: read_key_Inr read_port_Inr key_usable_def chosen_port_def read_buffers_def default_launch_def Let_def)
  finally show ?thesis .
qed


text \<open>A port, the redundancy switch and a negative bound that nothing checks.\<close>

definition sample_arguments :: arguments where
  "sample_arguments =
     \<lparr>ar_containsOption = (\<lambda>opt. opt \<in> {''--port|-P'', ''--fec|-F'', ''--wait|-w''}),
      ar_getValueForOption = (\<lambda>opt. if opt = ''--port|-P'' then decimal 8123 else ''-5''), ar_getFileForOption = (\<lambda>opt. [])\<rparr>"

definition sample_machine :: machine where
  "sample_machine =
     \<lparr>mc_getIntValue = (\<lambda>s. case from_chars_int s of Some (n, rest) \<Rightarrow> n | None \<Rightarrow> 0), mc_existsAsFile = (\<lambda>path. False),
      mc_loadFileAsData = (\<lambda>path. (False, [])), mc_getData = (\<lambda>block. block \<noteq> []), mc_bindToPort = (\<lambda>port. port = 8123)\<rparr>"

lemma sample_port: "chosen_port sample_arguments = Some 8123"
  using parseServerPort_roundtrip [of 8123] by (simp add: chosen_port_def sample_arguments_def)


end
