(* ===== verification/Spectrum_Analysis.thy ===== *)
theory Spectrum_Analysis
  imports Spsc_Queue Realtime_Frames
begin

text \<open>
  The spectrum worker, \<open>Client/Source/SpectrumAnalysisWorker.cpp\<close>: the audio callback hands it the blocks
  that are played, and its thread gives them to the analyser, which is a parameter. The worker is shown to be the direct
  analysis of the blocks it accepts, only later.
\<close>

section \<open>Worker\<close>

record 'a analyzer_api =
  az_prepare :: "real \<Rightarrow> 'a \<Rightarrow> 'a"
  az_reset :: "'a \<Rightarrow> 'a"
  az_process :: "real list list \<Rightarrow> 'a \<Rightarrow> 'a"

record 'a spectrum_worker =
  sw_queue :: "real list list list"
  sw_analyzer :: "'a option"
  sw_processed :: u64
  sw_dropped :: u64
  sw_running :: bool

definition spectrumQueueCapacity :: nat where "spectrumQueueCapacity = 8"

definition spectrum_new :: "'a option \<Rightarrow> 'a spectrum_worker" where
  "spectrum_new analyzer =
     \<lparr>sw_queue = [], sw_analyzer = analyzer, sw_processed = 0, sw_dropped = 0, sw_running = False\<rparr>"

definition spectrum_processFrame :: "'a analyzer_api \<Rightarrow> real list list \<Rightarrow> 'a spectrum_worker \<Rightarrow> 'a spectrum_worker" where
  "spectrum_processFrame A frame w =
     (case sw_analyzer w of
        None \<Rightarrow> w
      | Some a \<Rightarrow> w\<lparr>sw_analyzer := Some (az_process A frame a), sw_processed := sw_processed w + 1\<rparr>)"

text \<open>One turn of the loop of the thread.\<close>

definition spectrum_pass :: "'a analyzer_api \<Rightarrow> 'a spectrum_worker \<Rightarrow> 'a spectrum_worker" where
  "spectrum_pass A w =
     (if \<not> sw_running w then w
      else case queue_read (sw_queue w) of
        (None, q) \<Rightarrow> w
      | (Some frame, q) \<Rightarrow> spectrum_processFrame A frame (w\<lparr>sw_queue := q\<rparr>))"

text \<open>
  The thread that is asked to exit first takes what is queued. The wait for it is taken to be long enough.
\<close>

definition spectrum_shutdown :: "'a analyzer_api \<Rightarrow> 'a spectrum_worker \<Rightarrow> 'a spectrum_worker" where
  "spectrum_shutdown A w = ((spectrum_pass A ^^ length (sw_queue w)) w)\<lparr>sw_running := False\<rparr>"

definition spectrum_prepare :: "'a analyzer_api \<Rightarrow> real \<Rightarrow> int \<Rightarrow> 'a spectrum_worker \<Rightarrow> 'a spectrum_worker" where
  "spectrum_prepare A sampleRate maximumBlockSize w =
     (let w1 = spectrum_shutdown A w
      in if sw_analyzer w1 = None \<or> maximumBlockSize \<le> 0 \<or> int JAMMERNETZ_MAX_CALLBACK_SAMPLES < maximumBlockSize then w1
         else w1\<lparr>sw_analyzer := map_option (az_prepare A sampleRate) (sw_analyzer w1), sw_processed := 0,
                  sw_dropped := 0, sw_running := True\<rparr>)"

definition spectrum_release :: "'a analyzer_api \<Rightarrow> 'a spectrum_worker \<Rightarrow> 'a spectrum_worker" where
  "spectrum_release A w =
     (let w1 = spectrum_shutdown A w in w1\<lparr>sw_analyzer := map_option (az_reset A) (sw_analyzer w1)\<rparr>)"

text \<open>Both channels of the frame: a single channel is used twice, a missing one is silence.\<close>

definition spectrum_frame :: "real list option list \<Rightarrow> nat \<Rightarrow> real list list" where
  "spectrum_frame channels numSamples =
     map (\<lambda>destinationChannel. case channels ! min destinationChannel (length channels - 1) of
            Some row \<Rightarrow> take numSamples row | None \<Rightarrow> replicate numSamples 0) [0, 1]"

definition spectrum_enqueue :: "real list option list \<Rightarrow> nat \<Rightarrow> 'a spectrum_worker \<Rightarrow> bool \<times> 'a spectrum_worker" where
  "spectrum_enqueue channels numSamples w =
     (if \<not> sw_running w \<or> channels = [] \<or> numSamples = 0 \<or> JAMMERNETZ_MAX_CALLBACK_SAMPLES < numSamples
      then (False, w\<lparr>sw_dropped := sw_dropped w + 1\<rparr>)
      else (let (queued, q) = queue_write spectrumQueueCapacity (spectrum_frame channels numSamples) (sw_queue w)
            in (queued, if queued then w\<lparr>sw_queue := q\<rparr> else w\<lparr>sw_dropped := sw_dropped w + 1\<rparr>)))"

section \<open>The worker delays the analysis\<close>

datatype spectrum_op = Sp_Prepare real int | Sp_Release | Sp_Enqueue "real list option list" nat | Sp_Pass

fun spectrum_step :: "'a analyzer_api \<Rightarrow> spectrum_op \<Rightarrow> 'a spectrum_worker \<Rightarrow> bool \<times> 'a spectrum_worker" where
  "spectrum_step A (Sp_Prepare rate n) w = (True, spectrum_prepare A rate n w)"
| "spectrum_step A Sp_Release w = (True, spectrum_release A w)"
| "spectrum_step A (Sp_Enqueue channels n) w = spectrum_enqueue channels n w"
| "spectrum_step A Sp_Pass w = (True, spectrum_pass A w)"

fun spectrum_run :: "'a analyzer_api \<Rightarrow> spectrum_op list \<Rightarrow> 'a spectrum_worker \<Rightarrow> bool list \<times> 'a spectrum_worker" where
  "spectrum_run A [] w = ([], w)"
| "spectrum_run A (op # ops) w =
     (let (r, w1) = spectrum_step A op w; (rs, w2) = spectrum_run A ops w1 in (r # rs, w2))"

text \<open>The reference: the callback calls the analyser itself for every block that was accepted.\<close>

fun direct_step :: "'a analyzer_api \<Rightarrow> spectrum_op \<times> bool \<Rightarrow> 'a \<Rightarrow> 'a" where
  "direct_step A (Sp_Prepare rate n, r) a =
     (if 0 < n \<and> n \<le> int JAMMERNETZ_MAX_CALLBACK_SAMPLES then az_prepare A rate a else a)"
| "direct_step A (Sp_Release, r) a = az_reset A a"
| "direct_step A (Sp_Enqueue channels n, r) a = (if r then az_process A (spectrum_frame channels n) a else a)"
| "direct_step A (Sp_Pass, r) a = a"

text \<open>The blocks accepted and refused since the last successful \<open>prepare\<close>.\<close>

fun spectrum_counts :: "(spectrum_op \<times> bool) \<Rightarrow> nat \<times> nat \<Rightarrow> nat \<times> nat" where
  "spectrum_counts (Sp_Prepare rate n, r) c = (if 0 < n \<and> n \<le> int JAMMERNETZ_MAX_CALLBACK_SAMPLES then (0, 0) else c)"
| "spectrum_counts (Sp_Enqueue channels n, r) (taken, refused) = (if r then (taken + 1, refused) else (taken, refused + 1))"
| "spectrum_counts (_, r) c = c"

definition spectrum_inv :: "'a analyzer_api \<Rightarrow> 'a \<Rightarrow> nat \<times> nat \<Rightarrow> 'a spectrum_worker \<Rightarrow> bool" where
  "spectrum_inv A d c w \<longleftrightarrow> (\<exists>a. sw_analyzer w = Some a \<and> fold (az_process A) (sw_queue w) a = d)
     \<and> sw_processed w + word_of_nat (length (sw_queue w)) = word_of_nat (fst c) \<and> sw_dropped w = word_of_nat (snd c)
     \<and> length (sw_queue w) \<le> spectrumQueueCapacity \<and> (\<not> sw_running w \<longrightarrow> sw_queue w = [])"

lemma spectrum_pass_inv: "spectrum_inv A d c w \<Longrightarrow> spectrum_inv A d c (spectrum_pass A w)"
  by (cases "sw_queue w")
    (auto simp: spectrum_inv_def spectrum_pass_def spectrum_processFrame_def algebra_simps split: option.splits)

lemma spectrum_pass_queue:
  "sw_running w \<Longrightarrow> sw_analyzer w \<noteq> None \<Longrightarrow> sw_queue (spectrum_pass A w) = tl (sw_queue w) \<and> sw_running (spectrum_pass A w)
    \<and> sw_analyzer (spectrum_pass A w) \<noteq> None"
  by (cases "sw_queue w") (auto simp: spectrum_pass_def spectrum_processFrame_def)

lemma spectrum_passes_inv: "spectrum_inv A d c w \<Longrightarrow> spectrum_inv A d c ((spectrum_pass A ^^ n) w)"
  by (induction n) (auto intro: spectrum_pass_inv)

lemma spectrum_passes_queue:
  "sw_running w \<Longrightarrow> sw_analyzer w \<noteq> None \<Longrightarrow>
     sw_queue ((spectrum_pass A ^^ n) w) = drop n (sw_queue w) \<and> sw_running ((spectrum_pass A ^^ n) w)
     \<and> sw_analyzer ((spectrum_pass A ^^ n) w) \<noteq> None"
  by (induction n) (simp_all add: spectrum_pass_queue tl_drop drop_Suc)

lemma spectrum_shutdown_inv:
  assumes "spectrum_inv A d c w"
  shows "spectrum_inv A d c (spectrum_shutdown A w)" "sw_queue (spectrum_shutdown A w) = []"
proof -
  show q: "sw_queue (spectrum_shutdown A w) = []"
    using assms spectrum_passes_queue [of w "length (sw_queue w)" A]
    by (cases "sw_running w") (auto simp: spectrum_shutdown_def spectrum_inv_def)
  show "spectrum_inv A d c (spectrum_shutdown A w)"
    using spectrum_passes_inv [OF assms, of "length (sw_queue w)"] q
    by (auto simp: spectrum_shutdown_def spectrum_inv_def)
qed

lemma spectrum_step_inv:
  assumes "spectrum_inv A d c w" "spectrum_step A op w = (r, w')"
  shows "spectrum_inv A (direct_step A (op, r) d) (spectrum_counts (op, r) c) w'"
proof (cases op)
  case (Sp_Prepare rate n)
  then show ?thesis
    using spectrum_shutdown_inv [OF assms(1)] assms(2)
    by (auto simp: spectrum_prepare_def Let_def spectrum_inv_def)
next
  case Sp_Release
  then show ?thesis
    using spectrum_shutdown_inv [OF assms(1)] assms(2)
    by (auto simp: spectrum_release_def Let_def spectrum_inv_def)
next
  case (Sp_Enqueue channels n)
  then show ?thesis
    using assms by (cases c) (auto simp: spectrum_enqueue_def queue_write_def Let_def spectrum_inv_def algebra_simps split: if_splits)
next
  case Sp_Pass
  then show ?thesis using assms spectrum_pass_inv [OF assms(1)] by (cases c) simp
qed

lemma spectrum_run_inv:
  "spectrum_inv A d c w \<Longrightarrow> spectrum_run A ops w = (rs, w') \<Longrightarrow>
     spectrum_inv A (fold (direct_step A) (zip ops rs) d) (fold spectrum_counts (zip ops rs) c) w'"
proof (induction ops arbitrary: d c w rs w')
  case (Cons op ops)
  obtain r w1 where s: "spectrum_step A op w = (r, w1)" by (cases "spectrum_step A op w")
  obtain rs' w2 where t: "spectrum_run A ops w1 = (rs', w2)" by (cases "spectrum_run A ops w1")
  have "rs = r # rs'" "w' = w2" using Cons.prems(2) s t by auto
  then show ?case using Cons.IH [OF spectrum_step_inv [OF Cons.prems(1) s] t] by simp
qed simp

text \<open>
  C39: Whatever the message thread, the audio callback and the worker's thread do: once the blocks that still
  wait are processed, the analyser is in the state it would have if the callback had given it each accepted block
  at once, in order; at most eight blocks wait, none while the thread is stopped; and the counters, modulo \<open>2\<^sup>6\<^sup>4\<close>,
  account for every block since the last start.
\<close>
theorem spectrum_is_delayed_analysis:
  assumes "spectrum_run A ops (spectrum_new (Some a)) = (results, w)"
    and "fold spectrum_counts (zip ops results) (0, 0) = (taken, refused)"
  shows "map_option (fold (az_process A) (sw_queue w)) (sw_analyzer w) = Some (fold (direct_step A) (zip ops results) a)
    \<and> sw_processed w + word_of_nat (length (sw_queue w)) = word_of_nat taken \<and> sw_dropped w = word_of_nat refused
    \<and> length (sw_queue w) \<le> 8 \<and> (\<not> sw_running w \<longrightarrow> sw_queue w = [])"
proof -
  have "spectrum_inv A a (0, 0) (spectrum_new (Some a))" by (simp add: spectrum_inv_def spectrum_new_def)
  from spectrum_run_inv [OF this assms(1)] show ?thesis
    by (auto simp: assms(2) spectrum_inv_def spectrumQueueCapacity_def)
qed

text \<open>An analyser that keeps the first sample of the blocks; a mono block is refused before the start.\<close>

definition first_samples :: "real list analyzer_api" where
  "first_samples = \<lparr>az_prepare = (\<lambda>rate a. []), az_reset = (\<lambda>a. []), az_process = (\<lambda>frame a. a @ map hd frame)\<rparr>"

theorem spectrum_is_delayed_analysis_witness:
  "\<exists>w. spectrum_run first_samples [Sp_Enqueue [Some [7]] 1, Sp_Prepare 48000 64, Sp_Enqueue [Some [1, 2], None] 2,
        Sp_Enqueue [Some [3, 4]] 2, Sp_Pass] (spectrum_new (Some [])) = ([False, True, True, True, True], w)
    \<and> map_option (fold (az_process first_samples) (sw_queue w)) (sw_analyzer w) = Some [1, 0, 3, 3]"
proof -
  let ?ops = "[Sp_Enqueue [Some [7]] 1, Sp_Prepare 48000 64, Sp_Enqueue [Some [1, 2], None] 2, Sp_Enqueue [Some [3, 4]] 2, Sp_Pass]"
  define w where "w = snd (spectrum_run first_samples ?ops (spectrum_new (Some [])))"
  note defs = spectrum_new_def spectrum_enqueue_def spectrum_prepare_def spectrum_shutdown_def spectrum_pass_def
    spectrum_processFrame_def queue_write_def JAMMERNETZ_MAX_CALLBACK_SAMPLES_def spectrumQueueCapacity_def
  have run: "spectrum_run first_samples ?ops (spectrum_new (Some [])) = ([False, True, True, True, True], w)"
    by (simp add: w_def defs)
  have "fold spectrum_counts (zip ?ops [False, True, True, True, True]) (0, 0) = (2, 0)"
    by (simp add: JAMMERNETZ_MAX_CALLBACK_SAMPLES_def)
  from spectrum_is_delayed_analysis [OF run this] run show ?thesis
    by (auto simp: first_samples_def spectrum_frame_def JAMMERNETZ_MAX_CALLBACK_SAMPLES_def)
qed

end
