(* ===== verification/Client_Settings.thy ===== *)
theory Client_Settings
  imports Audio_Service
begin

text \<open>
  The controls that turn the choices of the user into the settings of the client: the channel controllers
  (\<open>ChannelController.cpp\<close>, \<open>ChannelControllerGroup.cpp\<close>), the device selector (\<open>DeviceSelector.cpp\<close>), and the
  selector of MIDI clock outputs (\<open>MidiDeviceSelector.cpp\<close>), all in \<open>Client/Source\<close>, and \<open>ValueTreeUtils\<close> of
  \<open>ApplicationState.cpp\<close>. Drawing and layout are left out; a control that is bound to a setting shows that
  setting and writes to it.
\<close>

section \<open>Channel controllers\<close>

text \<open>The settings of the controllers by their name.\<close>

type_synonym mixer_settings = "string \<Rightarrow> channel_controller option"

text \<open>The entries of the target selector with their numbers; the entry that is selected has an index, or -1.\<close>

definition target_entries :: "(string \<times> int) list" where
  "target_entries =
     map (\<lambda>(name, t). (name, uint (channel_target_code t) + 1))
       [(''Mute'', Mute), (''Left'', Left), (''Right'', Right), (''Mono'', Mono), (''Send'', SendMono),
        (''SendLeft'', SendLeft), (''SendRight'', SendRight)]"

definition selectedItemIndex :: "int \<Rightarrow> int" where
  "selectedItemIndex selectedId =
     (case find (\<lambda>(i, name, n). n = selectedId) (enumerate 0 target_entries) of None \<Rightarrow> - 1 | Some (i, e) \<Rightarrow> int i)"

definition target_of_index :: "int \<Rightarrow> channel_target" where
  "target_of_index i =
     (if i = 0 then Mute else if i = 1 then Left else if i = 2 then Right else if i = 3 then Mono
      else if i = 4 then SendMono else if i = 5 then SendLeft else if i = 6 then SendRight else Mute)"

definition bindControls :: "string \<Rightarrow> mixer_settings \<Rightarrow> mixer_settings" where
  "bindControls name mixer =
     (let c = (case mixer name of None \<Rightarrow> \<lparr>ct_target = None, ct_volume = None\<rparr> | Some c \<Rightarrow> c);
          c1 = (if ct_volume c = None then c\<lparr>ct_volume := Some 100\<rparr> else c);
          c2 = (if ct_target c1 = None then c1\<lparr>ct_target := Some (uint (channel_target_code Mono) + 1)\<rparr> else c1)
      in mixer(name \<mapsto> c2))"

text \<open>The slider keeps its value between 0 and 100.\<close>

definition setVolume :: "string \<Rightarrow> real \<Rightarrow> mixer_settings \<Rightarrow> mixer_settings" where
  "setVolume name volume mixer = mixer(name := map_option (\<lambda>c. c\<lparr>ct_volume := Some (min 100 (max 0 volume))\<rparr>) (mixer name))"

definition setTarget :: "string \<Rightarrow> u8 \<Rightarrow> mixer_settings \<Rightarrow> mixer_settings" where
  "setTarget name target mixer = mixer(name := map_option (\<lambda>c. c\<lparr>ct_target := Some (uint target + 1)\<rparr>) (mixer name))"

definition controller_target :: "string \<Rightarrow> mixer_settings \<Rightarrow> channel_target" where
  "controller_target name mixer =
     target_of_index (case Option.bind (mixer name) ct_target of None \<Rightarrow> - 1 | Some n \<Rightarrow> selectedItemIndex n)"

definition controller_volume :: "string \<Rightarrow> mixer_settings \<Rightarrow> real" where
  "controller_volume name mixer = (case Option.bind (mixer name) ct_volume of None \<Rightarrow> 0 | Some v \<Rightarrow> v) / 100"

text \<open>A group is the list of the names of its controllers.\<close>

definition group_setup_inputs :: "string list \<Rightarrow> mixer_settings \<Rightarrow> string list \<times> mixer_settings" where
  "group_setup_inputs activeChannelNames mixer =
     (let names = map (\<lambda>i. ''Input'' @ decimal i) [0..<length activeChannelNames]
      in (names, fold bindControls names mixer))"

definition session_controller :: "nat \<times> single_channel_setup \<Rightarrow> mixer_settings \<Rightarrow> mixer_settings" where
  "session_controller = (\<lambda>(i, channel) mixer.
     let name = ''Session'' @ decimal i
     in setTarget name (sc_target channel) (setVolume name (sc_volume channel * 100) (bindControls name mixer)))"

definition group_setup_session :: "channel_setup \<Rightarrow> mixer_settings \<Rightarrow> string list \<times> mixer_settings" where
  "group_setup_session sessionChannels mixer =
     (map (\<lambda>i. ''Session'' @ decimal i) [0..<length (cs_channels sessionChannels)],
      fold session_controller (enumerate 0 (cs_channels sessionChannels)) mixer)"

definition group_getCurrentTarget :: "string list \<Rightarrow> nat \<Rightarrow> mixer_settings \<Rightarrow> channel_target" where
  "group_getCurrentTarget controllers channel mixer =
     (if channel < length controllers then controller_target (controllers ! channel) mixer else Mute)"

definition group_getCurrentVolume :: "string list \<Rightarrow> nat \<Rightarrow> mixer_settings \<Rightarrow> real" where
  "group_getCurrentVolume controllers channel mixer =
     (if channel < length controllers then controller_volume (controllers ! channel) mixer else 0)"

lemma selectedItemIndex_entry: "selectedItemIndex (uint (channel_target_code t) + 1) = uint (channel_target_code t)"
  by (cases t) (simp_all add: selectedItemIndex_def target_entries_def)

lemma selectedItemIndex_none:
  assumes "n < 1 \<or> 7 < n"
  shows "selectedItemIndex n = - 1"
  using assms by (auto simp: selectedItemIndex_def target_entries_def)

lemma target_of_index_code [simp]: "target_of_index (uint (channel_target_code t)) = t"
  by (cases t) (simp_all add: target_of_index_def)

lemma target_number_cases:
  assumes "1 \<le> n" "n \<le> (7 :: int)"
  obtains t where "n = uint (channel_target_code t) + 1"
proof -
  have "n = 1 \<or> n = 2 \<or> n = 3 \<or> n = 4 \<or> n = 5 \<or> n = 6 \<or> n = 7" using assms by arith
  then show thesis
    using that [of Mute] that [of Left] that [of Right] that [of Mono] that [of SendMono] that [of SendLeft] that [of SendRight]
    by auto
qed

lemma decimal_inject [simp]: "decimal m = decimal n \<longleftrightarrow> m = n"
  by (metis read_decimal fst_conv of_nat_eq_iff)

lemma session_controller_other: "name \<noteq> ''Session'' @ decimal i \<Longrightarrow> session_controller (i, ch) mixer name = mixer name"
  by (simp add: session_controller_def Let_def setTarget_def setVolume_def bindControls_def)

lemma session_controllers_other:
  "(\<And>i. name \<noteq> ''Session'' @ decimal i) \<Longrightarrow> fold session_controller cs mixer name = mixer name"
  by (induction cs arbitrary: mixer) (auto simp: session_controller_other split_paired_all)

lemma session_controller_this:
  "\<exists>c. session_controller (i, ch) mixer (''Session'' @ decimal i) = Some c
    \<and> ct_target c = Some (uint (sc_target ch) + 1) \<and> ct_volume c = Some (min 100 (max 0 (sc_volume ch * 100)))"
  by (simp add: session_controller_def Let_def setTarget_def setVolume_def bindControls_def)

lemma session_controllers_later:
  "i < n \<Longrightarrow> fold session_controller (enumerate n cs) mixer (''Session'' @ decimal i) = mixer (''Session'' @ decimal i)"
  by (induction cs arbitrary: n mixer) (simp_all add: session_controller_other)

lemma session_controllers_shown:
  "i < length cs \<Longrightarrow> \<exists>c. fold session_controller (enumerate n cs) mixer (''Session'' @ decimal (n + i)) = Some c
    \<and> ct_target c = Some (uint (sc_target (cs ! i)) + 1) \<and> ct_volume c = Some (min 100 (max 0 (sc_volume (cs ! i) * 100)))"
proof (induction cs arbitrary: n i mixer)
  case (Cons ch cs)
  show ?case
  proof (cases i)
    case 0
    then show ?thesis
      using session_controller_this [of n ch mixer] session_controllers_later [of n "Suc n" cs] by simp
  next
    case (Suc j)
    then show ?thesis using Cons.IH [of j "Suc n"] Cons.prems by simp
  qed
qed simp

lemma input_not_session: "''Input'' @ s \<noteq> ''Session'' @ t"
  by simp

lemma controller_target_code:
  assumes "1 \<le> n" "n \<le> 7" "Option.bind (mixer name) ct_target = Some n"
  shows "channel_target_code (controller_target name mixer) = word_of_int (n - 1)"
proof -
  obtain t where "n = uint (channel_target_code t) + 1" using target_number_cases [OF assms(1,2)] .
  then show ?thesis using assms(3) by (simp add: controller_target_def selectedItemIndex_entry)
qed

lemma shown_target:
  "target_of_index (selectedItemIndex (uint b + 1)) = (case target_of_u8 b of None \<Rightarrow> Mute | Some t \<Rightarrow> t)" for b :: u8
proof (cases "target_of_u8 b")
  case None
  have "7 < uint b + 1"
  proof (rule ccontr)
    assume "\<not> 7 < uint b + 1"
    then obtain t where "uint b + 1 = uint (channel_target_code t) + 1"
      using target_number_cases [of "uint b + 1"] by (metis not_less uint_ge_0 le_add_same_cancel2)
    then have "b = channel_target_code t" by (simp add: word_uint_eqI)
    then show False using None by simp
  qed
  then show ?thesis using None by (simp add: selectedItemIndex_none target_of_index_def)
next
  case (Some t)
  then show ?thesis using target_of_u8_code [OF Some] by (simp add: selectedItemIndex_entry)
qed

lemma shown_volume: "min 100 (max 0 (v * 100)) / 100 = min 1 (max 0 v)" for v :: real
  by (auto simp: min_def max_def field_simps)

text \<open>
  What the user sees is what is sent and what is received. The controllers of the session show, for
  every channel of the session, its target, or mute when the number is unknown, and its volume between 0 and 1, and
  leave the controllers of the own inputs alone; and a controller that shows an existing choice
  makes the service send the target and the volume it shows.
\<close>
lemma controllers_show_what_is_sent:
  assumes "group_setup_session s mixer = (controllers, mixer')"
  shows "length controllers = length (cs_channels s)
    \<and> (\<forall>i < length (cs_channels s).
         group_getCurrentTarget controllers i mixer' = (case target_of_u8 (sc_target (cs_channels s ! i)) of None \<Rightarrow> Mute | Some t \<Rightarrow> t)
         \<and> group_getCurrentVolume controllers i mixer' = min 1 (max 0 (sc_volume (cs_channels s ! i))))
    \<and> (\<forall>i. mixer' (''Input'' @ decimal i) = mixer (''Input'' @ decimal i))
    \<and> (\<forall>id n v name. Option.bind (mixer' id) ct_target = Some n \<and> 1 \<le> n \<and> n \<le> 7 \<and> Option.bind (mixer' id) ct_volume = Some v \<longrightarrow>
         sc_target (controller_channel (mixer' id) name) = channel_target_code (controller_target id mixer')
         \<and> sc_volume (controller_channel (mixer' id) name) = controller_volume id mixer')"
proof -
  have m: "mixer' = fold session_controller (enumerate 0 (cs_channels s)) mixer"
    and c: "controllers = map (\<lambda>i. ''Session'' @ decimal i) [0..<length (cs_channels s)]"
    using assms by (simp_all add: group_setup_session_def)
  have "group_getCurrentTarget controllers i mixer' = (case target_of_u8 (sc_target (cs_channels s ! i)) of None \<Rightarrow> Mute | Some t \<Rightarrow> t)
      \<and> group_getCurrentVolume controllers i mixer' = min 1 (max 0 (sc_volume (cs_channels s ! i)))" if "i < length (cs_channels s)" for i
    using session_controllers_shown [OF that, of 0 mixer] that
    by (auto simp: m c group_getCurrentTarget_def group_getCurrentVolume_def controller_target_def controller_volume_def
        shown_target shown_volume)
  moreover have "mixer' (''Input'' @ decimal i) = mixer (''Input'' @ decimal i)" for i
    unfolding m by (rule session_controllers_other) simp
  moreover have "sc_target (controller_channel (mixer' id) name) = channel_target_code (controller_target id mixer')
      \<and> sc_volume (controller_channel (mixer' id) name) = controller_volume id mixer'"
    if "Option.bind (mixer' id) ct_target = Some n" "1 \<le> n" "n \<le> 7" "Option.bind (mixer' id) ct_volume = Some v" for id n v name
    using controller_target_code [of n mixer' id] that
    by (simp add: controller_channel_def single_channel_def controller_volume_def)
  ultimately show ?thesis by (simp add: c)
qed

lemma controllers_show_what_is_sent_witness:
  "\<exists>controllers mixer'. group_setup_session (channel_setup_of False [single_channel 2, (single_channel 9)\<lparr>sc_volume := 3\<rparr>]) Map.empty = (controllers, mixer')
    \<and> map (\<lambda>i. (group_getCurrentTarget controllers i mixer', group_getCurrentVolume controllers i mixer')) [0, 1] = [(Right, 1), (Mute, 1)]
    \<and> mixer' ''Input0'' = None"
proof -
  let ?s = "channel_setup_of False [single_channel 2, (single_channel 9)\<lparr>sc_volume := 3\<rparr>]"
  obtain controllers mixer' where g: "group_setup_session ?s Map.empty = (controllers, mixer')" by (cases "group_setup_session ?s Map.empty")
  note shown = controllers_show_what_is_sent [OF g]
  have "mixer' (''Input'' @ decimal 0) = None" using shown by simp
  moreover have "decimal 0 = ''0''" by code_simp
  moreover have "\<forall>i < 2. group_getCurrentTarget controllers i mixer' = (if i = 0 then Right else Mute)
      \<and> group_getCurrentVolume controllers i mixer' = 1"
    using shown by (auto simp: channel_setup_of_def single_channel_def target_of_u8_def less_2_cases_iff)
  ultimately show ?thesis using g by auto
qed

section \<open>Devices\<close>

text \<open>
  The settings of one selector: the name of the device, the count of its channels, and the channels by their number, each
  with a name and whether it is active, as far as these have been written.
\<close>

record channel_entry =
  ce_name :: "string option"
  ce_active :: "bool option"

record selector_settings =
  st_deviceName :: string
  st_channelCount :: nat
  st_channels :: "nat \<Rightarrow> channel_entry option"

text \<open>What \<open>AudioService::getSetup\<close> reads: a missing property reads as an empty name, or as not active.\<close>

definition choice_of :: "selector_settings \<Rightarrow> device_choice" where
  "choice_of t =
     \<lparr>dc_deviceName = st_deviceName t,
      dc_channels = map (\<lambda>i. map_option (\<lambda>c. (case ce_name c of None \<Rightarrow> [] | Some n \<Rightarrow> n, ce_active c = Some True)) (st_channels t i))
        [0..<st_channelCount t]\<rparr>"

record selector_data =
  se_deviceType :: string
  se_inputs :: selector_settings
  se_outputs :: selector_settings

text \<open>The channel names of a device that was created for an output and an input of its type.\<close>

record machine_type =
  mt_name :: string
  mt_separateInputsAndOutputs :: bool
  mt_createDevice :: "string \<Rightarrow> string \<Rightarrow> (string list \<times> string list) option"

definition add_channel :: "nat \<times> string \<Rightarrow> (nat \<Rightarrow> channel_entry option) \<Rightarrow> nat \<Rightarrow> channel_entry option" where
  "add_channel = (\<lambda>(index, channel) channelProps.
     let prop = (case channelProps index of None \<Rightarrow> \<lparr>ce_name = None, ce_active = None\<rparr> | Some c \<Rightarrow> c);
         prop1 = (if ce_name prop = None then prop\<lparr>ce_name := Some channel\<rparr> else prop);
         prop2 = (if ce_active prop1 = None then prop1\<lparr>ce_active := Some False\<rparr> else prop1)
     in channelProps(index \<mapsto> prop2))"

definition show_channels :: "string list \<Rightarrow> selector_settings \<Rightarrow> selector_settings" where
  "show_channels channels t =
     t\<lparr>st_channelCount := length channels, st_channels := fold add_channel (enumerate 0 channels) (st_channels t)\<rparr>"

text \<open>
  The selector of the inputs or of the outputs learns that its device name has changed. A type whose devices are both
  takes the input's name for the output too. The result also has the captions of the channel buttons.
\<close>

definition deviceNameChanged :: "machine_type list \<Rightarrow> bool \<Rightarrow> string \<Rightarrow> selector_data \<Rightarrow> string list \<times> selector_data" where
  "deviceNameChanged types inputDevices name d =
     (case find (\<lambda>t. mt_name t = se_deviceType d) types of
        None \<Rightarrow> ([], d)
      | Some t \<Rightarrow>
          if name = [] then ([], d)
          else (let (d1, device) =
                      (if mt_separateInputsAndOutputs t
                       then (d, if inputDevices then mt_createDevice t [] name else mt_createDevice t name [])
                       else (if inputDevices then d\<lparr>se_outputs := (se_outputs d)\<lparr>st_deviceName := name\<rparr>\<rparr> else d,
                             mt_createDevice t name name))
                in case device of
                     None \<Rightarrow> ([], d1)
                   | Some (inputs, outputs) \<Rightarrow>
                       if inputDevices then (inputs, d1\<lparr>se_inputs := show_channels inputs (se_inputs d1)\<rparr>)
                       else (outputs, d1\<lparr>se_outputs := show_channels outputs (se_outputs d1)\<rparr>)))"

lemma add_channel_other: "i \<noteq> j \<Longrightarrow> add_channel (i, c) p j = p j"
  by (simp add: add_channel_def Let_def)

lemma add_channels_earlier: "i < n \<Longrightarrow> fold add_channel (enumerate n cs) p i = p i"
  by (induction cs arbitrary: n p) (simp_all add: add_channel_other)

lemma add_channels_later: "n + length cs \<le> i \<Longrightarrow> fold add_channel (enumerate n cs) p i = p i"
  by (induction cs arbitrary: n p) (simp_all add: add_channel_other)

definition filled_channel :: "channel_entry option \<Rightarrow> string \<Rightarrow> channel_entry" where
  "filled_channel p channel =
     (let prop = (case p of None \<Rightarrow> \<lparr>ce_name = None, ce_active = None\<rparr> | Some c \<Rightarrow> c)
      in prop\<lparr>ce_name := Some (case ce_name prop of None \<Rightarrow> channel | Some n \<Rightarrow> n),
              ce_active := Some (case ce_active prop of None \<Rightarrow> False | Some a \<Rightarrow> a)\<rparr>)"

lemma add_channel_this: "add_channel (i, c) p i = Some (filled_channel (p i) c)"
  by (auto simp: add_channel_def filled_channel_def Let_def split: option.splits)

lemma add_channels_nth:
  "i < length cs \<Longrightarrow> fold add_channel (enumerate n cs) p (n + i) = Some (filled_channel (p (n + i)) (cs ! i))"
proof (induction cs arbitrary: n i p)
  case (Cons c cs)
  show ?case
  proof (cases i)
    case 0
    then show ?thesis using add_channels_earlier [of n "Suc n" cs] by (simp add: add_channel_this)
  next
    case (Suc j)
    then show ?thesis using Cons.IH [of j "Suc n" "add_channel (n, c) p"] Cons.prems by (simp add: add_channel_other)
  qed
qed simp

lemma show_channels_nth:
  "st_channels (show_channels channels t) i =
     (if i < length channels then Some (filled_channel (st_channels t i) (channels ! i)) else st_channels t i)"
  using add_channels_nth [of i channels 0] add_channels_later [of 0 channels i] by (simp add: show_channels_def)

lemma show_channels_count [simp]: "st_channelCount (show_channels channels t) = length channels"
  by (simp add: show_channels_def)

lemma device_chosen:
  assumes "find (\<lambda>t. mt_name t = se_deviceType d) types = Some t" "mt_separateInputsAndOutputs t"
    and "name \<noteq> []" "mt_createDevice t [] name = Some (inputs, os)"
  shows "deviceNameChanged types True name d = (inputs, d\<lparr>se_inputs := show_channels inputs (se_inputs d)\<rparr>)"
  using assms by (simp add: deviceNameChanged_def)

text \<open>
  After another device has been chosen, the first channels of the selector keep the names, and the choice, of the device before,
  although the buttons show the names of the new one: the names that are sent with the audio are wrong.
\<close>

lemma channel_names_of_first_device_stay:
  assumes "find (\<lambda>t. mt_name t = se_deviceType d) types = Some t" "mt_separateInputsAndOutputs t"
    and "a \<noteq> []" "b \<noteq> []" "mt_createDevice t [] a = Some (first_names, os)" "mt_createDevice t [] b = Some (second_names, ps)"
    and "st_channels (se_inputs d) = Map.empty"
    and "deviceNameChanged types True a d = (captions, d')" "deviceNameChanged types True b d' = (captions', d'')"
  shows "captions' = second_names
    \<and> map (map_option fst) (dc_channels (choice_of (se_inputs d'')))
      = map (\<lambda>i. Some (if i < length first_names then first_names ! i else second_names ! i)) [0..<length second_names]"
proof -
  have d': "d' = d\<lparr>se_inputs := show_channels first_names (se_inputs d)\<rparr>"
    using device_chosen [OF assms(1,2,3,5)] assms(8) by simp
  then have "find (\<lambda>t. mt_name t = se_deviceType d') types = Some t" using assms(1) by simp
  from device_chosen [OF this assms(2,4,6)] assms(9)
  have "captions' = second_names" "d'' = d'\<lparr>se_inputs := show_channels second_names (se_inputs d')\<rparr>" by auto
  then show ?thesis
    using assms(7) by (auto simp: d' choice_of_def show_channels_nth filled_channel_def)
qed

text \<open>Two sound cards with different channel names.\<close>

definition two_cards :: machine_type where
  "two_cards = \<lparr>mt_name = ''ALSA'', mt_separateInputsAndOutputs = True,
     mt_createDevice = (\<lambda>output input. if input = ''one'' then Some ([''Mic''], []) else Some ([''Line'', ''Aux''], []))\<rparr>"

definition no_selection :: selector_data where
  "no_selection =
     (let t = \<lparr>st_deviceName = [], st_channelCount = 0, st_channels = Map.empty\<rparr>
      in \<lparr>se_deviceType = ''ALSA'', se_inputs = t, se_outputs = t\<rparr>)"

lemma channel_names_of_first_device_stay_witness:
  "\<exists>d'. deviceNameChanged [two_cards] True ''two'' (snd (deviceNameChanged [two_cards] True ''one'' no_selection)) = ([''Line'', ''Aux''], d')
    \<and> map (map_option fst) (dc_channels (choice_of (se_inputs d'))) = [Some ''Mic'', Some ''Aux'']"
proof -
  obtain c d where one: "deviceNameChanged [two_cards] True ''one'' no_selection = (c, d)"
    by (cases "deviceNameChanged [two_cards] True ''one'' no_selection")
  obtain c' d' where two: "deviceNameChanged [two_cards] True ''two'' d = (c', d')"
    by (cases "deviceNameChanged [two_cards] True ''two'' d")
  show ?thesis
    using channel_names_of_first_device_stay [OF _ _ _ _ _ _ _ one two, of two_cards "[''Mic'']" "[]" "[''Line'', ''Aux'']" "[]"] one two
    by (simp add: two_cards_def no_selection_def upt_rec Let_def)
qed

end
