(* ===== verification/Midi_Selector.thy ===== *)
theory Midi_Selector
  imports Prelude
begin

text \<open>
  The selector of the MIDI clock outputs, \<open>Client/Source/MidiDeviceSelector.cpp\<close>: a button for each output, and the
  settings in which the chosen outputs are kept for the next start. The tree of settings is a
  parameter with the laws its documentation gives: \<open>getOrCreateChildWithName\<close> returns the first child of that
  type, or adds a new one at the end.
\<close>

record 'c children_api =
  ch_getOrCreateChild :: "string \<Rightarrow> 'c \<Rightarrow> nat \<times> 'c"
  ch_setProperty :: "nat \<Rightarrow> string \<Rightarrow> string \<Rightarrow> 'c \<Rightarrow> 'c"
  ch_getNumChildren :: "'c \<Rightarrow> nat"
  ch_getProperty :: "nat \<Rightarrow> string \<Rightarrow> 'c \<Rightarrow> string"

record midi_device =
  md_name :: string
  md_identifier :: string

type_synonym midi_buttons = "(midi_device \<times> bool) list"

abbreviation (input) VALUE_ENTRY :: string where "VALUE_ENTRY \<equiv> ''Entry''"
abbreviation (input) VALUE_DEVICE_NAME :: string where "VALUE_DEVICE_NAME \<equiv> ''Device''"
abbreviation (input) VALUE_DEVICE_ID :: string where "VALUE_DEVICE_ID \<equiv> ''DeviceIdentity''"

definition selectedOutputDevices :: "midi_buttons \<Rightarrow> midi_device list" where
  "selectedOutputDevices buttons = map fst (filter snd buttons)"

definition store_device :: "'c children_api \<Rightarrow> midi_device \<Rightarrow> 'c \<Rightarrow> 'c" where
  "store_device A device settings =
     (let (child, settings1) = ch_getOrCreateChild A VALUE_ENTRY settings
      in ch_setProperty A child VALUE_DEVICE_ID (md_identifier device)
           (ch_setProperty A child VALUE_DEVICE_NAME (md_name device) settings1))"

definition storeInSettings :: "'c children_api \<Rightarrow> midi_buttons \<Rightarrow> 'c \<Rightarrow> 'c" where
  "storeInSettings A buttons settings = fold (store_device A) (selectedOutputDevices buttons) settings"

definition load_entry :: "string \<Rightarrow> midi_buttons \<Rightarrow> midi_buttons" where
  "load_entry deviceName buttons = map (\<lambda>(device, on). (device, on \<or> md_name device = deviceName)) buttons"

definition loadFromSettings :: "'c children_api \<Rightarrow> 'c \<Rightarrow> midi_buttons \<Rightarrow> midi_buttons" where
  "loadFromSettings A settings buttons =
     fold (\<lambda>i. load_entry (ch_getProperty A i VALUE_DEVICE_NAME settings)) [0..<ch_getNumChildren A settings] buttons"

definition refreshList :: "'c children_api \<Rightarrow> midi_device list \<Rightarrow> 'c \<Rightarrow> midi_buttons" where
  "refreshList A currentOutputs settings = loadFromSettings A settings (map (\<lambda>d. (d, False)) currentOutputs)"

text \<open>A click turns a button over, stores the selection and reports it.\<close>

definition midi_click :: "'c children_api \<Rightarrow> nat \<Rightarrow> midi_buttons \<times> 'c \<Rightarrow> midi_device list \<times> midi_buttons \<times> 'c" where
  "midi_click A i = (\<lambda>(buttons, settings).
     let buttons1 = buttons[i := (fst (buttons ! i), \<not> snd (buttons ! i))]
     in (selectedOutputDevices buttons1, buttons1, storeInSettings A buttons1 settings))"

section \<open>What the settings keep\<close>

type_synonym child_view = "string \<times> (string \<Rightarrow> string option)"

fun first_child :: "string \<Rightarrow> child_view list \<Rightarrow> nat option" where
  "first_child t [] = None"
| "first_child t ((t', props) # cs) = (if t' = t then Some 0 else map_option Suc (first_child t cs))"

definition children_laws :: "'c children_api \<Rightarrow> ('c \<Rightarrow> child_view list) \<Rightarrow> bool" where
  "children_laws A view \<longleftrightarrow>
     (\<forall>t c. (case first_child t (view c) of
               Some i \<Rightarrow> fst (ch_getOrCreateChild A t c) = i \<and> view (snd (ch_getOrCreateChild A t c)) = view c
             | None \<Rightarrow> fst (ch_getOrCreateChild A t c) = length (view c)
                 \<and> view (snd (ch_getOrCreateChild A t c)) = view c @ [(t, Map.empty)]))
     \<and> (\<forall>i k v c. i < length (view c) \<longrightarrow>
          view (ch_setProperty A i k v c) = (view c)[i := (fst (view c ! i), (snd (view c ! i))(k \<mapsto> v))])
     \<and> (\<forall>c. ch_getNumChildren A c = length (view c))
     \<and> (\<forall>i k c. i < length (view c) \<longrightarrow> ch_getProperty A i k c = (case snd (view c ! i) k of None \<Rightarrow> [] | Some v \<Rightarrow> v))"

text \<open>Settings that hold at most one entry, with the name of the device stored last.\<close>

definition holds_entry :: "('c \<Rightarrow> child_view list) \<Rightarrow> string option \<Rightarrow> 'c \<Rightarrow> bool" where
  "holds_entry view name c =
     (case name of
        None \<Rightarrow> view c = []
      | Some n \<Rightarrow> \<exists>props. view c = [(VALUE_ENTRY, props)] \<and> props VALUE_DEVICE_NAME = Some n)"

lemma child_found:
  assumes "children_laws A view" "first_child t (view c) = Some i"
  shows "fst (ch_getOrCreateChild A t c) = i" "view (snd (ch_getOrCreateChild A t c)) = view c"
  using assms(1) unfolding children_laws_def by (auto dest!: conjunct1 spec [where x = t] spec [where x = c] simp: assms(2))

lemma child_added:
  assumes "children_laws A view" "first_child t (view c) = None"
  shows "fst (ch_getOrCreateChild A t c) = length (view c)" "view (snd (ch_getOrCreateChild A t c)) = view c @ [(t, Map.empty)]"
  using assms(1) unfolding children_laws_def by (auto dest!: conjunct1 spec [where x = t] spec [where x = c] simp: assms(2))

lemma child_set:
  assumes "children_laws A view" "view c = [(t, props)]"
  shows "view (ch_setProperty A 0 k v c) = [(t, props(k \<mapsto> v))]"
proof -
  have "0 < length (view c)" using assms(2) by simp
  then have "view (ch_setProperty A 0 k v c) = (view c)[0 := (fst (view c ! 0), (snd (view c ! 0))(k \<mapsto> v))]"
    using assms(1) unfolding children_laws_def by blast
  then show ?thesis using assms(2) by simp
qed

lemma store_device_holds:
  assumes "children_laws A view" "holds_entry view name c"
  shows "holds_entry view (Some (md_name d)) (store_device A d c)"
proof -
  obtain i c1 where g: "ch_getOrCreateChild A VALUE_ENTRY c = (i, c1)" by (cases "ch_getOrCreateChild A VALUE_ENTRY c")
  have "i = 0 \<and> (\<exists>props. view c1 = [(VALUE_ENTRY, props)])"
  proof (cases name)
    case None
    then have "view c = []" using assms(2) by (simp add: holds_entry_def)
    then show ?thesis using child_added [OF assms(1), of VALUE_ENTRY c] g by simp
  next
    case (Some n)
    then obtain props where "view c = [(VALUE_ENTRY, props)]" using assms(2) by (auto simp: holds_entry_def)
    then show ?thesis using child_found [OF assms(1), of VALUE_ENTRY c 0] g by simp
  qed
  then obtain props where i: "i = 0" and v: "view c1 = [(VALUE_ENTRY, props)]" by blast
  show ?thesis
    by (simp add: store_device_def g i child_set [OF assms(1) child_set [OF assms(1) v]] holds_entry_def)
qed

lemma store_devices_hold:
  assumes "children_laws A view"
  shows "holds_entry view name c \<Longrightarrow>
    holds_entry view (if ds = [] then name else Some (md_name (last ds))) (fold (store_device A) ds c)"
proof (induction ds arbitrary: name c)
  case (Cons d ds)
  then show ?case using store_device_holds [OF assms Cons.prems, of d] by (cases "ds = []") fastforce+
qed simp

lemma refresh_entry:
  assumes "children_laws A view" "holds_entry view name c"
  shows "refreshList A outputs c = map (\<lambda>d. (d, Some (md_name d) = name)) outputs"
proof (cases name)
  case None
  then show ?thesis using assms by (simp add: refreshList_def loadFromSettings_def children_laws_def holds_entry_def)
next
  case (Some n)
  then obtain props where v: "view c = [(VALUE_ENTRY, props)]" "props VALUE_DEVICE_NAME = Some n"
    using assms(2) by (auto simp: holds_entry_def)
  then have "ch_getNumChildren A c = 1" "ch_getProperty A 0 VALUE_DEVICE_NAME c = n"
    using assms(1) by (auto simp: children_laws_def)
  then show ?thesis by (auto simp: refreshList_def loadFromSettings_def load_entry_def Some)
qed

fun midi_clicks :: "'c children_api \<Rightarrow> nat list \<Rightarrow> midi_buttons \<times> 'c \<Rightarrow> midi_device list list \<times> midi_buttons \<times> 'c" where
  "midi_clicks A [] s = ([], s)"
| "midi_clicks A (i # is) s =
     (let (r, s1) = midi_click A i s; (rs, s2) = midi_clicks A is s1 in (r # rs, s2))"

text \<open>The name of the last device of the last selection that was not empty.\<close>

definition kept_name :: "midi_device list list \<Rightarrow> string option \<Rightarrow> string option" where
  "kept_name reports name = fold (\<lambda>ds n. if ds = [] then n else Some (md_name (last ds))) reports name"

lemma midi_clicks_hold:
  assumes "children_laws A view"
  shows "holds_entry view name (snd s) \<Longrightarrow> midi_clicks A is s = (reports, s') \<Longrightarrow> holds_entry view (kept_name reports name) (snd s')"
proof (induction "is" arbitrary: s name reports)
  case (Cons i "is")
  obtain r s1 where r: "midi_click A i s = (r, s1)" by (cases "midi_click A i s")
  obtain rs s2 where rs: "midi_clicks A is s1 = (rs, s2)" by (cases "midi_clicks A is s1")
  have "holds_entry view (if r = [] then name else Some (md_name (last r))) (snd s1)"
    using store_devices_hold [OF assms Cons.prems(1), of r] r
    by (auto simp: midi_click_def storeInSettings_def Let_def split_beta)
  from Cons.IH [OF this] Cons.prems(2) r rs show ?case by (auto simp: kept_name_def)
qed (simp add: kept_name_def)

text \<open>
  C40: However the user clicks, after the next start at most the outputs with one name are selected: the name of the last
  output of the last selection that was not empty. The other outputs of a selection are not restored, and a
  selection that was emptied comes back, because every output is stored in the same entry, which is never removed.
\<close>
theorem only_last_midi_output_is_kept:
  assumes "children_laws A view" "view settings = []"
    and "midi_clicks A clicks (refreshList A outputs settings, settings) = (reports, buttons, settings')"
  shows "refreshList A outputs' settings' = map (\<lambda>d. (d, Some (md_name d) = kept_name reports None)) outputs'"
proof -
  have "holds_entry view None (snd (refreshList A outputs settings, settings))" using assms(2) by (simp add: holds_entry_def)
  from midi_clicks_hold [OF assms(1) this assms(3)] show ?thesis using refresh_entry [OF assms(1)] by simp
qed

text \<open>A list of children; two outputs are switched on, and the first one off again.\<close>

definition child_list :: "child_view list children_api" where
  "child_list =
     \<lparr>ch_getOrCreateChild = (\<lambda>t c. case first_child t c of Some i \<Rightarrow> (i, c) | None \<Rightarrow> (length c, c @ [(t, Map.empty)])),
      ch_setProperty = (\<lambda>i k v c. c[i := (fst (c ! i), (snd (c ! i))(k \<mapsto> v))]),
      ch_getNumChildren = length,
      ch_getProperty = (\<lambda>i k c. case snd (c ! i) k of None \<Rightarrow> [] | Some v \<Rightarrow> v)\<rparr>"

lemma child_list_laws: "children_laws child_list (\<lambda>c. c)"
  by (auto simp: children_laws_def child_list_def split: option.splits)

definition synth :: midi_device where "synth = \<lparr>md_name = ''Synth'', md_identifier = ''1''\<rparr>"

definition drums :: midi_device where "drums = \<lparr>md_name = ''Drums'', md_identifier = ''2''\<rparr>"

theorem only_last_midi_output_is_kept_witness:
  "\<exists>buttons settings. midi_clicks child_list [1, 0] (refreshList child_list [synth, drums] [], []) = ([[drums], [synth, drums]], buttons, settings)
    \<and> refreshList child_list [synth, drums] settings = [(synth, False), (drums, True)]"
proof -
  obtain reports buttons settings where
    run: "midi_clicks child_list [1, 0] (refreshList child_list [synth, drums] [], []) = (reports, buttons, settings)"
    by (cases "midi_clicks child_list [1, 0] (refreshList child_list [synth, drums] [], [])") blast
  have "refreshList child_list [synth, drums] [] = [(synth, False), (drums, False)]"
    by (simp add: refreshList_def loadFromSettings_def child_list_def)
  then have "reports = [[drums], [synth, drums]]"
    using run by (auto simp: midi_click_def selectedOutputDevices_def Let_def)
  moreover have "refreshList child_list [synth, drums] settings = [(synth, False), (drums, True)]"
    using only_last_midi_output_is_kept [OF child_list_laws refl run, of "[synth, drums]"] calculation
    by (simp add: kept_name_def synth_def drums_def)
  ultimately show ?thesis using run by blast
qed

end
