(* ===== verification/Client_Display.thy ===== *)
theory Client_Display
  imports Client_Settings Text_Format
begin

text \<open>
  The decisions of the main window, \<open>Client/Source/MainComponent.cpp\<close>, and of the recording panel,
  \<open>RecordingInfo.cpp\<close>: what is shown of the clients, the connection, the session and the disk, and the sizes of
  the two panels that can be moved. Drawing is left out; a label is its text. The addresses, and numbers written with a
  count of significant digits, are parameters.
\<close>

section \<open>Statistics of the clients\<close>

text \<open>
  Each call of \<open>AudioService::getClientInfo\<close> reads what the receiver thread has stored last, so each has an argument
  of its own. \<open>None\<close> is an access through a null pointer.
\<close>

definition droppedPercentage :: "stream_quality_info \<Rightarrow> real" where
  "droppedPercentage q =
     (if qi_packagesPopped q = 0 then 0
      else real_of_int (sint (qi_droppedPacketCounter q)) / real_of_int (uint (qi_packagesPopped q)) * 100)"

definition client_line :: "(real \<Rightarrow> string) \<Rightarrow> string \<Rightarrow> stream_quality_info \<Rightarrow> string" where
  "client_line digits2 ip q =
     ip @ '':'' @ decimal (unat (qi_packagesPushed q - qi_packagesPopped q)) @ '' len, ''
     @ int_text (sint (qi_outOfOrderPacketCounter q)) @ '' ooO, '' @ decimal (unat (qi_maxWrongOrderSpan q)) @ '' span, ''
     @ int_text (sint (qi_duplicatePacketCounter q)) @ '' dup, '' @ decimal (unat (qi_dropsHealed q)) @ '' heal, ''
     @ decimal (unat (qi_tooLateOrDuplicate q)) @ '' late, '' @ int_text (sint (qi_droppedPacketCounter q)) @ '' drop (''
     @ digits2 (droppedPercentage q) @ ''%), '' @ decimal (unat (qi_maxLengthOfGap q)) @ '' gap''"

definition getIPAddress :: "(u8 list \<Rightarrow> bool \<Rightarrow> string) \<Rightarrow> u8 \<Rightarrow> client_info_message \<Rightarrow> string" where
  "getIPAddress addressText clientNo m =
     (if clientNo < getNumClients m
      then (let c = cm_clientInfos m ! unat clientNo in addressText (ci_ipAddress c) (ci_isIPV6 c) @ '':'' @ int_text (ci_portNumber c))
      else ''0.0.0.0'')"

definition statistics_line :: "(u8 list \<Rightarrow> bool \<Rightarrow> string) \<Rightarrow> (real \<Rightarrow> string) \<Rightarrow> u8 \<Rightarrow> client_info_message \<Rightarrow> string" where
  "statistics_line addressText digits2 i m = client_line digits2 (getIPAddress addressText i m) (getStreamQuality i m)"

definition set_label :: "nat \<Rightarrow> string \<Rightarrow> string list option \<Rightarrow> string list option" where
  "set_label i txt labels = Option.bind labels (\<lambda>l. if i < length l then Some (l[i := txt]) else None)"

definition fillConnectedClientsStatistics ::
  "(u8 \<Rightarrow> client_info_message \<Rightarrow> string) \<Rightarrow> client_info_message option \<Rightarrow> string list \<Rightarrow> string list option" where
  "fillConnectedClientsStatistics line info labels =
     (case info of
        None \<Rightarrow> Some labels
      | Some m \<Rightarrow> fold (\<lambda>i. set_label i (line (word_of_nat i) m)) [0..<unat (getNumClients m)] (Some labels))"

definition numConnectedClientsChanged ::
  "(u8 \<Rightarrow> client_info_message \<Rightarrow> string) \<Rightarrow> client_info_message option \<Rightarrow> client_info_message option \<Rightarrow> string list option" where
  "numConnectedClientsChanged line info1 info2 =
     (case info1 of
        None \<Rightarrow> None
      | Some m \<Rightarrow> fillConnectedClientsStatistics line info2 (replicate (unat (getNumClients m)) []))"

definition update_clients ::
  "(u8 \<Rightarrow> client_info_message \<Rightarrow> string) \<Rightarrow> (nat \<Rightarrow> client_info_message option) \<Rightarrow> string list \<Rightarrow> string list option" where
  "update_clients line read labels =
     (case read 0 of
        None \<Rightarrow> fillConnectedClientsStatistics line (read 1) labels
      | Some m0 \<Rightarrow>
          (case read 1 of
             None \<Rightarrow> None
           | Some m1 \<Rightarrow>
               if unat (getNumClients m1) \<noteq> length labels then numConnectedClientsChanged line (read 2) (read 3)
               else fillConnectedClientsStatistics line (read 2) labels))"

lemma set_labels:
  "fold (\<lambda>i. set_label i (f i)) [0..<n] (Some labels) =
     (if n \<le> length labels then Some (map f [0..<n] @ drop n labels) else None)"
proof (induction n)
  case (Suc n)
  show ?case
  proof (cases "n < length labels")
    case True
    then have "drop n labels = labels ! n # drop (Suc n) labels" by (rule Cons_nth_drop_Suc [symmetric])
    then show ?thesis using Suc True by (simp add: set_label_def list_update_append)
  next
    case False
    then show ?thesis using Suc by (cases "n = length labels") (simp_all add: set_label_def)
  qed
qed simp

lemma fill_labels:
  "fillConnectedClientsStatistics line (Some m) labels =
     (if unat (getNumClients m) \<le> length labels
      then Some (map (\<lambda>i. line (word_of_nat i) m) [0..<unat (getNumClients m)] @ drop (unat (getNumClients m)) labels)
      else None)"
  using set_labels [of "\<lambda>i. line (word_of_nat i) m"] by (simp add: fillConnectedClientsStatistics_def)

text \<open>
  As long as the receiver stores nothing new during a refresh, the window shows exactly one line for
  each client of the last report, whatever it has shown before. But it reads the report up to four times in a
  refresh; when the last one it reads has more clients than it has labels for, it writes through a null pointer.
\<close>
lemma client_statistics_need_stable_report:
  fixes addressText digits2
  defines "line \<equiv> statistics_line addressText digits2"
  assumes "read 0 \<noteq> None" "\<And>i. read (Suc i) = Some (reports i)"
    and "same = (unat (getNumClients (reports 0)) = length labels)"
  shows "(\<forall>m. (\<forall>i. reports i = m) \<longrightarrow>
        update_clients line read labels = Some (map (\<lambda>i. line (word_of_nat i) m) [0..<unat (getNumClients m)]))
    \<and> (update_clients line read labels = None \<longleftrightarrow>
        (if same then length labels < unat (getNumClients (reports 1))
         else unat (getNumClients (reports 1)) < unat (getNumClients (reports 2))))"
proof -
  obtain m0 where "read 0 = Some m0" using assms(2) by blast
  moreover have "read 1 = Some (reports 0)" "read 2 = Some (reports 1)" "read 3 = Some (reports 2)"
    using assms(3) [of 0] assms(3) [of 1] assms(3) [of 2] by (simp_all add: numeral_eq_Suc)
  ultimately have "update_clients line read labels =
      (if same then fillConnectedClientsStatistics line (Some (reports 1)) labels
       else fillConnectedClientsStatistics line (Some (reports 2)) (replicate (unat (getNumClients (reports 1))) []))"
    by (simp add: update_clients_def numConnectedClientsChanged_def assms(4))
  then show ?thesis by (simp add: fill_labels assms(4))
qed

text \<open>A second client is reported while the line of the first one is shown.\<close>

definition clients_report :: "nat \<Rightarrow> client_info_message" where
  "clients_report n = \<lparr>cm_clientInfos = replicate n \<lparr>ci_ipAddress = [], ci_isIPV6 = False, ci_portNumber = 8888, ci_qualityInfo = empty_quality_info\<rparr>,
     cm_capabilities = []\<rparr>"

lemma client_statistics_need_stable_report_witness:
  "update_clients (statistics_line (\<lambda>a v6. ''ip'') (\<lambda>x. ''0'')) (\<lambda>i. Some (clients_report (if i < 2 then 1 else 2))) [''old''] = None
    \<and> update_clients (statistics_line (\<lambda>a v6. ''ip'') (\<lambda>x. ''0'')) (\<lambda>i. Some (clients_report 1)) [] \<noteq> None"
proof -
  have n: "getNumClients (clients_report 1) = 1" "getNumClients (clients_report 2) = 2"
    by (simp_all add: getNumClients_def clients_report_def)
  show ?thesis
    using client_statistics_need_stable_report [of "\<lambda>i. Some (clients_report (if i < 2 then 1 else 2))"
        "\<lambda>i. clients_report (if Suc i < 2 then 1 else 2)" True "[''old'']" "\<lambda>a v6. ''ip''" "\<lambda>x. ''0''"]
      client_statistics_need_stable_report [of "\<lambda>i. Some (clients_report 1)" "\<lambda>i. clients_report 1" False "[]" "\<lambda>a v6. ''ip''" "\<lambda>x. ''0''"]
    by (simp add: n n [simplified])
qed

section \<open>The session\<close>

text \<open>The controllers of the session are made again when the session is not equal enough to the one shown.\<close>

definition refresh_session ::
  "channel_setup \<Rightarrow> channel_setup option \<times> string list \<times> mixer_settings \<Rightarrow> channel_setup option \<times> string list \<times> mixer_settings" where
  "refresh_session thisSetup = (\<lambda>(currentSessionSetup, controllers, mixer).
     if (case currentSessionSetup of None \<Rightarrow> True | Some c \<Rightarrow> \<not> cs_isEqualEnough c thisSetup)
     then (Some thisSetup, group_setup_session thisSetup mixer)
     else (currentSessionSetup, controllers, mixer))"

text \<open>After a refresh there is a controller for each channel of the session, for a setup equal enough to it.\<close>

lemma refresh_session_shows:
  assumes "refresh_session s (current, controllers, mixer) = (current', controllers', mixer')"
    and "\<forall>c. current = Some c \<longrightarrow> length controllers = length (cs_channels c)"
  shows "(\<exists>c. current' = Some c \<and> cs_isEqualEnough c s) \<and> length controllers' = length (cs_channels s)"
proof (cases "current = None \<or> (\<exists>c. current = Some c \<and> \<not> cs_isEqualEnough c s)")
  case True
  then have "current' = Some s \<and> (controllers', mixer') = group_setup_session s mixer"
    using assms(1) by (auto simp: refresh_session_def)
  then show ?thesis by (simp add: group_setup_session_def)
next
  case False
  then obtain c where "current = Some c" "cs_isEqualEnough c s" by auto
  then show ?thesis
    using assms by (auto simp: refresh_session_def cs_isEqualEnough_iff list_all2_lengthD)
qed

section \<open>The connection\<close>

definition bandwidthMegabits :: "nat \<Rightarrow> real" where
  "bandwidthMegabits packetSize =
     real packetSize * 8 * (real SAMPLE_RATE / real SAMPLE_BUFFER_SIZE) / (1024 * 1024)"

fun mtu_status_text :: "mtu_status \<Rightarrow> string" where
  "mtu_status_text Unavailable = ''(1200-byte fallback; server does not advertise detection). ''"
| "mtu_status_text Searching = ''(probing). ''"
| "mtu_status_text Complete = ''(detected path limit). ''"
| "mtu_status_text Failed = ''(detection failed; using 1200-byte fallback). ''"

definition packet_warning :: string where
  "packet_warning = ''WARNING: reduce the number of input channels; the upstream packet exceeds the safe path payload.''"

definition connection_text :: "nat \<Rightarrow> nat \<Rightarrow> mtu_status \<Rightarrow> string" where
  "connection_text packetSize safePayloadSize mtuStatus =
     ''UDP payload: '' @ decimal packetSize @ '' / '' @ decimal safePayloadSize @ '' bytes '' @ mtu_status_text mtuStatus
       @ ''Bandwidth: '' @ fixed_text 2 (bandwidthMegabits packetSize) @ ''MBit/s. ''
       @ (if safePayloadSize < packetSize then packet_warning else [])"

section \<open>Panels\<close>

definition setSettingsHeight :: "int \<Rightarrow> int \<Rightarrow> int" where
  "setSettingsHeight windowHeight height =
     (let maximum = max 240 (windowHeight - 2 * 5 - 240 - 6)
      in if height < 240 then 240 else if maximum < height then maximum else height)"

definition setSpectrumWidth :: "int \<Rightarrow> int" where
  "setSpectrumWidth width = max 260 width"

text \<open>The height that the layout gives the settings, of the area inside the border.\<close>

definition actualSettingsHeight :: "int \<Rightarrow> int \<Rightarrow> int" where
  "actualSettingsHeight areaHeight settingsHeight =
     (let maximumSettingsHeight = max 1 (areaHeight - 240 - 6);
          minimumSettingsHeight = min 240 maximumSettingsHeight
      in if settingsHeight < minimumSettingsHeight then minimumSettingsHeight
         else if maximumSettingsHeight < settingsHeight then maximumSettingsHeight else settingsHeight)"

text \<open>The width of the spectrum, or none when the mixer needs the room.\<close>

definition actualSpectrumWidth :: "int \<Rightarrow> nat \<Rightarrow> int \<Rightarrow> int option" where
  "actualSpectrumWidth areaWidth numInputMixers spectrumWidth =
     (let deviceSelectorWidth = min (areaWidth div 5) 250;
          inputMixerWidth = 100 * int numInputMixers + deviceSelectorWidth + 2 * 10;
          mixerAndSessionMinimum = inputMixerWidth + 2 * deviceSelectorWidth + 180 + 40;
          availableSpectrumWidth = areaWidth - mixerAndSessionMinimum;
          maximumSpectrumWidth = availableSpectrumWidth - 6
      in if 260 + 6 \<le> availableSpectrumWidth
         then Some (if spectrumWidth < 260 then 260 else if maximumSpectrumWidth < spectrumWidth then maximumSpectrumWidth else spectrumWidth)
         else None)"

text \<open>
  The panels leave room for the rest: 240 lines for the performance whenever the window has that many, and
  with the spectrum the mixers and a session of at least 40 columns.
\<close>

lemma panels_leave_room:
  assumes "0 < areaHeight" "0 \<le> areaWidth"
  shows "min 240 (areaHeight - 1) \<le> areaHeight - actualSettingsHeight areaHeight settingsHeight
    \<and> 0 < actualSettingsHeight areaHeight settingsHeight
    \<and> (\<forall>w. actualSpectrumWidth areaWidth n spectrumWidth = Some w \<longrightarrow>
         260 \<le> w \<and> w + 6 + 40 + 180 + 100 * int n + 3 * min (areaWidth div 5) 250 + 20 \<le> areaWidth)"
  by (auto simp: actualSettingsHeight_def actualSpectrumWidth_def Let_def)

section \<open>Changed settings\<close>

text \<open>A node of the tree of settings is the list of the types from it up to the root; the empty list is no node.\<close>

fun isChildOf :: "string \<Rightarrow> string list \<Rightarrow> bool" where
  "isChildOf searchFor [] = False"
| "isChildOf searchFor (type # parents) = (if type = searchFor then True else isChildOf searchFor parents)"

fun property_path :: "string list \<Rightarrow> string \<Rightarrow> string" where
  "property_path [] propertyName = propertyName"
| "property_path (type # parents) propertyName = property_path parents (type @ ''>'' @ propertyName)"

text \<open>The line for the log, and whether the controllers of the inputs are made again.\<close>

definition main_propertyChanged :: "string list \<Rightarrow> string \<Rightarrow> string \<Rightarrow> string \<times> bool" where
  "main_propertyChanged node property newValue =
     (property_path node property @ '' updated: '' @ newValue, isChildOf ''Inputs'' node)"

lemma isChildOf_iff: "isChildOf t node \<longleftrightarrow> t \<in> set node"
  by (induction node) auto

section \<open>The disk\<close>

text \<open>\<open>None\<close> is an access outside the list of prefixes.\<close>

definition humanReadableByteCount :: "nat \<Rightarrow> bool \<Rightarrow> string option" where
  "humanReadableByteCount bytes si =
     (let unit = (if si then 1000 else 1024)
      in if bytes < unit then Some (decimal bytes @ '' B'')
         else (let exponent = nat \<lfloor>ln (real bytes) / ln (real unit)\<rfloor>; prefixes = (if si then ''kMGTPE'' else ''KMGTPE'')
               in if exponent = 0 then Some ''NaN B''
                  else if exponent - 1 < length prefixes
                  then Some (fixed_text 1 (real bytes / real unit ^ exponent) @ '' '' @ [prefixes ! (exponent - 1)]
                         @ (if si then [] else ''i'') @ ''B'')
                  else None))"

definition diskSpacePercentage :: "int \<Rightarrow> int \<Rightarrow> real" where
  "diskSpacePercentage reportedFreeBytes totalBytes =
     (let freeBytes = (if 0 < reportedFreeBytes then reportedFreeBytes else 0)
      in if 0 < totalBytes then 1 - real_of_int freeBytes / real_of_int totalBytes else 0)"

text \<open>Every size of 64 bits has a prefix, and at most four digits before the point.\<close>

lemma byte_count_has_prefix:
  assumes "bytes < 2 ^ 64"
  shows "humanReadableByteCount bytes si \<noteq> None"
proof -
  define unit :: nat where "unit = (if si then 1000 else 1024)"
  have u: "1000 \<le> unit" "1 < real unit" by (auto simp: unit_def)
  have "nat \<lfloor>ln (real bytes) / ln (real unit)\<rfloor> < 7" if "unit \<le> bytes"
  proof -
    have "bytes < 1000 ^ 7" using assms by (rule less_trans) simp
    also have "\<dots> \<le> unit ^ 7" using u(1) by (rule power_mono) simp
    finally have "real bytes < real unit ^ 7" by (metis of_nat_less_iff of_nat_power)
    then have "ln (real bytes) < 7 * ln (real unit)"
      using u that by (metis (no_types, lifting) ln_less_cancel_iff ln_realpow of_nat_0_less_iff of_nat_numeral order_less_le_trans zero_less_numeral zero_less_power gr0I not_one_le_zero zero_less_one of_nat_0_less_iff)
    then have "ln (real bytes) / ln (real unit) < 7" using u(2) by (simp add: pos_divide_less_eq)
    then show ?thesis by linarith
  qed
  then show ?thesis by (auto simp: humanReadableByteCount_def Let_def unit_def not_less)
qed

end
