(* ===== verification/Plugin_Editor.thy ===== *)
theory Plugin_Editor
  imports Plugin_Props
begin

text \<open>
  The editor of the plug-in, \<open>Plugin/Source/JammerNetzPluginEditor.cpp\<close>, as far as it changes the plug-in:
  its fields, how they are loaded and stored, and the connect button. A slider is a parameter: it keeps a value in its
  range and on its steps. Layout and meters are left out.
\<close>

section \<open>The editor\<close>

record plugin_editor =
  ed_server :: string
  ed_port :: real
  ed_username :: string
  ed_keyPath :: string
  ed_localhost :: bool
  ed_fec :: bool
  ed_passthrough :: bool
  ed_sendGain :: real
  ed_dryGain :: real
  ed_remoteGain :: real
  ed_minimumJitter :: real
  ed_maximumJitter :: real

text \<open>A slider of a range and a step, and the value it takes when it is set.\<close>

type_synonym slider = "real \<Rightarrow> real \<Rightarrow> real \<Rightarrow> real \<Rightarrow> real"

definition gain_slider :: "slider \<Rightarrow> real \<Rightarrow> real" where "gain_slider slider v = slider 0 2 (1 / 100) v"

definition frame_slider :: "slider \<Rightarrow> real \<Rightarrow> real" where "frame_slider slider v = slider 0 256 1 v"

definition loadConfiguration :: "slider \<Rightarrow> string \<Rightarrow> plugin_configuration \<Rightarrow> plugin_editor" where
  "loadConfiguration slider keyPath c =
     \<lparr>ed_server = pc_serverName c, ed_port = slider 1 65535 1 (real_of_int (pc_serverPort c)), ed_username = pc_username c,
      ed_keyPath = keyPath, ed_localhost = pc_useLocalhost c, ed_fec = pc_useFEC c, ed_passthrough = pc_localPassthrough c,
      ed_sendGain = gain_slider slider (pc_sendGain c), ed_dryGain = gain_slider slider (pc_dryGain c),
      ed_remoteGain = gain_slider slider (pc_remoteGain c),
      ed_minimumJitter = frame_slider slider (real (unat (pc_minimumJitterFrames c))),
      ed_maximumJitter = frame_slider slider (real (unat (pc_maximumJitterFrames c)))\<rparr>"

definition editor_configuration :: "plugin_editor \<Rightarrow> plugin_configuration \<Rightarrow> plugin_configuration" where
  "editor_configuration ed c =
     c\<lparr>pc_serverName := ed_server ed, pc_serverPort := \<lfloor>ed_port ed\<rfloor>, pc_username := ed_username ed,
       pc_useLocalhost := ed_localhost ed, pc_useFEC := ed_fec ed, pc_localPassthrough := ed_passthrough ed,
       pc_sendGain := ed_sendGain ed, pc_dryGain := ed_dryGain ed, pc_remoteGain := ed_remoteGain ed,
       pc_minimumJitterFrames := word_of_int \<lfloor>ed_minimumJitter ed\<rfloor>,
       pc_maximumJitterFrames := word_of_int \<lfloor>ed_maximumJitter ed\<rfloor>\<rparr>"

definition storeConfiguration ::
  "(string \<Rightarrow> string) \<Rightarrow> nat \<Rightarrow> plugin_editor \<Rightarrow> nat option \<times> ('r, 'd, 'm) plugin \<Rightarrow> string \<times> nat option \<times> ('r, 'd, 'm) plugin" where
  "storeConfiguration trim me ed = (\<lambda>(owner, p).
     (ed_keyPath ed, setConfiguration trim me (editor_configuration ed (pl_configuration p)) (owner, p)))"

definition connect_clicked ::
  "'r ring_api \<Rightarrow> int \<Rightarrow> (string \<Rightarrow> string) \<Rightarrow> connect_env \<Rightarrow> nat \<Rightarrow> plugin_editor \<Rightarrow> nat option \<times> ('r, 'd, 'm) plugin
    \<Rightarrow> nat option \<times> ('r, 'd, 'm) plugin" where
  "connect_clicked A uninitialisedRate trim env me ed = (\<lambda>(owner, p).
     if pl_connected p then disconnectSession me (owner, p)
     else (let (keyPath, s) = storeConfiguration trim me ed (owner, p)
           in snd (connectSession A uninitialisedRate (env\<lparr>ec_keyPath := keyPath\<rparr>) me s)))"

text \<open>The caption of the button, and whether the fields can be edited.\<close>

definition editor_shows :: "('r, 'd, 'm) plugin \<Rightarrow> string \<times> bool" where
  "editor_shows p = (if pl_connected p then ''Disconnect'' else ''Connect'', \<not> pl_connected p)"

section \<open>Opening the editor\<close>

definition slider_laws :: "slider \<Rightarrow> bool" where
  "slider_laws slider \<longleftrightarrow> (\<forall>lower upper step v. 0 < step \<longrightarrow> lower \<le> upper \<longrightarrow>
     lower \<le> slider lower upper step v \<and> slider lower upper step v \<le> upper
     \<and> (\<forall>k :: int. v = lower + step * real_of_int k \<and> lower \<le> v \<and> v \<le> upper \<longrightarrow> slider lower upper step v = v))"

lemma slider_keeps:
  assumes "slider_laws slider" "0 < step" "lower \<le> v" "v \<le> upper" "v = lower + step * real_of_int k"
  shows "slider lower upper step v = v"
proof -
  have "lower \<le> upper" using assms(3,4) by (rule order_trans)
  then show ?thesis using assms unfolding slider_laws_def by blast
qed

lemma slider_range:
  assumes "slider_laws slider" "0 < step" "lower \<le> upper"
  shows "lower \<le> slider lower upper step v" "slider lower upper step v \<le> upper"
  using assms unfolding slider_laws_def by blast+

text \<open>A configuration with the gains as the sliders show them.\<close>

definition rounded_gains :: "slider \<Rightarrow> plugin_configuration \<Rightarrow> plugin_configuration" where
  "rounded_gains slider c =
     c\<lparr>pc_sendGain := gain_slider slider (pc_sendGain c), pc_dryGain := gain_slider slider (pc_dryGain c),
       pc_remoteGain := gain_slider slider (pc_remoteGain c)\<rparr>"

lemma sanitise_bounds:
  "1 \<le> pc_serverPort (sanitise trim c)" "pc_serverPort (sanitise trim c) \<le> 65535"
  "pc_minimumJitterFrames (sanitise trim c) \<le> 256" "pc_maximumJitterFrames (sanitise trim c) \<le> 256"
  by (auto simp: sanitise_def jlimit_def Let_def)

lemma frame_slider_keeps:
  fixes n :: u64
  assumes "slider_laws slider" "n \<le> 256"
  shows "word_of_int \<lfloor>frame_slider slider (real (unat n))\<rfloor> = n"
proof -
  have keep: "frame_slider slider (real m) = real m" if "m \<le> 256" for m :: nat
    unfolding frame_slider_def by (rule slider_keeps [OF assms(1), where k = "int m"]) (use that in auto)
  have "unat n \<le> 256" using assms(2) by (simp add: word_le_nat_alt)
  then show ?thesis unfolding keep [OF \<open>unat n \<le> 256\<close>] floor_of_nat by simp
qed

lemma editor_keeps:
  assumes "slider_laws slider"
  shows "editor_configuration (loadConfiguration slider keyPath (sanitise trim c)) (sanitise trim c) = rounded_gains slider (sanitise trim c)"
proof -
  have "slider 1 65535 1 (real_of_int (pc_serverPort (sanitise trim c))) = real_of_int (pc_serverPort (sanitise trim c))"
    using sanitise_bounds [of trim c]
    by (intro slider_keeps [OF assms, where k = "pc_serverPort (sanitise trim c) - 1"]) auto
  then show ?thesis
    using frame_slider_keeps [OF assms] sanitise_bounds [of trim c]
    by (cases "sanitise trim c") (simp add: editor_configuration_def loadConfiguration_def rounded_gains_def)
qed

lemma sanitise_rounded:
  assumes "slider_laws slider" "trim_laws trim"
  shows "sanitise trim (rounded_gains slider (sanitise trim c))
    = (rounded_gains slider (sanitise trim c))\<lparr>pc_username := trim (pc_username (sanitise trim c))\<rparr>"
proof -
  have "jlimit 0 2 (gain_slider slider v) = gain_slider slider v" for v
    using slider_range [OF assms(1), of "1 / 100" 0 2 v] by (simp add: jlimit_def gain_slider_def)
  moreover have "take 20 (trim (take 20 (trim u))) = trim (take 20 (trim u))" for u
    using assms(2) by (metis length_take min.bounded_iff order_trans trim_laws_def min.cobounded2 take_all)
  moreover have "trim (trim u) = trim u" for u using assms(2) by (simp add: trim_laws_def)
  ultimately show ?thesis by (cases c) (simp add: rounded_gains_def sanitise_def Let_def)
qed

text \<open>
  To open the editor of a disconnected instance and to connect, or to store what it shows, changes nothing of the
  configuration but the gains, which are put on the hundredths of the sliders, and a user name with a blank at its end;
  gains that are whole hundredths are kept.
\<close>
lemma editor_keeps_configuration:
  assumes "slider_laws slider" "trim_laws trim" "pl_configuration p = sanitise trim c"
    and "storeConfiguration trim me (loadConfiguration slider keyPath (pl_configuration p)) (owner, p) = (keyPath', owner', p')"
  shows "keyPath' = keyPath
    \<and> pl_configuration p' = (rounded_gains slider (pl_configuration p))\<lparr>pc_username := trim (pc_username (pl_configuration p))\<rparr>
    \<and> ((\<forall>g \<in> {pc_sendGain c, pc_dryGain c, pc_remoteGain c}. \<exists>k :: int. 0 \<le> k \<and> k \<le> 200 \<and> g = real_of_int k / 100) \<longrightarrow>
         rounded_gains slider (pl_configuration p) = pl_configuration p)"
proof -
  have "pl_configuration p' = sanitise trim (rounded_gains slider (sanitise trim c))" "keyPath' = keyPath"
    using assms(4) editor_keeps [OF assms(1)]
    by (auto simp: storeConfiguration_def assms(3) setConfiguration_def loadConfiguration_def Let_def split_beta)
  moreover have "gain_slider slider g = g \<and> jlimit 0 2 g = g" if "g = real_of_int k / 100" "0 \<le> k" "k \<le> 200" for g and k :: int
    using that slider_keeps [OF assms(1), of "1 / 100" 0 g 2 k] by (auto simp: gain_slider_def jlimit_def)
  ultimately show ?thesis
    using sanitise_rounded [OF assms(1,2), of c]
    by (auto simp: assms(3)) (cases c, force simp: rounded_gains_def sanitise_def Let_def)
qed

text \<open>A slider that rounds to its nearest step.\<close>

definition nearest_step :: slider where
  "nearest_step lower upper step v = max lower (min upper (lower + step * real_of_int (round ((v - lower) / step))))"

lemma nearest_step_laws: "slider_laws nearest_step"
  by (auto simp: slider_laws_def nearest_step_def)

lemma editor_keeps_configuration_witness:
  "\<exists>keyPath' owner' p'. storeConfiguration trim_blanks 0
      (loadConfiguration nearest_step ''/k'' (sanitise trim_blanks (plugin_configuration_new\<lparr>pc_sendGain := 1 / 3\<rparr>)))
      (None, (plugin_new (engine_new list_ring_api ([], []) ([], [])) :: (list_ring, unit, real list \<times> real list) plugin)\<lparr>pl_configuration := sanitise trim_blanks (plugin_configuration_new\<lparr>pc_sendGain := 1 / 3\<rparr>)\<rparr>) = (keyPath', owner', p')
    \<and> pc_sendGain (pl_configuration p') = 33 / 100 \<and> pc_dryGain (pl_configuration p') = 1"
proof -
  let ?c = "plugin_configuration_new\<lparr>pc_sendGain := 1 / 3\<rparr>"
  let ?p = "(plugin_new (engine_new list_ring_api ([], []) ([], [])) :: (list_ring, unit, real list \<times> real list) plugin)\<lparr>pl_configuration := sanitise trim_blanks ?c\<rparr>"
  obtain keyPath' owner' p' where st: "storeConfiguration trim_blanks 0
      (loadConfiguration nearest_step ''/k'' (pl_configuration ?p)) (None, ?p) = (keyPath', owner', p')"
    by (cases "storeConfiguration trim_blanks 0 (loadConfiguration nearest_step ''/k'' (pl_configuration ?p)) (None, ?p)") blast
  have "pl_configuration ?p = sanitise trim_blanks ?c" by simp
  from editor_keeps_configuration [OF nearest_step_laws trim_blanks_laws this st]
  have "pl_configuration p' = (rounded_gains nearest_step (pl_configuration ?p))\<lparr>pc_username := trim_blanks (pc_username (pl_configuration ?p))\<rparr>"
    by blast
  moreover have "gain_slider nearest_step (1 / 3) = 33 / 100" "gain_slider nearest_step 1 = 1"
    by (simp_all add: gain_slider_def nearest_step_def round_def)
  ultimately have "pc_sendGain (pl_configuration p') = 33 / 100 \<and> pc_dryGain (pl_configuration p') = 1"
    by (simp add: rounded_gains_def sanitise_def plugin_configuration_new_def jlimit_def Let_def)
  then show ?thesis using st by simp
qed

end
