(* ===== verification/Object_Pool.thy ===== *)
theory Object_Pool
  imports Prelude "HOL-Library.Multiset"
begin

text \<open>
  The pool of reusable objects, \<open>common/Pool.h\<close>. An object is its address; the allocator is a parameter that
  gives a new address. The pointer handed out returns its object with \<open>pool_free\<close> when it is destroyed. Each
  operation holds the lock, so operations are steps.
\<close>

record object_pool =
  pl_free :: "nat list"
  pl_used :: "nat list"

datatype 'a pool_result = Pool_Ok 'a object_pool | Bad_Alloc | Unknown_Object

text \<open>The constructor puts each new object in front.\<close>

definition pool_new :: "nat list \<Rightarrow> object_pool" where
  "pool_new objects = \<lparr>pl_free = rev objects, pl_used = []\<rparr>"

definition pool_alloc :: "bool \<Rightarrow> nat \<Rightarrow> object_pool \<Rightarrow> nat pool_result" where
  "pool_alloc growOnDemand fresh p =
     (case (if pl_free p = [] \<and> growOnDemand then [fresh] else pl_free p) of
        [] \<Rightarrow> Bad_Alloc
      | x # xs \<Rightarrow> Pool_Ok x \<lparr>pl_free = xs, pl_used = x # pl_used p\<rparr>)"

definition pool_free :: "nat \<Rightarrow> object_pool \<Rightarrow> unit pool_result" where
  "pool_free x p =
     (if x \<in> set (pl_used p) then Pool_Ok () \<lparr>pl_free = pl_free p @ [x], pl_used = remove1 x (pl_used p)\<rparr> else Unknown_Object)"

definition getFreeCount :: "object_pool \<Rightarrow> nat" where
  "getFreeCount p = length (pl_free p)"

section \<open>Runs of a pool\<close>

datatype pool_op = Alloc nat | Return nat

text \<open>
  The pointers that are out are kept beside the pool. An allocation gets an address that no live object has, and a
  pointer is returned only by who holds it; a step that raises an exception has no result.
\<close>

fun pool_step :: "bool \<Rightarrow> pool_op \<Rightarrow> nat list \<times> object_pool \<Rightarrow> (nat list \<times> object_pool) option" where
  "pool_step grow (Alloc fresh) (held, p) =
     (if fresh \<in> set (pl_free p) \<union> set (pl_used p) then Some (held, p)
      else case pool_alloc grow fresh p of Pool_Ok x p' \<Rightarrow> Some (x # held, p') | _ \<Rightarrow> None)"
| "pool_step grow (Return x) (held, p) =
     (if x \<notin> set held then Some (held, p)
      else case pool_free x p of Pool_Ok u p' \<Rightarrow> Some (remove1 x held, p') | _ \<Rightarrow> None)"

fun pool_run :: "bool \<Rightarrow> pool_op list \<Rightarrow> nat list \<times> object_pool \<Rightarrow> (nat list \<times> object_pool) option" where
  "pool_run grow [] s = Some s"
| "pool_run grow (op # ops) s = Option.bind (pool_step grow op s) (pool_run grow ops)"

definition pool_inv :: "nat list \<times> object_pool \<Rightarrow> bool" where
  "pool_inv = (\<lambda>(held, p). distinct (pl_free p @ pl_used p) \<and> mset held = mset (pl_used p))"

lemma pool_inv_held: "pool_inv (held, p) \<Longrightarrow> set held = set (pl_used p) \<and> distinct held"
  by (auto simp: pool_inv_def dest: mset_eq_setD) (metis mset_eq_imp_distinct_iff)

lemma pool_step_inv:
  assumes "pool_inv (held, p)" "pool_step grow op (held, p) = Some (held', p')"
  shows "pool_inv (held', p')
    \<and> length (pl_free p) + length held \<le> length (pl_free p') + length held'
    \<and> (\<not> grow \<longrightarrow> set (pl_free p') \<union> set held' = set (pl_free p) \<union> set held)"
  using assms pool_inv_held [OF assms(1)]
  by (cases op)
    (auto simp: pool_inv_def pool_alloc_def pool_free_def distinct_remove1 notin_set_remove1 length_remove1 mset_remove1
        in_set_remove1 set_remove1_eq split: if_splits list.splits)

lemma pool_run_inv:
  "pool_inv (held, p) \<Longrightarrow> pool_run grow ops (held, p) = Some (held', p') \<Longrightarrow>
     pool_inv (held', p') \<and> length (pl_free p) + length held \<le> length (pl_free p') + length held'
     \<and> (\<not> grow \<longrightarrow> set (pl_free p') \<union> set held' = set (pl_free p) \<union> set held)"
proof (induction ops arbitrary: held p)
  case (Cons op ops)
  obtain held1 p1 where s: "pool_step grow op (held, p) = Some (held1, p1)"
    using Cons.prems(2) by (cases "pool_step grow op (held, p)") auto
  show ?case using pool_step_inv [OF Cons.prems(1) s] Cons.IH [of held1 p1] Cons.prems(2) s by auto
qed simp

lemma pool_growing_never_fails:
  "pool_inv (held, p) \<Longrightarrow> pool_run True ops (held, p) \<noteq> None"
proof (induction ops arbitrary: held p)
  case (Cons op ops)
  have "pool_step True op (held, p) \<noteq> None"
    using pool_inv_held [OF Cons.prems] by (cases op) (auto simp: pool_alloc_def pool_free_def split: list.splits)
  then obtain held1 p1 where s: "pool_step True op (held, p) = Some (held1, p1)" by auto
  then show ?case using Cons.IH pool_step_inv [OF Cons.prems s] by simp
qed simp

text \<open>
  However objects are taken and returned, no object is out twice, none that is out is free, and none is
  lost: a pool of fixed size always consists of its first objects. A pool that grows never raises an exception, and never shrinks.
\<close>
lemma pool_hands_out_once:
  assumes "distinct objects" "pool_run grow ops ([], pool_new objects) = Some (held, p)"
  shows "distinct (held @ pl_free p) \<and> length objects \<le> length held + getFreeCount p
    \<and> (\<not> grow \<longrightarrow> set held \<union> set (pl_free p) = set objects)
    \<and> pool_run True ops' ([], pool_new objects) \<noteq> None"
proof -
  have new: "pool_inv ([], pool_new objects)" using assms(1) by (simp add: pool_inv_def pool_new_def)
  note inv = pool_run_inv [OF new assms(2)]
  then have "set held = set (pl_used p)" "distinct held" using pool_inv_held by auto
  then show ?thesis
    using inv pool_growing_never_fails [OF new] by (auto simp: pool_inv_def pool_new_def getFreeCount_def)
qed

lemma pool_hands_out_once_witness:
  "\<exists>p. pool_run False [Alloc 9, Alloc 9, Return 2, Alloc 9] ([], pool_new [1, 2]) = Some ([2, 1], p) \<and> getFreeCount p = 0
    \<and> pool_run True [Alloc 7, Alloc 8, Alloc 9] ([], pool_new [1, 2]) \<noteq> None"
proof -
  have run: "pool_run False [Alloc 9, Alloc 9, Return 2, Alloc 9] ([], pool_new [1, 2]) = Some ([2, 1], \<lparr>pl_free = [], pl_used = [2, 1]\<rparr>)"
    by (simp add: pool_new_def pool_alloc_def pool_free_def)
  show ?thesis
    using pool_hands_out_once [OF _ run, of "[Alloc 7, Alloc 8, Alloc 9]"] run by (simp add: getFreeCount_def)
qed

end
