(* ===== verification/Play_Along.thy ===== *)
theory Play_Along
  imports Buffers_Config
begin

text \<open>
  The playback of the texts of a karaoke file, \<open>Client/Source/MidiPlayAlong.cpp\<close>, with the start button and
  the text of \<open>PlayalongDisplay.cpp\<close>. The reader of MIDI files is a parameter, and so is the sequence of events, with
  the laws its documentation gives. Times are in seconds.
\<close>

record midi_event =
  me_time :: real
  me_text :: "string option"

record sequence_api =
  sq_addEvent :: "midi_event \<Rightarrow> midi_event list \<Rightarrow> midi_event list"
  sq_getNextIndexAtTime :: "real \<Rightarrow> midi_event list \<Rightarrow> nat"
  sq_getStartTime :: "midi_event list \<Rightarrow> real"

record play_along =
  pa_collector :: "midi_event list"
  pa_startTime :: real
  pa_isPlaying :: bool
  pa_karaoke :: string

definition play_start :: "real \<Rightarrow> play_along \<Rightarrow> play_along" where
  "play_start now s = s\<lparr>pa_isPlaying := True, pa_startTime := now\<rparr>"

definition play_stop :: "play_along \<Rightarrow> play_along" where
  "play_stop s = s\<lparr>pa_isPlaying := False\<rparr>"

text \<open>A file is the list of its tracks, if it can be read; \<open>None\<close> stands for no file.\<close>

definition loadNewPlayalongFile :: "sequence_api \<Rightarrow> midi_event list list option option \<Rightarrow> play_along \<Rightarrow> play_along" where
  "loadNewPlayalongFile A physicalFile s =
     (case physicalFile of
        None \<Rightarrow> s
      | Some contents \<Rightarrow>
          (let s1 = s\<lparr>pa_collector := []\<rparr>
           in case contents of
                None \<Rightarrow> s1
              | Some tracks \<Rightarrow>
                  s1\<lparr>pa_collector := fold (fold (\<lambda>e. if me_text e \<noteq> None then sq_addEvent A e else id)) tracks (pa_collector s1)\<rparr>))"

text \<open>The loop from the first event on that is due.\<close>

fun take_due :: "real \<Rightarrow> midi_event list \<Rightarrow> string \<Rightarrow> midi_event list \<times> string" where
  "take_due endTime [] karaoke = ([], karaoke)"
| "take_due endTime (e # es) karaoke =
     (if me_time e < endTime
      then (let (taken, k) = take_due endTime es (case me_text e of None \<Rightarrow> karaoke | Some t \<Rightarrow> t) in (e # taken, k))
      else ([], karaoke))"

definition fillNextMidiBuffer :: "sequence_api \<Rightarrow> real \<Rightarrow> nat \<Rightarrow> play_along \<Rightarrow> midi_event list \<times> play_along" where
  "fillNextMidiBuffer A now numSamples s =
     (if \<not> pa_isPlaying s then ([], s)
      else (let timeElapsed = now - pa_startTime s;
                fileStartTime = sq_getStartTime A (pa_collector s);
                endTime = timeElapsed + real numSamples / real SAMPLE_RATE;
                index = sq_getNextIndexAtTime A (timeElapsed - fileStartTime) (pa_collector s);
                (messages, karaoke) = take_due endTime (drop index (pa_collector s)) (pa_karaoke s)
            in (messages, s\<lparr>pa_karaoke := karaoke\<rparr>)))"

text \<open>The display: a click starts or stops, with the new caption; the timer shows the latest text.\<close>

definition playalong_clicked :: "real \<Rightarrow> play_along \<Rightarrow> string \<times> play_along" where
  "playalong_clicked now s = (if pa_isPlaying s then (''Start'', play_stop s) else (''Stop'', play_start now s))"

definition playalong_text :: "play_along \<Rightarrow> string \<Rightarrow> string" where
  "playalong_text s shown = (if pa_karaoke s \<noteq> shown then pa_karaoke s else shown)"

section \<open>What is delivered\<close>

text \<open>
  The sequence keeps its events in the order of their times; the index is that of the first event at or after a time.
\<close>

definition sequence_laws :: "sequence_api \<Rightarrow> bool" where
  "sequence_laws A \<longleftrightarrow>
     (\<forall>e es. sorted (map me_time es) \<longrightarrow> sorted (map me_time (sq_addEvent A e es)) \<and> set (sq_addEvent A e es) = insert e (set es))
     \<and> (\<forall>t es. sorted (map me_time es) \<longrightarrow> sq_getNextIndexAtTime A t es = length (takeWhile (\<lambda>e. me_time e < t) es))
     \<and> (\<forall>es. sq_getStartTime A es = (case es of [] \<Rightarrow> 0 | e # _ \<Rightarrow> me_time e))"

lemma loaded_sorted:
  assumes "sequence_laws A"
  shows "sorted (map me_time es) \<Longrightarrow>
    sorted (map me_time (fold (fold (\<lambda>e. if me_text e \<noteq> None then sq_addEvent A e else id)) tracks es))"
proof (induction tracks arbitrary: es)
  case (Cons track tracks)
  have "sorted (map me_time es) \<Longrightarrow> sorted (map me_time (fold (\<lambda>e. if me_text e \<noteq> None then sq_addEvent A e else id) track es))" for es
  proof (induction track arbitrary: es)
    case (Cons e track)
    then show ?case using assms by (simp add: sequence_laws_def)
  qed simp
  then show ?case using Cons by simp
qed simp

lemma take_due_sorted: "sorted (map me_time es) \<Longrightarrow> fst (take_due t es k) = filter (\<lambda>e. me_time e < t) es"
  by (induction t es k rule: take_due.induct) (auto simp: split_beta Let_def intro!: filter_False [symmetric])

lemma drop_due: "sorted (map me_time es) \<Longrightarrow> drop (length (takeWhile (\<lambda>e. me_time e < t) es)) es = filter (\<lambda>e. t \<le> me_time e) es"
  by (induction es) (auto intro!: filter_True [symmetric])

lemma delivered_events:
  assumes "sequence_laws A" "sorted (map me_time (pa_collector s))" "pa_isPlaying s"
  shows "fst (fillNextMidiBuffer A now n s) = filter (\<lambda>e. now - pa_startTime s - sq_getStartTime A (pa_collector s) \<le> me_time e
      \<and> me_time e < now - pa_startTime s + real n / real SAMPLE_RATE) (pa_collector s)"
proof -
  let ?t = "now - pa_startTime s - sq_getStartTime A (pa_collector s)"
  have "drop (sq_getNextIndexAtTime A ?t (pa_collector s)) (pa_collector s) = filter (\<lambda>e. ?t \<le> me_time e) (pa_collector s)"
    using assms(1,2) drop_due [of "pa_collector s"] by (simp add: sequence_laws_def)
  moreover have "sorted (map me_time (filter (\<lambda>e. ?t \<le> me_time e) (pa_collector s)))"
    using assms(2) by (simp add: sorted_filter)
  ultimately show ?thesis
    using assms(3) take_due_sorted by (simp add: fillNextMidiBuffer_def Let_def split_beta conj_commute)
qed

text \<open>
  Two calls that follow each other without a gap deliver an event twice exactly when it comes less than the start time of
  the file before the second one: the start of the file is taken off for the first event of a call, but not for
  the last. Only a file that starts at time 0 is delivered once.
\<close>

lemma late_start_repeats_events:
  assumes "sequence_laws A" "sorted (map me_time (pa_collector s))" "pa_isPlaying s" "0 \<le> sq_getStartTime A (pa_collector s)"
    and "fillNextMidiBuffer A now n s = (first_events, s')"
    and "fillNextMidiBuffer A (now + real n / real SAMPLE_RATE) m s' = (second_events, s'')"
    and "e \<in> set first_events"
  shows "e \<in> set second_events \<longleftrightarrow>
    now - pa_startTime s + real n / real SAMPLE_RATE - sq_getStartTime A (pa_collector s) \<le> me_time e"
proof -
  have s': "pa_collector s' = pa_collector s" "pa_startTime s' = pa_startTime s" "pa_isPlaying s'"
    using assms(3,5) by (auto simp: fillNextMidiBuffer_def Let_def split_beta)
  have "first_events = fst (fillNextMidiBuffer A now n s)"
    "second_events = fst (fillNextMidiBuffer A (now + real n / real SAMPLE_RATE) m s')"
    using assms(5,6) by simp_all
  then show ?thesis
    using assms(2,4,7) delivered_events [OF assms(1-3)] delivered_events [OF assms(1), of s'] s'
    by (auto simp: add_nonneg_nonneg intro: order_less_le_trans)
qed

text \<open>A file of one text at second 2, read in two calls of a second.\<close>

definition plain_sequence :: sequence_api where
  "plain_sequence =
     \<lparr>sq_addEvent = insort_key me_time,
      sq_getNextIndexAtTime = (\<lambda>t es. length (takeWhile (\<lambda>e. me_time e < t) es)),
      sq_getStartTime = (\<lambda>es. case es of [] \<Rightarrow> 0 | e # _ \<Rightarrow> me_time e)\<rparr>"

lemma plain_sequence_laws: "sequence_laws plain_sequence"
  by (simp add: sequence_laws_def plain_sequence_def sorted_insort_key set_insort_key)

lemma late_start_repeats_events_witness:
  "let e = \<lparr>me_time = 2, me_text = Some ''la''\<rparr>; s = \<lparr>pa_collector = [e], pa_startTime = 0, pa_isPlaying = True, pa_karaoke = []\<rparr>
   in e \<in> set (fst (fillNextMidiBuffer plain_sequence (5 / 2 + real 48000 / real SAMPLE_RATE) 48000
        (snd (fillNextMidiBuffer plain_sequence (5 / 2) 48000 s))))"
proof -
  let ?e = "\<lparr>me_time = 2, me_text = Some ''la''\<rparr>"
  let ?s = "\<lparr>pa_collector = [?e], pa_startTime = 0, pa_isPlaying = True, pa_karaoke = []\<rparr>"
  obtain es s' where one: "fillNextMidiBuffer plain_sequence (5 / 2) 48000 ?s = (es, s')"
    by (cases "fillNextMidiBuffer plain_sequence (5 / 2) 48000 ?s")
  obtain es' s'' where two: "fillNextMidiBuffer plain_sequence (5 / 2 + real 48000 / real SAMPLE_RATE) 48000 s' = (es', s'')"
    by (cases "fillNextMidiBuffer plain_sequence (5 / 2 + real 48000 / real SAMPLE_RATE) 48000 s'")
  have "?e \<in> set es" using delivered_events [OF plain_sequence_laws, of ?s "5 / 2" 48000] one
    by (simp add: plain_sequence_def SAMPLE_RATE_def)
  from late_start_repeats_events [OF plain_sequence_laws _ _ _ one two this] have "?e \<in> set es'"
    by (simp add: plain_sequence_def SAMPLE_RATE_def)
  then show ?thesis by (simp only: Let_def one two fst_conv snd_conv)
qed

end
