(* ===== verification/Spec2Isabelle.thy ===== *)
theory Spec2Isabelle
  imports Jitter_Theorems Spsc_Queue Client_Network_Props Audio_Receive_Props Engine_Clock_Props Engine_Stream_Props
    Engine_Handshakes Engine_Tempo_Props Audio_Recording_Props Plugin_Gate Plugin_Props Audio_Service_Props
    Server_Launch Spectrum_Analysis Client_Settings Midi_Selector Client_Display Plugin_Editor Object_Pool Play_Along
begin

text \<open>
  JammerNetz lets musicians play together over the internet. A client captures its audio inputs in blocks of
  128 samples and sends each block in a UDP packet to a server. The server keeps one jitter buffer for each
  client, mixes one block of every client in a step, and sends every client its own mix. The client puts
  the packets of the server in order again, plays them, and sends a MIDI clock that follows the server's tempo. The same client
  engine runs in an application and in an audio plug-in. This library models the program's own logic, \<open>common/\<close>, \<open>Server/Source\<close>,
  \<open>Client/Source\<close> and \<open>Plugin/Source\<close>, as executable definitions and step relations, and proves what makes it
  correct. Every definition has the name of the function it models wherever the name is free; a prefix or
  suffix names the class otherwise (\<open>psq_push\<close> is \<open>PacketStreamQueue::push\<close>).

  The theories, in the order of their imports:

  \<^item> \<open>Prelude\<close>: machine integers, floating point values with NaN and infinities (\<open>fl\<close>), time points in nanoseconds, the
    sorted association lists that stand for \<open>std::map\<close>, and the heap of audio buffers behind shared pointers.

  \<^item> Data and wire: \<open>Packet\<close> (channel setups, audio blocks, fill-in and padding packets of
    \<open>JammerNetzPackage.h/.cpp\<close>), \<open>Running_Stats\<close>, \<open>Ring_Buffer\<close> (the ring that keeps the blocks sent last), \<open>Buffers_Config\<close>
    (sizes, the port parser), \<open>Wire_Format\<close> and \<open>Wire_Format_Props\<close> (every message to and from the FlatBuffers tables).

  \<^item> Jitter queue: \<open>Packet_Stream_Queue\<close> with its invariant (\<open>Packet_Stream_Queue_Props\<close>), its contract as the locale \<open>jitter_buffer\<close>
    interpreted on the code's queue (\<open>Jitter_Buffer\<close>), and the properties of all interleavings (\<open>Jitter_Theorems\<close>).

  \<^item> Server: \<open>Client_State\<close> (connection and queue of one client), \<open>Server_Mixer\<close> (the mix of a step), \<open>Mix_Scheduler\<close> (when to
    mix), \<open>Server_Threads\<close> (one iteration of the accept, mixer and send threads as functions of the shared state),
    each with its \<open>_Props\<close> theory. \<open>Server_Log\<close> is the screen log
    and the calls made of it, \<open>Server_Launch\<close> the options and the start of \<open>main\<close>; \<open>Text_Format\<close> has the number texts.

  \<^item> Client network: \<open>Path_Mtu\<close> (the search for the largest payload), \<open>Net_Client\<close> (sender), \<open>Data_Receive\<close>
    (receiver thread and session); \<open>Client_Network_Props\<close> puts client and server together.

  \<^item> Client audio: \<open>Spsc_Queue\<close> (the lock-free queue refines a bounded list, locale \<open>bounded_fifo\<close>), \<open>Realtime_Frames\<close>,
    \<open>Audio_Transmit\<close>, \<open>Audio_Receive\<close>, \<open>Midi_Send\<close> and \<open>Audio_Recording\<close> (the workers around the audio callback),
    \<open>Audio_Engine\<close> (the engine's state and the operations of the other threads), \<open>Engine_Callback\<close> (\<open>process\<close>
    and everything it calls), and the properties in \<open>Audio_Receive_Props\<close>, \<open>Engine_Stream_Props\<close>, \<open>Engine_Clock_Props\<close>,
    \<open>Engine_Tempo_Props\<close> and \<open>Audio_Recording_Props\<close>. \<open>Spectrum_Analysis\<close> is the worker of the spectrum display. \<open>Engine_Handshakes\<close> has the hand-over of pointers between the message thread
    and the callback, atomic access by atomic access.

  \<^item> Hosts of the engine: \<open>Audio_Service\<close> (settings, device and session of the application) and \<open>Plugin_Processor\<close>, with
    \<open>Audio_Service_Props\<close>, \<open>Plugin_Gate\<close> (the gate of the audio thread) and \<open>Plugin_Props\<close>.

  \<^item> Controls: \<open>Client_Settings\<close> (channel controllers and device selector), \<open>Midi_Selector\<close> (MIDI clock outputs), \<open>Client_Display\<close>
    (the decisions of the main window) and \<open>Plugin_Editor\<close>; \<open>Play_Along\<close> and \<open>Object_Pool\<close> are parts that nothing uses at present.

  How the model corresponds to the code. A class is a record with the fields of the class, an operation a function from the
  state to its result and the new state, with the guards and early returns of the code in their order. Counters
  are words of the code's width and wrap. Samples, gains and times in milliseconds are real
  numbers, so rounding of \<open>float\<close> arithmetic is not modelled; tempi keep NaN and infinities. A buffer behind a \<open>shared_ptr\<close> is an
  address of a heap where the code shares it (fill-in packets). An uncaught exception or a call of \<open>exit\<close> is the
  result \<open>Exit\<close>, an access out of bounds \<open>Undefined\<close> or \<open>UndefinedBehaviour\<close>. A thread is the function of one
  iteration; interleavings are sequences of such steps, and of single atomic accesses
  (\<open>inductive\<close> relations with invariants through the locale \<open>invariant_system\<close>) where the code has no lock. A queue between
  two threads is a list of bounded length, which \<open>Spsc_Queue\<close> justifies.

  Third-party code is a parameter: the FlatBuffers and JSON libraries with the 16 bit sample conversion (\<open>codec\<close>; a table
  that was written reads back, \<open>control_decodes\<close> for control messages), BlowFish (\<open>cipher\<close>, \<open>cipher_ok\<close>), JUCE's \<open>AbstractFifo\<close> (\<open>fifo_laws\<close>), sample ring buffer (\<open>ring_laws\<close>),
  \<open>addFrom\<close> (\<open>adds\<close>), property trees (\<open>tree_laws\<close>, \<open>children_laws\<close>), sliders (\<open>slider_laws\<close>), event sequences (\<open>sequence_laws\<close>)
  and \<open>String::trim\<close> (\<open>trim_laws\<close>), the level meters, the pitch detector,
  audio file formats, sockets, devices and key files. Each law states documented behaviour and has an instance in the
  theory that uses it.

  What the groups of lemmas show. Jitter queue: packets leave in order, each accepted one leaves once or is thrown away on purpose,
  at most two packets of a gap are concealed, and popping empties the queue. Server: the invariant of its shared state under any
  interleaving; a client is dropped only after an underrun and two seconds of silence; no mix before every
  live client is ready; queues stay within their bound; the mix is the routed sum and has no echo of its
  receiver; the redundant block is the one sent before. Wire: round trips, and what they lose. Path size: only
  acknowledged sizes are reported, and the search finds the limit. Client: captured audio reaches the server's queue in order,
  packets are played in sending order, never after a reset of the stream, with bounded latency; the played signal is the remote stream; the clock
  has every pulse once; recordings hold what was captured; the tempo does not feed back; no callback uses what has
  been shut down or released. Hosts: one plug-in instance is connected, saved states are restored, and the open
  device belongs to the latest request. Controls: what is shown is what is sent, and what the settings keep, which is less than what
  the user chose where the lemmas say so.

  Loops and bounds. Structural recursion models loops over lists. The overrun recovery of the receive worker (\<open>discard_down\<close>) ends
  because every pop lowers \<open>pop_work\<close>; the capture loop gets as many rounds as the ring holds blocks, plus one,
  each of which takes a block; \<open>process_chunks\<close> and \<open>plugin_chunks\<close> have the rest of the block as their measure; the marker loop runs at most once for each
  marker; the port search has the 64 attempts of the code; the path search needs at most 72 rounds (\<open>mtu_search_finds_limit\<close>). Nothing
  else uses fuel.

  Not modelled: drawing, layout and the controls that only forward to a setting, the enumeration
  and naming of devices, the writing of audio files, the spectrum analysis itself, the application object, the tests and
  their support code, and the build files. They hold no state that the modelled parts rely on;
  \<open>PROJECT.json\<close> lists them one by one.
\<close>

end
